(* ===== verification/Prelude.thy ===== *)
theory Prelude
  imports
    Main
    "HOL-Library.Word"
    "HOL-Library.Char_ord"
    "HOL-Library.List_Lexorder"
    "HOL-Library.Product_Lexorder"
    "HOL-Library.Sublist"
begin

text \<open>
  Shared vocabulary of the development: Go's byte strings, instants and results; the ordered
  key-value index every keeper writes to, with the interface its clients rely on; reachability of
  a step relation, with the interface that turns a one-step invariant into an invariant of every
  reachable state; and big-endian integers.
\<close>

named_theorems store_simps \<open>what a lookup, a sum or a key set is after a write to an index\<close>
named_theorems inv_intros \<open>one operation keeps the invariant of its component\<close>

section \<open>Types\<close>

text \<open>
  A Go byte slice is a list of 8-bit words. An instant (\<open>time.Time\<close>) is the number of nanoseconds
  since Go's zero time, a duration (\<open>time.Duration\<close>) a number of nanoseconds.
\<close>

type_synonym bytes = "8 word list"
type_synonym time = int
type_synonym duration = int
type_synonym int64 = "64 word"
type_synonym uint64 = "64 word"
type_synonym uint32 = "32 word"

abbreviation (input) zero_time :: time where
  "zero_time \<equiv> 0"

abbreviation (input) second :: duration where
  "second \<equiv> 1000000000"

abbreviation (input) minute :: duration where
  "minute \<equiv> 60 * 1000000000"

abbreviation (input) hour :: duration where
  "hour \<equiv> 3600 * 1000000000"

section \<open>Results\<close>

text \<open>
  A Go function that returns \<open>(value, error)\<close> or panics is a function into a sum: \<open>Inl\<close> is the
  error (or the panic), \<open>Inr\<close> the value. \<open>rbind\<close> is the early return on error.
\<close>

fun rbind :: "'e + 'a \<Rightarrow> ('a \<Rightarrow> 'e + 'b) \<Rightarrow> 'e + 'b" where
  "rbind (Inl e) f = Inl e"
| "rbind (Inr x) f = f x"

definition of_opt :: "'e \<Rightarrow> 'a option \<Rightarrow> 'e + 'a" where
  "of_opt e x = (case x of None \<Rightarrow> Inl e | Some y \<Rightarrow> Inr y)"

definition require :: "bool \<Rightarrow> 'e \<Rightarrow> 'e + unit" where
  "require b e = (if b then Inr () else Inl e)"

lemma rbind_Inr_iff [simp]: "rbind m f = Inr y \<longleftrightarrow> (\<exists>x. m = Inr x \<and> f x = Inr y)"
  by (cases m) auto

lemma of_opt_Inr_iff [simp]: "of_opt e x = Inr y \<longleftrightarrow> x = Some y"
  by (cases x) (auto simp: of_opt_def)

lemma of_opt_simps [simp]:
  "of_opt e (Some y) = Inr y" "of_opt e None = Inl e"
  by (simp_all add: of_opt_def)

lemma require_Inr_iff [simp]: "require b e = Inr u \<longleftrightarrow> b"
  by (simp add: require_def)

lemma require_simps [simp]:
  "require True e = Inr ()" "require False e = Inl e"
  by (simp_all add: require_def)

lemma rbind_if [simp]: "rbind (if b then m else n) f = (if b then rbind m f else rbind n f)"
  by simp

lemma rbind_assoc: "rbind (rbind m f) g = rbind m (\<lambda>x. rbind (f x) g)"
  by (cases m) auto

section \<open>Ordered indexes\<close>

text \<open>
  The application state of a keeper is a set of ordered indexes: finite maps whose iteration
  follows the order of their keys. An index is an association list, ascending in its keys.
\<close>

type_synonym ('k, 'v) kv = "('k \<times> 'v) list"

abbreviation kv_get :: "('k, 'v) kv \<Rightarrow> 'k \<Rightarrow> 'v option" where
  "kv_get \<equiv> map_of"

definition kv_ok :: "('k::linorder, 'v) kv \<Rightarrow> bool" where
  "kv_ok m \<longleftrightarrow> sorted_wrt (<) (map fst m)"

fun kv_set :: "'k::linorder \<Rightarrow> 'v \<Rightarrow> ('k, 'v) kv \<Rightarrow> ('k, 'v) kv" where
  "kv_set k v [] = [(k, v)]"
| "kv_set k v (p # m) =
     (if fst p < k then p # kv_set k v m
      else (k, v) # (if fst p = k then m else p # m))"

definition kv_del :: "'k \<Rightarrow> ('k, 'v) kv \<Rightarrow> ('k, 'v) kv" where
  "kv_del k m = filter (\<lambda>p. fst p \<noteq> k) m"

definition kv_sum :: "('k \<Rightarrow> 'v \<Rightarrow> int) \<Rightarrow> ('k, 'v) kv \<Rightarrow> int" where
  "kv_sum f m = (\<Sum>p\<leftarrow>m. f (fst p) (snd p))"

text \<open>
  What a keeper relies on in an index: a read returns the last write of its key, iteration visits
  every entry once in key order, and the writes keep the order. The laws on finite sums over the
  entries follow for every implementation of this interface.
\<close>

locale ordered_index =
  fixes get :: "'m \<Rightarrow> 'k::linorder \<Rightarrow> 'v option"
    and put :: "'k \<Rightarrow> 'v \<Rightarrow> 'm \<Rightarrow> 'm"
    and del :: "'k \<Rightarrow> 'm \<Rightarrow> 'm"
    and entries :: "'m \<Rightarrow> ('k \<times> 'v) list"
    and ok :: "'m \<Rightarrow> bool"
  assumes ok_put: "ok m \<Longrightarrow> ok (put k v m)"
    and ok_del: "ok m \<Longrightarrow> ok (del k m)"
    and get_put: "ok m \<Longrightarrow> get (put k v m) k' = (if k' = k then Some v else get m k')"
    and get_del: "ok m \<Longrightarrow> get (del k m) k' = (if k' = k then None else get m k')"
    and entries_get: "ok m \<Longrightarrow> get m k = map_of (entries m) k"
    and entries_sorted: "ok m \<Longrightarrow> sorted_wrt (<) (map fst (entries m))"
begin

definition total :: "('k \<Rightarrow> 'v \<Rightarrow> int) \<Rightarrow> 'm \<Rightarrow> int" where
  "total f m = (\<Sum>p\<leftarrow>entries m. f (fst p) (snd p))"

definition weight :: "('k \<Rightarrow> 'v \<Rightarrow> int) \<Rightarrow> 'm \<Rightarrow> 'k \<Rightarrow> int" where
  "weight f m k = (case get m k of None \<Rightarrow> 0 | Some v \<Rightarrow> f k v)"

lemma distinct_keys: "ok m \<Longrightarrow> distinct (map fst (entries m))"
  using entries_sorted strict_sorted_iff by blast

lemma in_entries_iff: "ok m \<Longrightarrow> (k, v) \<in> set (entries m) \<longleftrightarrow> get m k = Some v"
  by (simp add: entries_get distinct_keys)

lemma total_as_sum:
  assumes "ok m" and "finite A" and "{k. get m k \<noteq> None} \<subseteq> A"
  shows "total f m = (\<Sum>k\<in>A. weight f m k)"
proof -
  let ?K = "set (map fst (entries m))"
  have dom: "?K = {k. get m k \<noteq> None}"
    using assms(1) by (auto simp: entries_get map_of_eq_None_iff)
  have "total f m = (\<Sum>k\<leftarrow>map fst (entries m). weight f m k)"
    unfolding total_def map_map
    by (rule arg_cong [where f = sum_list], rule map_cong)
      (auto simp: weight_def in_entries_iff [OF assms(1)])
  also have "\<dots> = (\<Sum>k\<in>?K. weight f m k)"
    using distinct_keys [OF assms(1)] by (rule sum_list_distinct_conv_sum_set)
  also have "\<dots> = (\<Sum>k\<in>A. weight f m k)"
    using assms(2,3) dom by (intro sum.mono_neutral_left) (auto simp: weight_def)
  finally show ?thesis .
qed

lemma finite_dom: "ok m \<Longrightarrow> finite {k. get m k \<noteq> None}"
  by (simp add: entries_get map_of_eq_None_iff)

lemma total_put:
  assumes "ok m"
  shows "total f (put k v m) = total f m - weight f m k + f k v"
proof -
  let ?A = "insert k {k. get m k \<noteq> None}"
  have fin: "finite ?A" using finite_dom [OF assms] by simp
  have "total f (put k v m) = (\<Sum>x\<in>?A. weight f (put k v m) x)"
    using assms fin by (intro total_as_sum) (auto simp: ok_put get_put)
  also have "\<dots> = f k v + (\<Sum>x\<in>?A - {k}. weight f (put k v m) x)"
    using fin by (subst sum.remove [of _ k]) (auto simp: weight_def get_put assms)
  also have "(\<Sum>x\<in>?A - {k}. weight f (put k v m) x) = (\<Sum>x\<in>?A - {k}. weight f m x)"
    by (intro sum.cong) (auto simp: weight_def get_put assms)
  also have "\<dots> = (\<Sum>x\<in>?A. weight f m x) - weight f m k"
    using fin by (subst sum.remove [of _ k "weight f m"]) auto
  also have "(\<Sum>x\<in>?A. weight f m x) = total f m"
    using assms fin by (intro total_as_sum [symmetric]) auto
  finally show ?thesis by simp
qed

lemma total_del:
  assumes "ok m"
  shows "total f (del k m) = total f m - weight f m k"
proof -
  let ?A = "insert k {k. get m k \<noteq> None}"
  have fin: "finite ?A" using finite_dom [OF assms] by simp
  have "total f (del k m) = (\<Sum>x\<in>?A. weight f (del k m) x)"
    using assms fin by (intro total_as_sum) (auto simp: ok_del get_del)
  also have "\<dots> = (\<Sum>x\<in>?A - {k}. weight f (del k m) x)"
    using fin by (subst sum.remove [of _ k]) (auto simp: weight_def get_del assms)
  also have "\<dots> = (\<Sum>x\<in>?A - {k}. weight f m x)"
    by (intro sum.cong) (auto simp: weight_def get_del assms)
  also have "\<dots> = (\<Sum>x\<in>?A. weight f m x) - weight f m k"
    using fin by (subst sum.remove [of _ k "weight f m"]) auto
  also have "(\<Sum>x\<in>?A. weight f m x) = total f m"
    using assms fin by (intro total_as_sum [symmetric]) auto
  finally show ?thesis .
qed

end

text \<open>The association lists of the model implement the interface.\<close>

lemma kv_ok_Nil [simp]: "kv_ok []"
  by (simp add: kv_ok_def)

lemma kv_ok_Cons: "kv_ok (p # m) \<longleftrightarrow> (\<forall>q\<in>set m. fst p < fst q) \<and> kv_ok m"
  by (auto simp: kv_ok_def)

lemma kv_set_keys: "fst ` set (kv_set k v m) \<subseteq> insert k (fst ` set m)"
  by (induction m) auto

lemma kv_ok_set [simp]: "kv_ok m \<Longrightarrow> kv_ok (kv_set k v m)"
  by (induction m) (use kv_set_keys in \<open>fastforce simp: kv_ok_Cons\<close>)+

lemma kv_ok_filter [simp]: "kv_ok m \<Longrightarrow> kv_ok (filter P m)"
  by (induction m) (auto simp: kv_ok_Cons)

lemma kv_ok_del [simp]: "kv_ok m \<Longrightarrow> kv_ok (kv_del k m)"
  by (simp add: kv_del_def)

lemma kv_get_above: "\<forall>q\<in>set m. (k::'k::linorder) < fst q \<Longrightarrow> kv_get m k = None"
  by (induction m) auto

lemma kv_get_set [simp, store_simps]:
  "kv_ok m \<Longrightarrow> kv_get (kv_set k v m) k' = (if k' = k then Some v else kv_get m k')"
  by (induction m) (auto simp: kv_ok_Cons kv_get_above)

lemma kv_get_del [simp, store_simps]:
  "kv_get (kv_del k m) k' = (if k' = k then None else kv_get m k')"
  by (induction m) (auto simp: kv_del_def)

interpretation kv: ordered_index kv_get kv_set kv_del "\<lambda>m. m" kv_ok
  by unfold_locales (simp_all add: kv_ok_def [symmetric])

lemma kv_total [simp]: "kv.total f m = kv_sum f m"
  by (simp add: kv.total_def kv_sum_def)

lemmas kv_sum_set [store_simps] = kv.total_put [unfolded kv_total]
lemmas kv_sum_del [store_simps] = kv.total_del [unfolded kv_total]
lemmas kv_mem_iff = kv.in_entries_iff
lemmas kv_distinct = kv.distinct_keys
lemmas kv_weight_def = kv.weight_def

lemma kv_sum_Nil [simp]: "kv_sum f [] = 0"
  by (simp add: kv_sum_def)

lemma kv_sum_Cons: "kv_sum f (p # m) = f (fst p) (snd p) + kv_sum f m"
  by (simp add: kv_sum_def)

lemma kv_sum_nonneg: "(\<And>k v. (k, v) \<in> set m \<Longrightarrow> 0 \<le> f k v) \<Longrightarrow> 0 \<le> kv_sum f m"
  unfolding kv_sum_def by (rule sum_list_nonneg) auto

lemma kv_sum_ge_weight:
  assumes "kv_ok m" and "\<And>k v. kv_get m k = Some v \<Longrightarrow> 0 \<le> f k v"
  shows "kv.weight f m k \<le> kv_sum f m"
proof -
  have "0 \<le> kv_sum f (kv_del k m)"
    using assms by (intro kv_sum_nonneg) (auto simp: kv_mem_iff split: if_splits)
  then show ?thesis using kv_sum_del [OF assms(1)] by simp
qed

lemma kv_sum_cong:
  "(\<And>k v. (k, v) \<in> set m \<Longrightarrow> f k v = g k v) \<Longrightarrow> kv_sum f m = kv_sum g m"
  unfolding kv_sum_def by (rule arg_cong [where f = sum_list], rule map_cong) auto

section \<open>Arithmetic\<close>

lemma ceil_div_bounds:
  fixes n k :: nat
  assumes "0 < k"
  shows "n \<le> k * ((n + (k - 1)) div k)" and "k * ((n + (k - 1)) div k) < n + k"
  using mult_div_mod_eq [of k "n + (k - 1)"] mod_less_divisor [OF assms, of "n + (k - 1)"] assms
  by linarith+

section \<open>Big-endian integers and text\<close>

text \<open>
  \<open>binary.BigEndian.AppendUint32\<close> and \<open>AppendUint64\<close> append the low 4 or 8 bytes of a number, most
  significant first; \<open>be_nat\<close> reads such bytes back. Go's \<open>[]byte(s)\<close> and \<open>string(b)\<close> are
  \<open>chars_bytes\<close> and \<open>bytes_chars\<close>.
\<close>

fun be_bytes :: "nat \<Rightarrow> nat \<Rightarrow> bytes" where
  "be_bytes 0 x = []"
| "be_bytes (Suc n) x = be_bytes n (x div 256) @ [of_nat x]"

definition be_nat :: "bytes \<Rightarrow> nat" where
  "be_nat bs = foldl (\<lambda>acc b. 256 * acc + unat b) 0 bs"

definition chars_bytes :: "string \<Rightarrow> bytes" where
  "chars_bytes s = map (\<lambda>c. of_nat (of_char c)) s"

definition bytes_chars :: "bytes \<Rightarrow> string" where
  "bytes_chars bs = map (\<lambda>b. char_of (unat b)) bs"

lemma length_be_bytes [simp]: "length (be_bytes n x) = n"
  by (induction n arbitrary: x) auto

lemma unat_byte: "unat (of_nat x :: 8 word) = x mod 256"
  by (simp add: unat_of_nat)

lemma be_nat_be_bytes: "be_nat (be_bytes n x) = x mod 256 ^ n"
proof (induction n arbitrary: x)
  case 0
  then show ?case by (simp add: be_nat_def)
next
  case (Suc n)
  have "be_nat (be_bytes (Suc n) x) = 256 * (x div 256 mod 256 ^ n) + x mod 256"
    using Suc.IH [of "x div 256"] by (simp add: be_nat_def unat_byte)
  also have "\<dots> = x mod (256 * 256 ^ n)"
    by (simp add: mod_mult2_eq)
  finally show ?case by simp
qed

lemma be_bytes_inj:
  assumes "be_bytes n x = be_bytes n y" and "x < 256 ^ n" and "y < 256 ^ n"
  shows "x = y"
proof -
  have "x mod 256 ^ n = y mod 256 ^ n" using assms(1) be_nat_be_bytes by metis
  then show ?thesis using assms(2,3) by simp
qed

lemma snoc_less_iff:
  fixes xs ys :: "'a::linorder list"
  shows "length xs = length ys \<Longrightarrow>
    xs @ [a] < ys @ [b] \<longleftrightarrow> xs < ys \<or> xs = ys \<and> a < b"
  by (induction xs ys rule: list_induct2) auto

lemma less_div_mod_iff:
  fixes x y :: nat
  shows "x div 256 < y div 256 \<or> x div 256 = y div 256 \<and> x mod 256 < y mod 256 \<longleftrightarrow> x < y"
proof -
  have "q < q' \<or> q = q' \<and> r < r' \<longleftrightarrow> 256 * q + r < 256 * q' + r'"
    if "r < 256" "r' < 256" for q q' r r' :: nat
    using that by arith
  from this [of "x mod 256" "y mod 256" "x div 256" "y div 256"] show ?thesis by simp
qed

lemma be_bytes_less_iff:
  "x < 256 ^ n \<Longrightarrow> y < 256 ^ n \<Longrightarrow> be_bytes n x < be_bytes n y \<longleftrightarrow> x < y"
proof (induction n arbitrary: x y)
  case 0
  then show ?case by simp
next
  case (Suc n)
  have q: "x div 256 < 256 ^ n" "y div 256 < 256 ^ n"
    using Suc.prems by (simp_all add: less_mult_imp_div_less mult.commute)
  have eq: "be_bytes n (x div 256) = be_bytes n (y div 256) \<longleftrightarrow> x div 256 = y div 256"
    using q by (auto dest: be_bytes_inj)
  have "(of_nat x :: 8 word) < of_nat y \<longleftrightarrow> x mod 256 < y mod 256"
    by (simp add: word_less_nat_alt unat_byte)
  then have "be_bytes (Suc n) x < be_bytes (Suc n) y \<longleftrightarrow>
      x div 256 < y div 256 \<or> x div 256 = y div 256 \<and> x mod 256 < y mod 256"
    using Suc.IH [OF q] eq by (simp add: snoc_less_iff)
  also have "\<dots> \<longleftrightarrow> x < y"
    by (rule less_div_mod_iff)
  finally show ?case .
qed

lemma byte_of_char_less: "(of_nat (of_char c) :: 8 word) < of_nat (of_char d) \<longleftrightarrow> c < d"
proof -
  have "of_char c < (256::nat)" "of_char d < (256::nat)" by simp_all
  then show ?thesis by (simp add: word_less_nat_alt unat_of_nat less_char_def)
qed

lemma byte_of_char_eq: "(of_nat (of_char c) :: 8 word) = of_nat (of_char d) \<longleftrightarrow> c = d"
  by (metis byte_of_char_less linorder_neq_iff)

lemma bytes_chars_bytes [simp]: "bytes_chars (chars_bytes s) = s"
  by (induction s) (simp_all add: bytes_chars_def chars_bytes_def unat_byte)

lemma length_chars_bytes [simp]: "length (chars_bytes s) = length s"
  by (simp add: chars_bytes_def)

lemma chars_bytes_inj [simp]: "chars_bytes s = chars_bytes t \<longleftrightarrow> s = t"
  by (metis bytes_chars_bytes)

lemma chars_bytes_simps [simp]:
  "chars_bytes [] = []"
  "chars_bytes (c # s) = of_nat (of_char c) # chars_bytes s"
  by (simp_all add: chars_bytes_def)

lemma chars_bytes_less [simp]: "chars_bytes s < chars_bytes t \<longleftrightarrow> s < t"
proof (induction s arbitrary: t)
  case Nil
  then show ?case by (cases t) auto
next
  case (Cons c s)
  then show ?case by (cases t) (simp_all add: byte_of_char_less byte_of_char_eq)
qed

section \<open>Reachable states\<close>

inductive reach :: "('s \<Rightarrow> bool) \<Rightarrow> ('s \<Rightarrow> 's \<Rightarrow> bool) \<Rightarrow> 's \<Rightarrow> bool"
  for init :: "'s \<Rightarrow> bool" and step :: "'s \<Rightarrow> 's \<Rightarrow> bool" where
  reach_init: "init s \<Longrightarrow> reach init step s"
| reach_step: "reach init step s \<Longrightarrow> step s t \<Longrightarrow> reach init step t"

text \<open>
  A component that promises an invariant promises it of its initial states and of one step; every
  reachable state then has it.
\<close>

locale step_invariant =
  fixes init :: "'s \<Rightarrow> bool" and step :: "'s \<Rightarrow> 's \<Rightarrow> bool" and inv :: "'s \<Rightarrow> bool"
  assumes init_inv: "init s \<Longrightarrow> inv s"
    and step_inv: "step s t \<Longrightarrow> inv s \<Longrightarrow> inv t"
begin

lemma reach_inv: "reach init step s \<Longrightarrow> inv s"
  by (induction rule: reach.induct) (auto intro: init_inv step_inv)

end

end
