(* ===== verification/FibreKeys.thy ===== *)
theory FibreKeys
  imports Prelude
begin

text \<open>
  The layout of the x/fibre store (\<open>types/keys.go\<close>): the prefixes, the key of every kind of entry,
  and the two parsers of \<open>keeper/keeper.go\<close>. The SDK's sortable time encoding
  (\<open>sdk.FormatTimeBytes\<close>, \<open>sdk.ParseTimeBytes\<close>) and \<open>storetypes.PrefixEndBytes\<close> are parameters.
  The properties justify the typed indexes of the keeper's model: keys are unambiguous, kinds never
  collide, byte order is the order of the typed keys, and the ranges the iterators visit are the
  entries up to a given time and the entries of one signer.
\<close>

section \<open>Keys\<close>

definition ParamsKey :: bytes where
  "ParamsKey = chars_bytes ''params''"

definition EscrowAccountKeyPrefix :: bytes where
  "EscrowAccountKeyPrefix = [0x02]"

definition WithdrawalsBySignerKeyPrefix :: bytes where
  "WithdrawalsBySignerKeyPrefix = [0x03]"

definition WithdrawalsByAvailableKeyPrefix :: bytes where
  "WithdrawalsByAvailableKeyPrefix = [0x04]"

definition ProcessedPaymentsByHashKeyPrefix :: bytes where
  "ProcessedPaymentsByHashKeyPrefix = [0x05]"

definition ProcessedPaymentsByTimeKeyPrefix :: bytes where
  "ProcessedPaymentsByTimeKeyPrefix = [0x06]"

definition PromiseFreshnessFloorKey :: bytes where
  "PromiseFreshnessFloorKey = [0x07]"

definition separator :: bytes where
  "separator = chars_bytes ''/''"

definition EscrowAccountKey :: "string \<Rightarrow> bytes" where
  "EscrowAccountKey signer = EscrowAccountKeyPrefix @ chars_bytes signer"

definition WithdrawalsBySignerPrefix :: "string \<Rightarrow> bytes" where
  "WithdrawalsBySignerPrefix signer = WithdrawalsBySignerKeyPrefix @ chars_bytes signer"

definition WithdrawalsBySignerKey :: "(time \<Rightarrow> bytes) \<Rightarrow> string \<Rightarrow> time \<Rightarrow> bytes" where
  "WithdrawalsBySignerKey FormatTimeBytes signer requestedTimestamp =
     WithdrawalsBySignerPrefix signer @ separator @ FormatTimeBytes requestedTimestamp"

definition WithdrawalsByAvailableKey :: "(time \<Rightarrow> bytes) \<Rightarrow> time \<Rightarrow> time \<Rightarrow> string \<Rightarrow> bytes" where
  "WithdrawalsByAvailableKey FormatTimeBytes availableAt requestedAt signer =
     WithdrawalsByAvailableKeyPrefix @ FormatTimeBytes availableAt @ separator @
     FormatTimeBytes requestedAt @ separator @ chars_bytes signer"

definition WithdrawalsByAvailablePrefix :: "(time \<Rightarrow> bytes) \<Rightarrow> time \<Rightarrow> bytes" where
  "WithdrawalsByAvailablePrefix FormatTimeBytes availableAt =
     WithdrawalsByAvailableKeyPrefix @ FormatTimeBytes availableAt"

definition ProcessedPaymentsByHashKey :: "bytes \<Rightarrow> bytes" where
  "ProcessedPaymentsByHashKey paymentPromiseHash =
     ProcessedPaymentsByHashKeyPrefix @ paymentPromiseHash"

definition ProcessedPaymentsByTimeKey :: "(time \<Rightarrow> bytes) \<Rightarrow> time \<Rightarrow> bytes \<Rightarrow> bytes" where
  "ProcessedPaymentsByTimeKey FormatTimeBytes processedAt paymentPromiseHash =
     ProcessedPaymentsByTimeKeyPrefix @ FormatTimeBytes processedAt @ separator @
     paymentPromiseHash"

definition ProcessedPaymentsByTimePrefix :: "(time \<Rightarrow> bytes) \<Rightarrow> time \<Rightarrow> bytes" where
  "ProcessedPaymentsByTimePrefix FormatTimeBytes processedAt =
     ProcessedPaymentsByTimeKeyPrefix @ FormatTimeBytes processedAt"

section \<open>Parsers\<close>

datatype key_err = KeyTooShort | KeyBadTime | KeyPanic

text \<open>Go's \<open>key[n:]\<close> and \<open>key[:n]\<close> panic past the end of the slice.\<close>

definition slice_from :: "nat \<Rightarrow> bytes \<Rightarrow> key_err + bytes" where
  "slice_from n key = (if length key < n then Inl KeyPanic else Inr (drop n key))"

definition slice_to :: "nat \<Rightarrow> bytes \<Rightarrow> key_err + bytes" where
  "slice_to n key = (if length key < n then Inl KeyPanic else Inr (take n key))"

definition skip_separator :: "bytes \<Rightarrow> bytes" where
  "skip_separator key = (case key of [] \<Rightarrow> [] | b # rest \<Rightarrow> if [b] = separator then rest else key)"

definition ParseWithdrawalsByAvailableKey ::
  "(bytes \<Rightarrow> time option) \<Rightarrow> bytes \<Rightarrow> key_err + time \<times> time \<times> string" where
  "ParseWithdrawalsByAvailableKey ParseTimeBytes key =
     rbind (slice_from (length WithdrawalsByAvailableKeyPrefix) key) (\<lambda>key.
     rbind (require (29 \<le> length key) KeyTooShort) (\<lambda>_.
     rbind (of_opt KeyBadTime (ParseTimeBytes (take 29 key))) (\<lambda>available.
     let key = skip_separator (drop 29 key) in
     rbind (require (29 \<le> length key) KeyTooShort) (\<lambda>_.
     rbind (of_opt KeyBadTime (ParseTimeBytes (take 29 key))) (\<lambda>requested.
     let key = skip_separator (drop 29 key) in
     Inr (available, requested, bytes_chars key))))))"

definition ParseProcessedPaymentsByTimeKey ::
  "(bytes \<Rightarrow> time option) \<Rightarrow> bytes \<Rightarrow> key_err + time \<times> bytes" where
  "ParseProcessedPaymentsByTimeKey ParseTimeBytes key =
     rbind (slice_from (length ProcessedPaymentsByTimeKeyPrefix) key) (\<lambda>key.
     rbind (slice_to 29 key) (\<lambda>timestampBytes.
     rbind (of_opt KeyBadTime (ParseTimeBytes timestampBytes)) (\<lambda>processedAt.
     Inr (processedAt, skip_separator (drop 29 key)))))"

text \<open>The iterators over the two time-ordered indexes visit the keys from \<open>start\<close> up to, but not
  including, \<open>end\<close>; the iterator over a signer's withdrawals visits the keys with a prefix.\<close>

definition in_available_range :: "(time \<Rightarrow> bytes) \<Rightarrow> (bytes \<Rightarrow> bytes) \<Rightarrow> time \<Rightarrow> bytes \<Rightarrow> bool" where
  "in_available_range FormatTimeBytes PrefixEndBytes upToTime key \<longleftrightarrow>
     WithdrawalsByAvailableKeyPrefix \<le> key \<and>
     key < PrefixEndBytes (WithdrawalsByAvailablePrefix FormatTimeBytes upToTime)"

definition in_processed_range :: "(time \<Rightarrow> bytes) \<Rightarrow> (bytes \<Rightarrow> bytes) \<Rightarrow> time \<Rightarrow> bytes \<Rightarrow> bool" where
  "in_processed_range FormatTimeBytes PrefixEndBytes upToTime key \<longleftrightarrow>
     ProcessedPaymentsByTimeKeyPrefix \<le> key \<and>
     key < PrefixEndBytes (ProcessedPaymentsByTimePrefix FormatTimeBytes upToTime)"

definition in_signer_range :: "string \<Rightarrow> bytes \<Rightarrow> bool" where
  "in_signer_range signer key \<longleftrightarrow> prefix (WithdrawalsBySignerPrefix signer) key"

section \<open>What the layout relies on\<close>

text \<open>
  The SDK documents its time encoding as 29 bytes, sortable, and read back by its parser, for the
  representable instants; \<open>PrefixEndBytes\<close> as the first key after every key with a prefix.
\<close>

definition time_format_laws ::
  "(time \<Rightarrow> bool) \<Rightarrow> (time \<Rightarrow> bytes) \<Rightarrow> (bytes \<Rightarrow> time option) \<Rightarrow> bool" where
  "time_format_laws repr FormatTimeBytes ParseTimeBytes \<longleftrightarrow>
     (\<forall>t. repr t \<longrightarrow> length (FormatTimeBytes t) = 29 \<and> ParseTimeBytes (FormatTimeBytes t) = Some t) \<and>
     (\<forall>t u. repr t \<longrightarrow> repr u \<longrightarrow> (FormatTimeBytes t < FormatTimeBytes u \<longleftrightarrow> t < u))"

definition prefix_end_law :: "(bytes \<Rightarrow> bytes) \<Rightarrow> bytes \<Rightarrow> bool" where
  "prefix_end_law PrefixEndBytes p \<longleftrightarrow>
     (\<forall>key. key < PrefixEndBytes p \<longleftrightarrow> key < p \<or> prefix p key)"

text \<open>A concrete encoding: the instant as a 29-byte big-endian number; and the successor of a
  non-empty prefix whose last byte is not 255.\<close>

definition ref_FormatTimeBytes :: "time \<Rightarrow> bytes" where
  "ref_FormatTimeBytes t = be_bytes 29 (nat t)"

definition ref_ParseTimeBytes :: "bytes \<Rightarrow> time option" where
  "ref_ParseTimeBytes bs = Some (int (be_nat bs))"

definition ref_repr :: "time \<Rightarrow> bool" where
  "ref_repr t \<longleftrightarrow> 0 \<le> t \<and> nat t < 256 ^ 29"

definition ref_PrefixEndBytes :: "bytes \<Rightarrow> bytes" where
  "ref_PrefixEndBytes p = butlast p @ [last p + 1]"

lemma time_format_lawsD:
  assumes "time_format_laws repr fmt parse" and "repr t"
  shows "length (fmt t) = 29" and "parse (fmt t) = Some t"
  using assms unfolding time_format_laws_def by blast+

lemma time_format_less:
  "time_format_laws repr fmt parse \<Longrightarrow> repr t \<Longrightarrow> repr u \<Longrightarrow> fmt t < fmt u \<longleftrightarrow> t < u"
  unfolding time_format_laws_def by blast

lemma time_format_eq:
  assumes "time_format_laws repr fmt parse" and "repr t" and "repr u"
  shows "fmt t = fmt u \<longleftrightarrow> t = u"
  using time_format_lawsD(2) [OF assms(1)] assms(2,3) by (metis option.inject)

lemma be_bytes_time:
  assumes "0 \<le> t" "nat t < 256 ^ n" "0 \<le> u" "nat u < 256 ^ n"
  shows "be_bytes n (nat t) < be_bytes n (nat u) \<longleftrightarrow> t < u"
    and "int (be_nat (be_bytes n (nat t))) = t"
  using assms be_bytes_less_iff [OF assms(2,4)] by (auto simp: be_nat_be_bytes)

lemma ref_time_format: "time_format_laws ref_repr ref_FormatTimeBytes ref_ParseTimeBytes"
  unfolding time_format_laws_def ref_ParseTimeBytes_def ref_FormatTimeBytes_def ref_repr_def
  using be_bytes_time [where n = 29] length_be_bytes [of 29] by blast

section \<open>Lemmas\<close>

lemmas key_prefix_defs =
  EscrowAccountKeyPrefix_def WithdrawalsBySignerKeyPrefix_def WithdrawalsByAvailableKeyPrefix_def
  ProcessedPaymentsByHashKeyPrefix_def ProcessedPaymentsByTimeKeyPrefix_def
  PromiseFreshnessFloorKey_def ParamsKey_def separator_def

lemmas key_defs =
  EscrowAccountKey_def WithdrawalsBySignerKey_def WithdrawalsBySignerPrefix_def
  WithdrawalsByAvailableKey_def WithdrawalsByAvailablePrefix_def ProcessedPaymentsByHashKey_def
  ProcessedPaymentsByTimeKey_def ProcessedPaymentsByTimePrefix_def

lemma skip_separator_append [simp]: "skip_separator (separator @ rest) = rest"
  by (simp add: skip_separator_def separator_def)

lemma append_less_iff:
  fixes xs ys :: "'a::linorder list"
  shows "length xs = length ys \<Longrightarrow> xs @ us < ys @ vs \<longleftrightarrow> xs < ys \<or> xs = ys \<and> us < vs"
  by (induction xs ys rule: list_induct2) auto

lemma same_prefix_less_iff:
  fixes xs :: "'a::linorder list"
  shows "xs @ us < xs @ vs \<longleftrightarrow> us < vs"
  by (induction xs) auto

lemma prefix_append_sep:
  assumes "c \<notin> set s"
  shows "prefix s (t @ c # rest) \<longleftrightarrow> prefix s t"
  using assms
proof (induction s arbitrary: t)
  case (Cons a s)
  then show ?case by (cases t) auto
qed simp

lemma prefix_chars_bytes: "prefix (chars_bytes s) (chars_bytes t) \<longleftrightarrow> prefix s t"
proof (induction s arbitrary: t)
  case (Cons c s)
  then show ?case by (cases t) (auto simp: byte_of_char_eq)
qed simp

lemma byte_in_chars_bytes: "of_nat (of_char c) \<in> set (chars_bytes s) \<longleftrightarrow> c \<in> set s"
  by (induction s) (auto simp: byte_of_char_eq)

lemma separator_prefix:
  assumes "CHR ''/'' \<notin> set s"
  shows "prefix (chars_bytes s) (chars_bytes t @ separator @ rest) \<longleftrightarrow> prefix s t"
proof -
  have sep: "of_nat (of_char CHR ''/'') \<notin> set (chars_bytes s)"
    using assms by (simp only: byte_in_chars_bytes not_False_eq_True)
  show ?thesis
    using prefix_append_sep [OF sep, of "chars_bytes t" rest]
    by (simp add: separator_def prefix_chars_bytes)
qed

lemma available_key_less_iff:
  assumes "time_format_laws repr fmt parse" and "repr a" "repr r" "repr a'" "repr r'"
  shows "WithdrawalsByAvailableKey fmt a r s < WithdrawalsByAvailableKey fmt a' r' s' \<longleftrightarrow>
    a < a' \<or> a = a' \<and> (r < r' \<or> r = r' \<and> s < s')"
  using assms time_format_lawsD [OF assms(1)] time_format_less [OF assms(1)]
    time_format_eq [OF assms(1)]
  by (simp add: WithdrawalsByAvailableKey_def same_prefix_less_iff append_less_iff)

lemma byte_less_succ:
  assumes "(c :: 8 word) \<noteq> 255"
  shows "k < c + 1 \<longleftrightarrow> k \<le> c"
proof -
  have "unat c \<noteq> unat (255 :: 8 word)" using assms by (simp only: word_unat_eq_iff [symmetric]) simp
  then have "unat c + 1 < 256" using unsigned_less [of c, where ?'a = nat] by simp
  then have "unat (c + 1) = unat c + 1" by (simp add: unat_word_ariths)
  then show ?thesis by (simp add: word_less_nat_alt word_le_nat_alt less_Suc_eq_le)
qed

lemma snoc_succ_less_iff:
  assumes "(c :: 8 word) \<noteq> 255"
  shows "key < xs @ [c + 1] \<longleftrightarrow> key < xs @ [c] \<or> prefix (xs @ [c]) key"
proof (induction xs arbitrary: key)
  case Nil
  show ?case using byte_less_succ [OF assms] by (cases key) (auto simp: le_less)
next
  case (Cons x xs)
  then show ?case by (cases key) auto
qed

lemma last_be_bytes: "0 < n \<Longrightarrow> last (be_bytes n x) = of_nat x"
  by (cases n) auto

lemma be_bytes_eq_Nil: "be_bytes n x = [] \<longleftrightarrow> n = 0"
  by (cases n) auto

lemma ref_prefix_end: "p \<noteq> [] \<Longrightarrow> last p \<noteq> 255 \<Longrightarrow> prefix_end_law ref_PrefixEndBytes p"
  using snoc_succ_less_iff [of "last p" _ "butlast p"]
  by (simp add: prefix_end_law_def ref_PrefixEndBytes_def)

section \<open>Properties\<close>

text \<open>C16: Both time-index keys are read back exactly: parsing the withdrawal key gives the available
  time, the requested time and the signer it was built from, and parsing the processed-payment key
  gives the time and the hash.\<close>

theorem time_index_keys_roundtrip:
  assumes "time_format_laws repr fmt parse" and "repr a" and "repr r"
  shows "ParseWithdrawalsByAvailableKey parse (WithdrawalsByAvailableKey fmt a r s) = Inr (a, r, s) \<and>
    ParseProcessedPaymentsByTimeKey parse (ProcessedPaymentsByTimeKey fmt a h) = Inr (a, h)"
  using time_format_lawsD [OF assms(1)] assms(2,3)
  by (simp_all add: ParseWithdrawalsByAvailableKey_def ParseProcessedPaymentsByTimeKey_def
      WithdrawalsByAvailableKey_def ProcessedPaymentsByTimeKey_def slice_from_def slice_to_def
      require_def)

theorem time_index_keys_roundtrip_witness:
  "time_format_laws ref_repr ref_FormatTimeBytes ref_ParseTimeBytes \<and> ref_repr 7 \<and> ref_repr 3 \<and>
   ParseWithdrawalsByAvailableKey ref_ParseTimeBytes
     (WithdrawalsByAvailableKey ref_FormatTimeBytes 7 3 ''abc'') = Inr (7, 3, ''abc'') \<and>
   ParseProcessedPaymentsByTimeKey ref_ParseTimeBytes
     (ProcessedPaymentsByTimeKey ref_FormatTimeBytes 7 [1, 2]) = Inr (7, [1, 2])"
proof -
  have r: "ref_repr 7" "ref_repr 3" by (simp_all add: ref_repr_def)
  show ?thesis
    using ref_time_format r time_index_keys_roundtrip [OF ref_time_format r] by blast
qed

section \<open>The entries of the store\<close>

text \<open>Every kind of entry the keeper writes, and the key it writes it under.\<close>

datatype store_entry =
  ParamsEntry | FloorEntry | EscrowEntry string | WithdrawalBySigner string time | WithdrawalByAvailable time time string |
  PaymentByHash bytes | PaymentByTime time bytes

fun entry_key :: "(time \<Rightarrow> bytes) \<Rightarrow> store_entry \<Rightarrow> bytes" where
  "entry_key fmt ParamsEntry = ParamsKey"
| "entry_key fmt FloorEntry = PromiseFreshnessFloorKey"
| "entry_key fmt (EscrowEntry signer) = EscrowAccountKey signer"
| "entry_key fmt (WithdrawalBySigner signer requested) = WithdrawalsBySignerKey fmt signer requested"
| "entry_key fmt (WithdrawalByAvailable available requested signer) = WithdrawalsByAvailableKey fmt available requested signer"
| "entry_key fmt (PaymentByHash hash) = ProcessedPaymentsByHashKey hash"
| "entry_key fmt (PaymentByTime processed hash) = ProcessedPaymentsByTimeKey fmt processed hash"

fun entry_times :: "store_entry \<Rightarrow> time set" where
  "entry_times (WithdrawalBySigner signer requested) = {requested}"
| "entry_times (WithdrawalByAvailable available requested signer) = {available, requested}"
| "entry_times (PaymentByTime processed hash) = {processed}"
| "entry_times _ = {}"

text \<open>The kind of an entry shows in the first byte of its key.\<close>

fun entry_tag :: "store_entry \<Rightarrow> 8 word" where
  "entry_tag ParamsEntry = of_char CHR ''p''"
| "entry_tag FloorEntry = 7"
| "entry_tag (EscrowEntry signer) = 2"
| "entry_tag (WithdrawalBySigner signer requested) = 3"
| "entry_tag (WithdrawalByAvailable available requested signer) = 4"
| "entry_tag (PaymentByHash hash) = 5"
| "entry_tag (PaymentByTime processed hash) = 6"

lemma entry_key_tag: "\<exists>rest. entry_key fmt e = entry_tag e # rest"
  by (cases e) (simp_all add: key_defs key_prefix_defs)

lemma by_signer_key_eq:
  assumes "time_format_laws repr fmt parse" and "repr t" "repr t'"
  shows "WithdrawalsBySignerKey fmt s t = WithdrawalsBySignerKey fmt s' t' \<longleftrightarrow> s = s' \<and> t = t'"
  using time_format_lawsD(1) [OF assms(1)] time_format_eq [OF assms(1)] assms(2,3)
  by (auto simp: key_defs append_eq_append_conv append_assoc [symmetric] simp del: append_assoc)

lemma entry_key_eq:
  assumes laws: "time_format_laws repr fmt parse" and "\<forall>t\<in>entry_times e \<union> entry_times e'. repr t"
    and key: "entry_key fmt e = entry_key fmt e'"
  shows "e = e'"
proof -
  have tag: "entry_tag e = entry_tag e'"
    using entry_key_tag [of fmt e] entry_key_tag [of fmt e'] key by auto
  show ?thesis
  proof (cases e)
    case ParamsEntry
    then show ?thesis using tag by (cases e') simp_all
  next
    case FloorEntry
    then show ?thesis using tag by (cases e') simp_all
  next
    case (EscrowEntry s)
    then obtain s' where "e' = EscrowEntry s'" using tag by (cases e') simp_all
    then show ?thesis using key EscrowEntry by (simp add: EscrowAccountKey_def)
  next
    case (WithdrawalBySigner s t)
    then obtain s' t' where "e' = WithdrawalBySigner s' t'" using tag by (cases e') simp_all
    then show ?thesis using key WithdrawalBySigner by_signer_key_eq [OF laws, of t t'] assms(2) by simp
  next
    case (WithdrawalByAvailable a r s)
    then obtain a' r' s' where "e' = WithdrawalByAvailable a' r' s'" using tag by (cases e') simp_all
    then show ?thesis
      using key WithdrawalByAvailable assms(2) available_key_less_iff [OF laws, of a r a' r' s s']
        available_key_less_iff [OF laws, of a' r' a r s' s] by (simp del: not_less_iff_gr_or_eq) (metis neq_iff)
  next
    case (PaymentByHash h)
    then obtain h' where "e' = PaymentByHash h'" using tag by (cases e') simp_all
    then show ?thesis using key PaymentByHash by (simp add: ProcessedPaymentsByHashKey_def)
  next
    case (PaymentByTime p h)
    then obtain p' h' where "e' = PaymentByTime p' h'" using tag by (cases e') simp_all
    then show ?thesis
      using key PaymentByTime assms(2) time_format_lawsD(1) [OF laws] time_format_eq [OF laws, of p p']
      by (simp add: ProcessedPaymentsByTimeKey_def)
  qed
qed

text \<open>The keys from a one-byte prefix up to the end of a longer prefix of it.\<close>

lemma range_tag:
  assumes "prefix_end_law pend (tag # p)"
  shows "[tag] \<le> b # rest \<and> b # rest < pend (tag # p) \<longleftrightarrow> b = tag \<and> (rest < p \<or> prefix p rest)"
proof -
  have "b # rest < pend (tag # p) \<longleftrightarrow> b # rest < tag # p \<or> prefix (tag # p) (b # rest)"
    using assms unfolding prefix_end_law_def by (rule spec)
  then show ?thesis by auto
qed

text \<open>C14: No two entries of the store share a key. An entry is the parameters, the freshness floor, an escrow account, a
  withdrawal in one of its two indexes or a payment in one of its two indexes; whatever the signers, times and hashes
  of two entries, of the same kind or not, their keys are equal only if the entries are.\<close>

theorem store_keys_unambiguous:
  assumes "time_format_laws repr fmt parse" and "\<forall>t\<in>entry_times e \<union> entry_times e'. repr t"
  shows "entry_key fmt e = entry_key fmt e' \<longleftrightarrow> e = e'"
  using entry_key_eq [OF assms] by blast

theorem store_keys_unambiguous_witness:
  "entry_key ref_FormatTimeBytes (EscrowEntry ''abc'') \<noteq> entry_key ref_FormatTimeBytes (WithdrawalBySigner ''ab'' 4) \<and>
   entry_key ref_FormatTimeBytes (WithdrawalBySigner ''abc'' 4) \<noteq> entry_key ref_FormatTimeBytes (WithdrawalBySigner ''abc'' 6)"
proof -
  have r: "ref_repr 4" "ref_repr 6" by (simp_all add: ref_repr_def)
  show ?thesis
    using store_keys_unambiguous [OF ref_time_format, of "EscrowEntry ''abc''" "WithdrawalBySigner ''ab'' 4"]
      store_keys_unambiguous [OF ref_time_format, of "WithdrawalBySigner ''abc'' 4" "WithdrawalBySigner ''abc'' 6"] r
    by simp
qed

text \<open>C15: The two time iterators are exact on the whole store: among all entries of every kind, the withdrawals-by-available
  iterator ranges over exactly the withdrawals available at or before its bound, and the payments-by-time iterator over
  exactly the payments processed at or before it; and withdrawals come in the order of available time, then requested
  time, then signer.\<close>

theorem available_iterator_exact:
  assumes laws: "time_format_laws repr fmt parse" and "repr t" and "\<forall>u\<in>entry_times e \<union> entry_times e'. repr u"
    and pend: "prefix_end_law pend (WithdrawalsByAvailablePrefix fmt t)" "prefix_end_law pend (ProcessedPaymentsByTimePrefix fmt t)"
  shows "(in_available_range fmt pend t (entry_key fmt e) \<longleftrightarrow> (\<exists>a r s. e = WithdrawalByAvailable a r s \<and> a \<le> t)) \<and>
    (in_processed_range fmt pend t (entry_key fmt e) \<longleftrightarrow> (\<exists>p h. e = PaymentByTime p h \<and> p \<le> t)) \<and>
    (\<forall>a r s a' r' s'. e = WithdrawalByAvailable a r s \<longrightarrow> e' = WithdrawalByAvailable a' r' s' \<longrightarrow>
      (entry_key fmt e < entry_key fmt e' \<longleftrightarrow> a < a' \<or> a = a' \<and> (r < r' \<or> r = r' \<and> s < s')))"
proof (intro conjI allI impI)
  have av: "WithdrawalsByAvailablePrefix fmt t = 4 # fmt t" and pt: "ProcessedPaymentsByTimePrefix fmt t = 6 # fmt t"
    by (simp_all add: key_defs key_prefix_defs)
  have upto: "fmt u @ rest < fmt t \<or> prefix (fmt t) (fmt u @ rest) \<longleftrightarrow> u \<le> t" if "repr u" for u rest
    using append_less_iff [of "fmt u" "fmt t" rest "[]"] time_format_lawsD(1) [OF laws] time_format_less [OF laws]
      time_format_eq [OF laws] that assms(2)
    by (auto simp: prefix_def le_less)
  obtain rest where rest: "entry_key fmt e = entry_tag e # rest" using entry_key_tag by blast
  have "in_available_range fmt pend t (entry_key fmt e) \<longleftrightarrow> entry_tag e = 4 \<and> (rest < fmt t \<or> prefix (fmt t) rest)"
    unfolding in_available_range_def rest av WithdrawalsByAvailableKeyPrefix_def
    by (rule range_tag) (use pend(1) av in simp)
  then show "in_available_range fmt pend t (entry_key fmt e) \<longleftrightarrow> (\<exists>a r s. e = WithdrawalByAvailable a r s \<and> a \<le> t)"
    using rest assms(3) upto by (cases e) (auto simp: WithdrawalsByAvailableKey_def WithdrawalsByAvailableKeyPrefix_def)
  have "in_processed_range fmt pend t (entry_key fmt e) \<longleftrightarrow> entry_tag e = 6 \<and> (rest < fmt t \<or> prefix (fmt t) rest)"
    unfolding in_processed_range_def rest pt ProcessedPaymentsByTimeKeyPrefix_def
    by (rule range_tag) (use pend(2) pt in simp)
  then show "in_processed_range fmt pend t (entry_key fmt e) \<longleftrightarrow> (\<exists>p h. e = PaymentByTime p h \<and> p \<le> t)"
    using rest assms(3) upto by (cases e) (auto simp: ProcessedPaymentsByTimeKey_def ProcessedPaymentsByTimeKeyPrefix_def)
next
  fix a r s a' r' s'
  assume "e = WithdrawalByAvailable a r s" "e' = WithdrawalByAvailable a' r' s'"
  then show "entry_key fmt e < entry_key fmt e' \<longleftrightarrow> a < a' \<or> a = a' \<and> (r < r' \<or> r = r' \<and> s < s')"
    using available_key_less_iff [OF laws] assms(3) by simp
qed

theorem available_iterator_exact_witness:
  "in_available_range ref_FormatTimeBytes ref_PrefixEndBytes 9
     (entry_key ref_FormatTimeBytes (WithdrawalByAvailable 7 3 ''abc'')) \<and>
   \<not> in_available_range ref_FormatTimeBytes ref_PrefixEndBytes 9 (entry_key ref_FormatTimeBytes (WithdrawalBySigner ''abc'' 3)) \<and>
   entry_key ref_FormatTimeBytes (WithdrawalByAvailable 7 3 ''abc'')
     < entry_key ref_FormatTimeBytes (WithdrawalByAvailable 8 1 ''abb'')"
proof -
  have r: "ref_repr 7" "ref_repr 3" "ref_repr 8" "ref_repr 1" "ref_repr 9"
    by (simp_all add: ref_repr_def)
  have "last (ref_FormatTimeBytes 9) = 9" "ref_FormatTimeBytes 9 \<noteq> []"
    by (simp_all add: ref_FormatTimeBytes_def last_be_bytes be_bytes_eq_Nil)
  then have pend: "prefix_end_law ref_PrefixEndBytes (WithdrawalsByAvailablePrefix ref_FormatTimeBytes 9)"
    "prefix_end_law ref_PrefixEndBytes (ProcessedPaymentsByTimePrefix ref_FormatTimeBytes 9)"
    by (intro ref_prefix_end; simp add: key_defs key_prefix_defs)+
  note it = available_iterator_exact [OF ref_time_format r(5) _ pend]
  show ?thesis
    using it [of "WithdrawalByAvailable 7 3 ''abc''" "WithdrawalByAvailable 8 1 ''abb''"]
      it [of "WithdrawalBySigner ''abc'' 3" FloorEntry] r
    by (simp del: entry_key.simps)
qed

text \<open>The iterator over a signer's withdrawals visits the withdrawals of every signer whose
  address text extends the given one, and no others.\<close>

theorem signer_iterator_range:
  assumes "CHR ''/'' \<notin> set s"
  shows "in_signer_range s (WithdrawalsBySignerKey fmt s' t) \<longleftrightarrow> prefix s s'"
  using separator_prefix [OF assms]
  by (simp add: in_signer_range_def key_defs key_prefix_defs)

theorem signer_iterator_range_witness:
  "CHR ''/'' \<notin> set ''ab'' \<and>
   in_signer_range ''ab'' (WithdrawalsBySignerKey ref_FormatTimeBytes ''abc'' 5)"
  using signer_iterator_range [of "''ab''" ref_FormatTimeBytes "''abc''" 5] by simp

end
