(* ===== verification/Sdk.thy ===== *)
theory Sdk
  imports Prelude
begin

text \<open>
  The third-party code the modules call (the Cosmos SDK's coins, bank keeper and bech32 addresses,
  go-square's namespaces, CometBFT's sign bytes, secp256k1 and SHA-256) is not part of the
  repository. It is a parameter of the model: a record of functions every handler takes, and, as
  named predicates, the documented behaviour a property relies on. \<open>ref_sdk\<close> is one concrete record
  that has all of it; witnesses run the model on it.
\<close>

section \<open>Context and coins\<close>

record ctx =
  ChainID :: string
  BlockTime :: time
  BlockHeight :: int64

record coin =
  denom :: string
  amount :: int

datatype account = UserAcct bytes | ModAcct string

text \<open>The bank keeper's state, as far as the modules can see it: a balance per account and denom.\<close>

type_synonym bank = "account \<Rightarrow> string \<Rightarrow> int"

section \<open>The functions of the environment\<close>

text \<open>An operation that panics or returns an error is \<open>None\<close>.\<close>

record sdk =
  coin_Add :: "coin \<Rightarrow> coin \<Rightarrow> coin option"
  coin_Sub :: "coin \<Rightarrow> coin \<Rightarrow> coin option"
  coin_IsLT :: "coin \<Rightarrow> coin \<Rightarrow> bool option"
  coin_IsGTE :: "coin \<Rightarrow> coin \<Rightarrow> bool option"
  coin_IsPositive :: "coin \<Rightarrow> bool"
  coin_IsValid :: "coin \<Rightarrow> bool"
  valid_denom :: "string \<Rightarrow> bool"
  new_coin :: "string \<Rightarrow> int \<Rightarrow> coin option"
  new_coins :: "coin \<Rightarrow> coin list option"
  AccAddressFromBech32 :: "string \<Rightarrow> bytes option"
  AccAddressString :: "bytes \<Rightarrow> string"
  blocked_addr :: "bytes \<Rightarrow> bool"
  SendCoinsFromAccountToModule :: "bank \<Rightarrow> bytes \<Rightarrow> string \<Rightarrow> coin list \<Rightarrow> bank option"
  SendCoinsFromModuleToAccount :: "bank \<Rightarrow> string \<Rightarrow> bytes \<Rightarrow> coin list \<Rightarrow> bank option"
  SendCoinsFromModuleToModule :: "bank \<Rightarrow> string \<Rightarrow> string \<Rightarrow> coin list \<Rightarrow> bank option"
  NewNamespaceFromBytes :: "bytes \<Rightarrow> bytes option"
  ValidateForBlob :: "bytes \<Rightarrow> bool"
  pubkey_Address :: "bytes \<Rightarrow> bytes"
  VerifySignature :: "bytes \<Rightarrow> bytes \<Rightarrow> bytes \<Rightarrow> bool"
  RawBytesMessageSignBytes :: "string \<Rightarrow> string \<Rightarrow> bytes \<Rightarrow> bytes option"
  sha256 :: "bytes \<Rightarrow> bytes"

section \<open>What the modules rely on\<close>

text \<open>
  Coin arithmetic is integer arithmetic on coins of one denomination; mixing denominations panics,
  and so do a negative difference and a sum of more than 256 bits. \<open>NewCoins\<close> drops zero coins.
\<close>

definition coin_laws :: "sdk \<Rightarrow> bool" where
  "coin_laws E \<longleftrightarrow>
     (\<forall>a b. coin_Add E a b =
        (if denom a = denom b \<and> \<bar>amount a + amount b\<bar> < 2 ^ 256
         then Some (a\<lparr>amount := amount a + amount b\<rparr>) else None)) \<and>
     (\<forall>a b. coin_Sub E a b =
        (if denom a = denom b \<and> amount b \<le> amount a
         then Some (a\<lparr>amount := amount a - amount b\<rparr>) else None)) \<and>
     (\<forall>a b. coin_IsLT E a b = (if denom a = denom b then Some (amount a < amount b) else None)) \<and>
     (\<forall>a b. coin_IsGTE E a b = (if denom a = denom b then Some (amount b \<le> amount a) else None)) \<and>
     (\<forall>a. coin_IsPositive E a \<longleftrightarrow> 0 < amount a) \<and>
     (\<forall>a. coin_IsValid E a \<longleftrightarrow> valid_denom E (denom a) \<and> 0 \<le> amount a) \<and>
     (\<forall>d n. new_coin E d n =
        (if valid_denom E d \<and> 0 \<le> n then Some \<lparr>denom = d, amount = n\<rparr> else None)) \<and>
     (\<forall>a. new_coins E a =
        (if valid_denom E (denom a) \<and> 0 \<le> amount a
         then Some (if amount a = 0 then [] else [a]) else None)) \<and>
     valid_denom E ''utia''"

definition coins_of :: "coin list \<Rightarrow> string \<Rightarrow> int" where
  "coins_of cs d = (\<Sum>c\<leftarrow>filter (\<lambda>c. denom c = d) cs. amount c)"

definition covers :: "bank \<Rightarrow> account \<Rightarrow> coin list \<Rightarrow> bool" where
  "covers b a cs \<longleftrightarrow> (\<forall>c\<in>set cs. coins_of cs (denom c) \<le> b a (denom c))"

definition move_coins :: "account \<Rightarrow> account \<Rightarrow> coin list \<Rightarrow> bank \<Rightarrow> bank" where
  "move_coins x y cs b = (\<lambda>a d.
     b a d - (if a = x then coins_of cs d else 0) + (if a = y then coins_of cs d else 0))"

text \<open>
  A transfer moves exactly the coins it names, and needs the sender to own them. Module accounts
  have no locked coins, so their transfers succeed whenever the balance covers them and the
  recipient is not one of the bank's blocked addresses.
\<close>

definition bank_laws :: "sdk \<Rightarrow> bool" where
  "bank_laws E \<longleftrightarrow>
     (\<forall>b a m cs b'. SendCoinsFromAccountToModule E b a m cs = Some b' \<longrightarrow>
        covers b (UserAcct a) cs \<and> b' = move_coins (UserAcct a) (ModAcct m) cs b) \<and>
     (\<forall>b m a cs. SendCoinsFromModuleToAccount E b m a cs =
        (if covers b (ModAcct m) cs \<and> \<not> blocked_addr E a
         then Some (move_coins (ModAcct m) (UserAcct a) cs b) else None)) \<and>
     (\<forall>b m n cs. SendCoinsFromModuleToModule E b m n cs =
        (if covers b (ModAcct m) cs then Some (move_coins (ModAcct m) (ModAcct n) cs b) else None))"

text \<open>
  The bech32 texts of account addresses are prefix-free. The iterator over the withdrawals of a signer relies on it:
  its prefix ends with the signer's text and no separator. It holds when every account address has the same number of
  bytes, as the addresses of key-controlled accounts have, since the texts then have equal lengths.
\<close>

definition addr_laws :: "sdk \<Rightarrow> bool" where
  "addr_laws E \<longleftrightarrow>
     (\<forall>s t. AccAddressFromBech32 E s \<noteq> None \<longrightarrow> AccAddressFromBech32 E t \<noteq> None \<longrightarrow>
        prefix s t \<longrightarrow> s = t)"

definition sdk_laws :: "sdk \<Rightarrow> bool" where
  "sdk_laws E \<longleftrightarrow> coin_laws E \<and> bank_laws E \<and> addr_laws E"

lemma coin_laws_simps [simp]:
  assumes "coin_laws E"
  shows "coin_Add E a b =
      (if denom a = denom b \<and> \<bar>amount a + amount b\<bar> < 2 ^ 256
       then Some (a\<lparr>amount := amount a + amount b\<rparr>) else None)"
    and "coin_Sub E a b =
      (if denom a = denom b \<and> amount b \<le> amount a
       then Some (a\<lparr>amount := amount a - amount b\<rparr>) else None)"
    and "coin_IsLT E a b = (if denom a = denom b then Some (amount a < amount b) else None)"
    and "coin_IsGTE E a b = (if denom a = denom b then Some (amount b \<le> amount a) else None)"
    and "coin_IsPositive E a \<longleftrightarrow> 0 < amount a"
    and "coin_IsValid E a \<longleftrightarrow> valid_denom E (denom a) \<and> 0 \<le> amount a"
    and "new_coin E d n =
      (if valid_denom E d \<and> 0 \<le> n then Some \<lparr>denom = d, amount = n\<rparr> else None)"
    and "new_coins E a =
      (if valid_denom E (denom a) \<and> 0 \<le> amount a
       then Some (if amount a = 0 then [] else [a]) else None)"
    and "valid_denom E ''utia''"
  using assms unfolding coin_laws_def by blast+

lemma send_acc_modD:
  assumes "bank_laws E" and "SendCoinsFromAccountToModule E b a m cs = Some b'"
  shows "covers b (UserAcct a) cs" and "b' = move_coins (UserAcct a) (ModAcct m) cs b"
  using assms unfolding bank_laws_def by blast+

lemma bank_laws_simps [simp]:
  assumes "bank_laws E"
  shows "SendCoinsFromModuleToAccount E b m a cs =
      (if covers b (ModAcct m) cs \<and> \<not> blocked_addr E a
       then Some (move_coins (ModAcct m) (UserAcct a) cs b) else None)"
    and "SendCoinsFromModuleToModule E b m n cs =
      (if covers b (ModAcct m) cs then Some (move_coins (ModAcct m) (ModAcct n) cs b) else None)"
  using assms unfolding bank_laws_def by blast+

lemma sdk_lawsD [simp]:
  assumes "sdk_laws E"
  shows "coin_laws E" "bank_laws E" "addr_laws E"
  using assms by (simp_all add: sdk_laws_def)

lemma addr_prefix_free:
  assumes "addr_laws E" and "AccAddressFromBech32 E s = Some a"
    and "AccAddressFromBech32 E t = Some b" and "prefix s t"
  shows "s = t"
  using assms unfolding addr_laws_def by blast

lemma coins_of_single [simp]:
  "coins_of [c] d = (if denom c = d then amount c else 0)"
  "coins_of [] d = 0"
  by (simp_all add: coins_of_def)

lemma covers_single [simp]:
  "covers b a [c] \<longleftrightarrow> amount c \<le> b a (denom c)"
  "covers b a []"
  by (simp_all add: covers_def)

lemma move_coins_apply:
  "move_coins x y cs b a d =
     b a d - (if a = x then coins_of cs d else 0) + (if a = y then coins_of cs d else 0)"
  by (simp add: move_coins_def)

section \<open>A concrete environment\<close>

text \<open>
  Addresses are three-character texts, a namespace is any 29-byte string, a signature is valid when
  it is the 64-byte padding of its message's first byte, and the hash keeps 32 bytes.
\<close>

definition ref_pad :: "nat \<Rightarrow> bytes \<Rightarrow> bytes" where
  "ref_pad n bs = take n (bs @ replicate n 0)"

definition ref_sdk :: sdk where
  "ref_sdk = \<lparr>
     coin_Add = (\<lambda>a b. if denom a = denom b \<and> \<bar>amount a + amount b\<bar> < 2 ^ 256
                       then Some (a\<lparr>amount := amount a + amount b\<rparr>) else None),
     coin_Sub = (\<lambda>a b. if denom a = denom b \<and> amount b \<le> amount a
                       then Some (a\<lparr>amount := amount a - amount b\<rparr>) else None),
     coin_IsLT = (\<lambda>a b. if denom a = denom b then Some (amount a < amount b) else None),
     coin_IsGTE = (\<lambda>a b. if denom a = denom b then Some (amount b \<le> amount a) else None),
     coin_IsPositive = (\<lambda>a. 0 < amount a),
     coin_IsValid = (\<lambda>a. denom a \<noteq> '''' \<and> 0 \<le> amount a),
     valid_denom = (\<lambda>d. d \<noteq> ''''),
     new_coin = (\<lambda>d n. if d \<noteq> '''' \<and> 0 \<le> n then Some \<lparr>denom = d, amount = n\<rparr> else None),
     new_coins = (\<lambda>a. if denom a \<noteq> '''' \<and> 0 \<le> amount a
                       then Some (if amount a = 0 then [] else [a]) else None),
     AccAddressFromBech32 = (\<lambda>s. if length s = 3 then Some (chars_bytes s) else None),
     AccAddressString = (\<lambda>bs. map (\<lambda>b. char_of (unat b)) (ref_pad 3 bs)),
     blocked_addr = (\<lambda>_. False),
     SendCoinsFromAccountToModule = (\<lambda>b a m cs.
       if covers b (UserAcct a) cs then Some (move_coins (UserAcct a) (ModAcct m) cs b) else None),
     SendCoinsFromModuleToAccount = (\<lambda>b m a cs.
       if covers b (ModAcct m) cs then Some (move_coins (ModAcct m) (UserAcct a) cs b) else None),
     SendCoinsFromModuleToModule = (\<lambda>b m n cs.
       if covers b (ModAcct m) cs then Some (move_coins (ModAcct m) (ModAcct n) cs b) else None),
     NewNamespaceFromBytes = (\<lambda>bs. if length bs = 29 then Some bs else None),
     ValidateForBlob = (\<lambda>_. True),
     pubkey_Address = (\<lambda>pk. take 3 pk),
     VerifySignature = (\<lambda>pk msg sg. sg = ref_pad 64 (take 1 msg)),
     RawBytesMessageSignBytes = (\<lambda>chain uid bs. Some (chars_bytes chain @ chars_bytes uid @ bs)),
     sha256 = ref_pad 32
   \<rparr>"

lemma length_ref_pad [simp]: "length (ref_pad n bs) = n"
  by (simp add: ref_pad_def)

lemma ref_sdk_coin: "coin_laws ref_sdk"
  by (simp add: coin_laws_def ref_sdk_def)

lemma ref_sdk_bank: "bank_laws ref_sdk"
  by (simp add: bank_laws_def ref_sdk_def)

lemma ref_sdk_addr: "addr_laws ref_sdk"
proof -
  have "prefix s t \<Longrightarrow> length s = length t \<Longrightarrow> s = t" for s t :: string
    by (auto simp: prefix_def)
  then show ?thesis by (auto simp: addr_laws_def ref_sdk_def)
qed

lemma ref_sdk_laws [simp]: "sdk_laws ref_sdk"
  by (simp add: sdk_laws_def ref_sdk_coin ref_sdk_bank ref_sdk_addr)

end
