(* ===== verification/FibreParams.thy ===== *)
theory FibreParams
  imports Sdk
begin

text \<open>
  The parameters of x/fibre (\<open>types/params.go\<close>): the stored record, its bounds, the validation
  governance and genesis go through, and the derived retention window; and the gas formula of
  \<open>types/gas.go\<close>, which is also the price of a settled blob.
\<close>

section \<open>Parameters\<close>

record params =
  WithdrawalDelay :: duration
  PaymentPromiseTimeout :: duration
  PaymentPromiseHeightWindow :: uint64
  ShardRetention :: duration
  FullStakeStorageBudget :: uint64

definition MaxPromiseClockSkew :: duration where
  "MaxPromiseClockSkew = 10 * minute"

definition MinTimeoutSettlementWindow :: duration where
  "MinTimeoutSettlementWindow = 10 * minute"

definition MinPaymentPromiseTimeout :: duration where
  "MinPaymentPromiseTimeout = 10 * minute"

definition MaxPaymentPromiseTimeout :: duration where
  "MaxPaymentPromiseTimeout = 12 * hour"

definition MinWithdrawalDelay :: duration where
  "MinWithdrawalDelay = MaxPaymentPromiseTimeout + MinTimeoutSettlementWindow"

definition MaxWithdrawalDelay :: duration where
  "MaxWithdrawalDelay = 7 * 24 * hour"

definition MinShardRetention :: duration where
  "MinShardRetention = 10 * minute"

definition MaxShardRetention :: duration where
  "MaxShardRetention = 7 * 24 * hour"

definition NewParams :: "duration \<Rightarrow> duration \<Rightarrow> uint64 \<Rightarrow> duration \<Rightarrow> uint64 \<Rightarrow> params" where
  "NewParams wd pt hw sr sb =
     \<lparr>WithdrawalDelay = wd, PaymentPromiseTimeout = pt, PaymentPromiseHeightWindow = hw,
      ShardRetention = sr, FullStakeStorageBudget = sb\<rparr>"

definition DefaultParams :: params where
  "DefaultParams = NewParams (24 * hour) (1 * hour) 1000 (4 * hour) (push_bit 40 2)"

definition PaymentPromiseRetentionWindow :: "params \<Rightarrow> duration" where
  "PaymentPromiseRetentionWindow p = WithdrawalDelay p + MaxPromiseClockSkew"

text \<open>
  A parameter validator takes an \<open>any\<close>: a pointer to a duration (which may be nil) or a uint64 by
  value; its first guard is the type assertion.
\<close>

datatype any = AnyDurationPtr "duration option" | AnyUint64 uint64

datatype param_err = ErrParamType | ErrParamNil | ErrParamLow | ErrParamHigh | ErrParamZero

fun validate_duration :: "duration \<Rightarrow> duration \<Rightarrow> any \<Rightarrow> param_err + unit" where
  "validate_duration lo hi (AnyUint64 _) = Inl ErrParamType"
| "validate_duration lo hi (AnyDurationPtr None) = Inl ErrParamNil"
| "validate_duration lo hi (AnyDurationPtr (Some d)) =
     (if d < lo then Inl ErrParamLow else if hi < d then Inl ErrParamHigh else Inr ())"

definition validateWithdrawalDelay :: "any \<Rightarrow> param_err + unit" where
  "validateWithdrawalDelay = validate_duration MinWithdrawalDelay MaxWithdrawalDelay"

definition validatePaymentPromiseTimeout :: "any \<Rightarrow> param_err + unit" where
  "validatePaymentPromiseTimeout = validate_duration MinPaymentPromiseTimeout MaxPaymentPromiseTimeout"

definition validateShardRetention :: "any \<Rightarrow> param_err + unit" where
  "validateShardRetention = validate_duration MinShardRetention MaxShardRetention"

fun validatePaymentPromiseHeightWindow :: "any \<Rightarrow> param_err + unit" where
  "validatePaymentPromiseHeightWindow (AnyDurationPtr _) = Inl ErrParamType"
| "validatePaymentPromiseHeightWindow (AnyUint64 w) = (if w = 0 then Inl ErrParamZero else Inr ())"

fun validateFullStakeStorageBudget :: "any \<Rightarrow> param_err + unit" where
  "validateFullStakeStorageBudget (AnyDurationPtr _) = Inl ErrParamType"
| "validateFullStakeStorageBudget (AnyUint64 w) = (if w = 0 then Inl ErrParamZero else Inr ())"

definition Params_Validate :: "params \<Rightarrow> param_err + unit" where
  "Params_Validate p =
     rbind (validateWithdrawalDelay (AnyDurationPtr (Some (WithdrawalDelay p)))) (\<lambda>_.
     rbind (validatePaymentPromiseTimeout (AnyDurationPtr (Some (PaymentPromiseTimeout p)))) (\<lambda>_.
     rbind (validatePaymentPromiseHeightWindow (AnyUint64 (PaymentPromiseHeightWindow p))) (\<lambda>_.
     rbind (validateShardRetention (AnyDurationPtr (Some (ShardRetention p)))) (\<lambda>_.
     validateFullStakeStorageBudget (AnyUint64 (FullStakeStorageBudget p))))))"

section \<open>Gas\<close>

definition PFBFibreGasFixedCost :: uint64 where
  "PFBFibreGasFixedCost = 650000"

definition PFBFibreGasPerChunk :: uint64 where
  "PFBFibreGasPerChunk = 45000"

definition PFBFibreChunkSize :: uint32 where
  "PFBFibreChunkSize = 262144"

definition PFFibreTxGasFixedCost :: uint64 where
  "PFFibreTxGasFixedCost = 1378"

definition PFFibreGasPerValidatorSignature :: uint64 where
  "PFFibreGasPerValidatorSignature = 1000"

definition EstimateGasForPayForFibre :: "uint32 \<Rightarrow> uint64" where
  "EstimateGasForPayForFibre blobSize =
     (if blobSize = 0 then PFBFibreGasFixedCost
      else let chunks = (ucast blobSize + ucast PFBFibreChunkSize - 1) div ucast PFBFibreChunkSize
           in PFBFibreGasFixedCost + PFBFibreGasPerChunk * chunks)"

definition EstimateGasForPayForFibreSignatureVerification :: "uint64 \<Rightarrow> uint64" where
  "EstimateGasForPayForFibreSignatureVerification n =
     PFFibreTxGasFixedCost + n * PFFibreGasPerValidatorSignature"

definition BondDenom :: string where
  "BondDenom = ''utia''"

definition PaymentAmount :: "sdk \<Rightarrow> uint32 \<Rightarrow> coin option" where
  "PaymentAmount E blobSize = new_coin E BondDenom (uint (EstimateGasForPayForFibre blobSize))"

section \<open>Lemmas\<close>

lemmas duration_bounds =
  MaxPromiseClockSkew_def MinTimeoutSettlementWindow_def MinPaymentPromiseTimeout_def
  MaxPaymentPromiseTimeout_def MinWithdrawalDelay_def MaxWithdrawalDelay_def
  MinShardRetention_def MaxShardRetention_def

lemmas validator_defs =
  validateWithdrawalDelay_def validatePaymentPromiseTimeout_def validateShardRetention_def

lemma Params_Validate_iff:
  "Params_Validate p = Inr u \<longleftrightarrow>
     MinWithdrawalDelay \<le> WithdrawalDelay p \<and> WithdrawalDelay p \<le> MaxWithdrawalDelay \<and>
     MinPaymentPromiseTimeout \<le> PaymentPromiseTimeout p \<and>
     PaymentPromiseTimeout p \<le> MaxPaymentPromiseTimeout \<and>
     MinShardRetention \<le> ShardRetention p \<and> ShardRetention p \<le> MaxShardRetention \<and>
     PaymentPromiseHeightWindow p \<noteq> 0 \<and> FullStakeStorageBudget p \<noteq> 0"
  by (auto simp: Params_Validate_def validator_defs)

lemma DefaultParams_valid: "Params_Validate DefaultParams = Inr ()"
  by (simp add: Params_Validate_iff DefaultParams_def NewParams_def duration_bounds)

lemma Params_Validate_delay_nonneg:
  "Params_Validate p = Inr () \<Longrightarrow> 0 \<le> WithdrawalDelay p \<and> 0 \<le> PaymentPromiseTimeout p"
  by (simp add: Params_Validate_iff duration_bounds)

lemma chunks_unat:
  assumes "blobSize \<noteq> (0 :: uint32)"
  shows "unat ((ucast blobSize + ucast PFBFibreChunkSize - 1 :: uint64) div ucast PFBFibreChunkSize)
    = (unat blobSize + 262143) div 262144"
proof -
  have pos: "0 < unat blobSize" using assms by (simp add: unat_gt_0)
  have lt: "unat blobSize < 2 ^ 32" using unsigned_less [of blobSize] by simp
  have u: "unat (ucast blobSize :: uint64) = unat blobSize"
    by transfer (simp add: take_bit_nat_eq_self)
  have sum: "ucast blobSize + ucast PFBFibreChunkSize - 1 = (ucast blobSize + 262143 :: uint64)"
    by (simp add: PFBFibreChunkSize_def)
  have chunk: "unat (ucast PFBFibreChunkSize :: uint64) = 262144"
    by (simp add: PFBFibreChunkSize_def)
  have "unat (ucast blobSize + 262143 :: uint64) = unat blobSize + 262143"
    using lt by (simp add: unat_word_ariths u)
  then show ?thesis
    by (simp only: sum unat_div chunk)
qed

lemma EstimateGas_unat:
  "unat (EstimateGasForPayForFibre b) =
     650000 + 45000 * (if b = 0 then 0 else (unat b + 262143) div 262144)"
proof (cases "b = 0")
  case True
  then show ?thesis by (simp add: EstimateGasForPayForFibre_def PFBFibreGasFixedCost_def)
next
  case False
  let ?c = "(ucast b + ucast PFBFibreChunkSize - 1 :: uint64) div ucast PFBFibreChunkSize"
  have c: "unat ?c = (unat b + 262143) div 262144" by (rule chunks_unat [OF False])
  have "unat b < 2 ^ 32" using unsigned_less [of b] by simp
  then have "(unat b + 262143) div 262144 \<le> 16384" by simp
  then have small: "650000 + 45000 * unat ?c < 2 ^ 64" using c by simp
  have "unat (650000 + 45000 * ?c :: uint64) = 650000 + 45000 * unat ?c"
    using small by (simp add: unat_word_ariths)
  with False c show ?thesis
    by (simp add: EstimateGasForPayForFibre_def PFBFibreGasFixedCost_def PFBFibreGasPerChunk_def
        Let_def)
qed

lemma EstimateGas_pos: "650000 \<le> uint (EstimateGasForPayForFibre b)"
proof -
  have "650000 \<le> unat (EstimateGasForPayForFibre b)" by (simp add: EstimateGas_unat)
  then show ?thesis by (metis of_nat_le_iff of_nat_numeral of_nat_unat)
qed

lemma PaymentAmount_eq:
  "coin_laws E \<Longrightarrow>
   PaymentAmount E b = Some \<lparr>denom = BondDenom, amount = uint (EstimateGasForPayForFibre b)\<rparr>"
  using EstimateGas_pos [of b] by (simp add: PaymentAmount_def BondDenom_def)

section \<open>Properties\<close>

text \<open>C18: The gas of a blob, computed in 64-bit arithmetic, never wraps: it is the fixed cost plus the
  per-chunk cost of the least number of 256 KiB chunks that hold the blob.\<close>

theorem gas_is_chunk_price:
  "\<exists>n. unat (EstimateGasForPayForFibre b) = 650000 + 45000 * n \<and>
       unat b \<le> 262144 * n \<and> 262144 * n < unat b + 262144"
proof (cases "b = 0")
  case True
  then show ?thesis by (intro exI [of _ 0]) (simp add: EstimateGas_unat)
next
  case False
  then show ?thesis
    using ceil_div_bounds [of 262144 "unat b"]
    by (intro exI [of _ "(unat b + 262143) div 262144"]) (simp add: EstimateGas_unat)
qed

text \<open>C19: Every parameter set that passes validation leaves the timeout path open for at least the
  minimum settlement window (a promise expires at least that long before it goes stale), keeps a
  processed record at least as long as a promise can settle, and keeps the retention window within
  the range of a Go duration.\<close>

theorem valid_params_settlement_window:
  assumes "Params_Validate p = Inr ()"
  shows "PaymentPromiseTimeout p + MinTimeoutSettlementWindow \<le> WithdrawalDelay p \<and>
    WithdrawalDelay p < PaymentPromiseRetentionWindow p \<and>
    PaymentPromiseRetentionWindow p < 2 ^ 63"
  using assms
  by (auto simp: Params_Validate_iff PaymentPromiseRetentionWindow_def duration_bounds)

theorem valid_params_settlement_window_witness:
  "Params_Validate DefaultParams = Inr () \<and>
   PaymentPromiseTimeout DefaultParams + MinTimeoutSettlementWindow \<le> WithdrawalDelay DefaultParams \<and>
   WithdrawalDelay DefaultParams < PaymentPromiseRetentionWindow DefaultParams"
  using DefaultParams_valid valid_params_settlement_window [OF DefaultParams_valid] by simp

end
