(* ===== verification/PaymentPromise.thy ===== *)
theory PaymentPromise
  imports Sdk
begin

text \<open>
  Payment promises (\<open>fibre/payment_promise.go\<close>): the protobuf message and the internal form, the
  conversions between them, stateless validation, the canonical sign bytes and the hash that
  identifies a promise on chain; and the two keeper helpers that wrap them. Promises are immutable
  once signed, so the cached sign bytes and hash are the functions themselves.
\<close>

section \<open>Data\<close>

text \<open>The protobuf message \<open>types.PaymentPromise\<close>.\<close>

record promise_pb =
  pb_ChainId :: string
  pb_Height :: int64
  pb_Namespace :: bytes
  pb_BlobSize :: uint32
  pb_BlobVersion :: uint32
  pb_Commitment :: bytes
  pb_CreationTimestamp :: time
  pb_SignerPublicKey :: bytes
  pb_Signature :: bytes

text \<open>The internal form. The signer key is a pointer.\<close>

record payment_promise =
  SignerKey :: "bytes option"
  ChainIDOf :: string
  Namespace :: bytes
  UploadSize :: uint32
  BlobVersion :: uint32
  Commitment :: bytes
  CreationTimestamp :: time
  Signature :: bytes
  Height :: uint64

datatype promise_err =
    ErrNilProto | ErrNamespace | ErrCommitmentSize | ErrNilSignerKey | ErrSignerKeySize
  | ErrEmptyChainID | ErrChainIDSize | ErrUploadSize | ErrZeroTimestamp | ErrSignatureSize
  | ErrHeight | ErrSignBytes | ErrBadSignature | ErrNoSignature | ErrSigning

section \<open>Conversions\<close>

definition CommitmentSize :: nat where
  "CommitmentSize = 32"

definition FromProto :: "sdk \<Rightarrow> promise_pb option \<Rightarrow> promise_err + payment_promise" where
  "FromProto E m =
     (case m of None \<Rightarrow> Inl ErrNilProto | Some pb \<Rightarrow>
        rbind (of_opt ErrNamespace (NewNamespaceFromBytes E (pb_Namespace pb))) (\<lambda>ns.
        rbind (require (length (pb_Commitment pb) = CommitmentSize) ErrCommitmentSize) (\<lambda>_.
        Inr \<lparr>SignerKey = Some (pb_SignerPublicKey pb), ChainIDOf = pb_ChainId pb, Namespace = ns,
             UploadSize = pb_BlobSize pb, BlobVersion = pb_BlobVersion pb,
             Commitment = pb_Commitment pb, CreationTimestamp = pb_CreationTimestamp pb,
             Signature = pb_Signature pb, Height = pb_Height pb\<rparr>)))"

definition ToProto :: "payment_promise \<Rightarrow> promise_err + promise_pb" where
  "ToProto p =
     (case SignerKey p of None \<Rightarrow> Inl ErrNilSignerKey | Some key \<Rightarrow>
        Inr \<lparr>pb_ChainId = ChainIDOf p, pb_Height = Height p, pb_Namespace = Namespace p,
             pb_BlobSize = UploadSize p, pb_BlobVersion = BlobVersion p,
             pb_Commitment = Commitment p, pb_CreationTimestamp = CreationTimestamp p,
             pb_SignerPublicKey = key, pb_Signature = Signature p\<rparr>)"

section \<open>Sign bytes and hash\<close>

text \<open>
  \<open>time.Time.MarshalBinary\<close> of an instant in UTC: a version byte, the seconds since year 1 (8 bytes),
  the nanoseconds (4 bytes) and the zone offset -1 (2 bytes).
\<close>

definition time_MarshalBinary :: "time \<Rightarrow> bytes" where
  "time_MarshalBinary t =
     [1] @ be_bytes 8 (unat (word_of_int (t div 1000000000) :: int64)) @
     be_bytes 4 (nat (t mod 1000000000)) @ [255, 255]"

definition PubKeySize :: nat where "PubKeySize = 33"
definition NamespaceSize :: nat where "NamespaceSize = 29"
definition maxChainIDSize :: nat where "maxChainIDSize = 20"

definition signBytesPrefix :: string where
  "signBytesPrefix = ''fibre/pp:v0''"

definition signBytesFixedSize :: nat where
  "signBytesFixedSize = PubKeySize + NamespaceSize + 4 + 32 + 4 + 8 + 15"

definition strippedSignBytes :: "payment_promise \<Rightarrow> promise_err + bytes" where
  "strippedSignBytes p =
     (case SignerKey p of None \<Rightarrow> Inl ErrNilSignerKey | Some key \<Rightarrow>
        Inr (key @ Namespace p @ be_bytes 4 (unat (UploadSize p)) @ Commitment p @
             be_bytes 4 (unat (BlobVersion p)) @ be_bytes 8 (unat (Height p)) @
             time_MarshalBinary (CreationTimestamp p)))"

definition SignBytes :: "sdk \<Rightarrow> payment_promise \<Rightarrow> promise_err + bytes" where
  "SignBytes E p =
     rbind (strippedSignBytes p) (\<lambda>stripped.
     of_opt ErrSignBytes (RawBytesMessageSignBytes E (ChainIDOf p) signBytesPrefix stripped))"

definition Hash :: "sdk \<Rightarrow> payment_promise \<Rightarrow> promise_err + bytes" where
  "Hash E p =
     rbind (require (Signature p \<noteq> []) ErrNoSignature) (\<lambda>_.
     rbind (SignBytes E p) (\<lambda>signBytes.
     Inr (sha256 E (signBytes @ Signature p))))"

text \<open>A validator signs the same payload through its private validator, a parameter here.\<close>

definition SignPaymentPromiseValidator ::
  "(string \<Rightarrow> string \<Rightarrow> bytes \<Rightarrow> bytes option) \<Rightarrow> payment_promise \<Rightarrow> promise_err + bytes" where
  "SignPaymentPromiseValidator SignRawBytes p =
     rbind (strippedSignBytes p) (\<lambda>stripped.
     rbind (of_opt ErrSigning (SignRawBytes (ChainIDOf p) signBytesPrefix stripped)) (\<lambda>signature.
     rbind (require (length signature = 64) ErrSignatureSize) (\<lambda>_.
     Inr signature)))"

section \<open>Validation\<close>

definition Validate :: "sdk \<Rightarrow> payment_promise \<Rightarrow> promise_err + unit" where
  "Validate E p =
     (case SignerKey p of None \<Rightarrow> Inl ErrSignerKeySize | Some key \<Rightarrow>
        rbind (require (length key = PubKeySize) ErrSignerKeySize) (\<lambda>_.
        rbind (require (ChainIDOf p \<noteq> '''') ErrEmptyChainID) (\<lambda>_.
        rbind (require (length (ChainIDOf p) \<le> maxChainIDSize) ErrChainIDSize) (\<lambda>_.
        rbind (require (UploadSize p \<noteq> 0) ErrUploadSize) (\<lambda>_.
        rbind (require (CreationTimestamp p \<noteq> zero_time) ErrZeroTimestamp) (\<lambda>_.
        rbind (require (length (Signature p) = 64) ErrSignatureSize) (\<lambda>_.
        rbind (require (Height p \<noteq> 0) ErrHeight) (\<lambda>_.
        rbind (SignBytes E p) (\<lambda>signBytes.
        require (VerifySignature E key signBytes (Signature p)) ErrBadSignature)))))))))"

text \<open>The keeper's wrappers (\<open>keeper/keeper.go\<close>).\<close>

definition promiseHash :: "sdk \<Rightarrow> promise_pb \<Rightarrow> promise_err + bytes" where
  "promiseHash E pb = rbind (FromProto E (Some pb)) (\<lambda>pp. Hash E pp)"

definition ValidatePaymentPromiseStateless :: "sdk \<Rightarrow> promise_pb \<Rightarrow> promise_err + unit" where
  "ValidatePaymentPromiseStateless E pb = rbind (FromProto E (Some pb)) (\<lambda>pp. Validate E pp)"

section \<open>Lemmas\<close>

text \<open>A namespace is a checked byte string of 29 bytes.\<close>

definition namespace_laws :: "sdk \<Rightarrow> bool" where
  "namespace_laws E \<longleftrightarrow>
     (\<forall>bs ns. NewNamespaceFromBytes E bs = Some ns \<longrightarrow> ns = bs \<and> length bs = NamespaceSize)"

lemma namespace_lawsD:
  "namespace_laws E \<Longrightarrow> NewNamespaceFromBytes E bs = Some ns \<Longrightarrow> ns = bs \<and> length ns = NamespaceSize"
  unfolding namespace_laws_def by blast

lemma ref_namespace [simp]: "namespace_laws ref_sdk"
  by (auto simp: namespace_laws_def ref_sdk_def NamespaceSize_def)

lemma length_time_MarshalBinary [simp]: "length (time_MarshalBinary t) = 15"
  by (simp add: time_MarshalBinary_def)

definition binary_time :: "time \<Rightarrow> bool" where
  "binary_time t \<longleftrightarrow> 0 \<le> t \<and> t < 2 ^ 63 * 1000000000"

lemma be_bytes_unat32: "be_bytes 4 (unat x) = be_bytes 4 (unat (y :: uint32)) \<longleftrightarrow> x = y"
proof -
  have "unat z < 256 ^ 4" for z :: uint32
    using unsigned_less [of z, where ?'a = nat] by simp
  then show ?thesis using be_bytes_inj word_unat_eq_iff by blast
qed

lemma be_bytes_unat64: "be_bytes 8 (unat x) = be_bytes 8 (unat (y :: uint64)) \<longleftrightarrow> x = y"
proof -
  have "unat z < 256 ^ 8" for z :: uint64
    using unsigned_less [of z, where ?'a = nat] by simp
  then show ?thesis using be_bytes_inj word_unat_eq_iff by blast
qed

lemma binary_time_words:
  assumes "binary_time t" "binary_time u"
    and "(word_of_int (t div 1000000000) :: int64) = word_of_int (u div 1000000000)"
  shows "t div 1000000000 = u div 1000000000"
proof -
  have "uint (word_of_int (x div 1000000000) :: int64) = x div 1000000000" if "binary_time x" for x
  proof -
    have "0 \<le> x div 1000000000" and "x div 1000000000 < 2 ^ 64"
      using that by (auto simp: binary_time_def pos_imp_zdiv_nonneg_iff)
    then show ?thesis by (simp add: uint_word_of_int)
  qed
  with assms show ?thesis by metis
qed

lemma time_MarshalBinary_inj:
  assumes "binary_time t" "binary_time u" and "time_MarshalBinary t = time_MarshalBinary u"
  shows "t = u"
proof -
  have s: "be_bytes 8 (unat (word_of_int (t div 1000000000) :: int64)) =
      be_bytes 8 (unat (word_of_int (u div 1000000000) :: int64))"
    and n: "be_bytes 4 (nat (t mod 1000000000)) = be_bytes 4 (nat (u mod 1000000000))"
    using assms(3) by (simp_all add: time_MarshalBinary_def)
  have "nat (x mod 1000000000) < 256 ^ 4" for x :: int
    using pos_mod_bound [of 1000000000 x] pos_mod_sign [of 1000000000 x] by simp
  with n have "nat (t mod 1000000000) = nat (u mod 1000000000)" by (blast intro: be_bytes_inj)
  then have "t mod 1000000000 = u mod 1000000000"
    using pos_mod_sign [of 1000000000 t] pos_mod_sign [of 1000000000 u] by simp
  moreover have "t div 1000000000 = u div 1000000000"
    using s binary_time_words [OF assms(1,2)] by (simp only: be_bytes_unat64)
  ultimately show ?thesis by (metis div_mult_mod_eq)
qed

lemma FromProto_Inr:
  assumes "namespace_laws E" and "FromProto E (Some m) = Inr p"
  shows "p = \<lparr>SignerKey = Some (pb_SignerPublicKey m), ChainIDOf = pb_ChainId m,
      Namespace = pb_Namespace m, UploadSize = pb_BlobSize m, BlobVersion = pb_BlobVersion m,
      Commitment = pb_Commitment m, CreationTimestamp = pb_CreationTimestamp m,
      Signature = pb_Signature m, Height = pb_Height m\<rparr>"
    and "length (pb_Commitment m) = 32" and "length (pb_Namespace m) = 29"
  using assms(2) namespace_lawsD [OF assms(1)]
  by (auto simp: FromProto_def CommitmentSize_def NamespaceSize_def)

lemma Validate_key_length:
  "Validate E p = Inr () \<Longrightarrow> \<exists>key. SignerKey p = Some key \<and> length key = 33"
  by (auto simp: Validate_def PubKeySize_def split: option.splits)

lemma Validate_Hash: "Validate E p = Inr () \<Longrightarrow> \<exists>h. Hash E p = Inr h"
  by (auto simp: Validate_def Hash_def split: option.splits)

lemma stateless_valid_hash:
  "ValidatePaymentPromiseStateless E m = Inr () \<Longrightarrow> \<exists>h. promiseHash E m = Inr h"
  by (auto simp: ValidatePaymentPromiseStateless_def promiseHash_def dest: Validate_Hash)

lemma stripped_parts_eq:
  assumes "length (k :: bytes) = length k'" "length n = length n'" "length c = length c'"
    and "k @ n @ be_bytes 4 s @ c @ be_bytes 4 v @ be_bytes 8 h @ t =
         k' @ n' @ be_bytes 4 s' @ c' @ be_bytes 4 v' @ be_bytes 8 h' @ t'"
  shows "k = k' \<and> n = n' \<and> be_bytes 4 s = be_bytes 4 s' \<and> c = c' \<and>
    be_bytes 4 v = be_bytes 4 v' \<and> be_bytes 8 h = be_bytes 8 h' \<and> t = t'"
  using assms by simp

section \<open>A concrete promise\<close>

definition ref_promise :: promise_pb where
  "ref_promise = \<lparr>pb_ChainId = ''fib'', pb_Height = 5, pb_Namespace = replicate 29 0,
     pb_BlobSize = 300000, pb_BlobVersion = 0, pb_Commitment = replicate 32 7,
     pb_CreationTimestamp = 100 * hour, pb_SignerPublicKey = chars_bytes ''abc'' @ replicate 30 0,
     pb_Signature = ref_pad 64 [102]\<rparr>"

lemma ref_promise_stateless: "ValidatePaymentPromiseStateless ref_sdk ref_promise = Inr ()"
  by (simp add: ValidatePaymentPromiseStateless_def FromProto_def Validate_def SignBytes_def
      strippedSignBytes_def ref_promise_def ref_sdk_def CommitmentSize_def PubKeySize_def
      maxChainIDSize_def require_def)

section \<open>Properties\<close>

text \<open>C13: The signed payload binds a promise: two promises that pass stateless validation and have the
  same payload differ at most in their chain ID and their signature, and the payload always has the
  documented fixed size of 125 bytes.\<close>

theorem sign_bytes_bind_promise:
  assumes ns: "namespace_laws E"
    and p: "FromProto E (Some m) = Inr p" "Validate E p = Inr ()" "binary_time (CreationTimestamp p)"
    and q: "FromProto E (Some m') = Inr q" "Validate E q = Inr ()" "binary_time (CreationTimestamp q)"
    and b: "strippedSignBytes p = Inr b" "strippedSignBytes q = Inr b"
  shows "m' = m\<lparr>pb_ChainId := pb_ChainId m', pb_Signature := pb_Signature m'\<rparr> \<and>
    length b = signBytesFixedSize"
proof (rule conjI)
  note P = FromProto_Inr [OF ns p(1)] and Q = FromProto_Inr [OF ns q(1)]
  have keys: "length (pb_SignerPublicKey m) = 33" "length (pb_SignerPublicKey m') = 33"
    using Validate_key_length [OF p(2)] Validate_key_length [OF q(2)] P(1) Q(1) by auto
  let ?b = "\<lambda>m. pb_SignerPublicKey m @ pb_Namespace m @ be_bytes 4 (unat (pb_BlobSize m)) @
      pb_Commitment m @ be_bytes 4 (unat (pb_BlobVersion m)) @ be_bytes 8 (unat (pb_Height m)) @
      time_MarshalBinary (pb_CreationTimestamp m)"
  have bm: "b = ?b m" "b = ?b m'"
    using b P(1) Q(1) by (simp_all add: strippedSignBytes_def)
  then show "length b = signBytesFixedSize"
    using P(2,3) keys by (simp add: signBytesFixedSize_def PubKeySize_def NamespaceSize_def)
  have "?b m = ?b m'" using bm by simp
  from stripped_parts_eq [OF _ _ _ this] keys P(2,3) Q(2,3)
  have eq: "pb_SignerPublicKey m = pb_SignerPublicKey m'" "pb_Namespace m = pb_Namespace m'"
    "pb_BlobSize m = pb_BlobSize m'" "pb_Commitment m = pb_Commitment m'"
    "pb_BlobVersion m = pb_BlobVersion m'" "pb_Height m = pb_Height m'"
    "time_MarshalBinary (pb_CreationTimestamp m) = time_MarshalBinary (pb_CreationTimestamp m')"
    by (simp_all add: be_bytes_unat32 be_bytes_unat64)
  moreover have "pb_CreationTimestamp m = pb_CreationTimestamp m'"
    using time_MarshalBinary_inj eq(7) p(3) q(3) P(1) Q(1) by simp
  ultimately show "m' = m\<lparr>pb_ChainId := pb_ChainId m', pb_Signature := pb_Signature m'\<rparr>"
    by simp
qed

theorem sign_bytes_bind_promise_witness:
  "\<exists>p b. FromProto ref_sdk (Some ref_promise) = Inr p \<and> strippedSignBytes p = Inr b \<and>
         length b = signBytesFixedSize"
proof -
  obtain p where p: "FromProto ref_sdk (Some ref_promise) = Inr p" "Validate ref_sdk p = Inr ()"
    using ref_promise_stateless by (auto simp: ValidatePaymentPromiseStateless_def)
  have "binary_time (CreationTimestamp p)"
    using FromProto_Inr(1) [OF ref_namespace p(1)] by (simp add: binary_time_def ref_promise_def)
  moreover obtain b where "strippedSignBytes p = Inr b"
    using p(2) by (auto simp: Validate_def SignBytes_def split: option.splits)
  ultimately show ?thesis
    using p sign_bytes_bind_promise [OF ref_namespace p _ p] by blast
qed

text \<open>C17: Converting a promise to its internal form and back loses nothing.\<close>

theorem promise_proto_roundtrip:
  assumes "namespace_laws E" and "FromProto E (Some m) = Inr p"
  shows "ToProto p = Inr m"
  using FromProto_Inr(1) [OF assms] by (simp add: ToProto_def)

theorem promise_proto_roundtrip_witness:
  "\<exists>p. FromProto ref_sdk (Some ref_promise) = Inr p \<and> ToProto p = Inr ref_promise"
  using ref_promise_stateless promise_proto_roundtrip [OF ref_namespace]
  by (auto simp: ValidatePaymentPromiseStateless_def)

end
