(* ===== verification/FibreKeeper.thy ===== *)
theory FibreKeeper
  imports FibreParams PaymentPromise
begin

text \<open>
  The x/fibre keeper (\<open>keeper/keeper.go\<close>): the module's state, its typed reads and writes, the
  stateful validation of a payment promise and the reduction of pending withdrawals. The state is
  one record: every kind of entry of the store is an ordered index keyed by what its store key is
  built from (\<open>FibreKeys\<close> shows that the byte keys are unambiguous and ordered the same way), plus
  the bank's balances and the events emitted so far. Values are stored decoded; the freshness floor
  alone keeps an undecodable case, because the code handles it.
\<close>

section \<open>State\<close>

record escrow_account =
  e_Signer :: string
  e_Balance :: coin
  e_Available :: coin

record withdrawal =
  w_Signer :: string
  w_Amount :: coin
  w_Requested :: time
  w_Available :: time

record processed_payment =
  pp_Hash :: bytes
  pp_ProcessedAt :: time

datatype raw_time = Corrupt | Stamp time

datatype fibre_event =
    EventDepositToEscrow string coin
  | EventWithdrawFromEscrowRequest string coin time time
  | EventWithdrawFromEscrowExecuted string coin
  | EventPayForFibre string bytes bytes uint32
  | EventPaymentPromiseTimeout string string bytes
  | EventUpdateFibreParams string params
  | EventProcessedPaymentPruned bytes time

record fibre_state =
  st_params :: "params option"
  st_floor :: "raw_time option"
  st_escrow :: "(string, escrow_account) kv"
  st_wd_signer :: "(string \<times> time, withdrawal) kv"
  st_wd_avail :: "(time \<times> time \<times> string, withdrawal) kv"
  st_pp_hash :: "(bytes, processed_payment) kv"
  st_pp_time :: "(time \<times> bytes, processed_payment) kv"
  st_bank :: bank
  st_events :: "fibre_event list"

datatype fibre_err =
    ErrInvalidAddress | ErrInvalidCoins | ErrNotFound | ErrInsufficientFunds | ErrWithdrawalExists
  | ErrBank | ErrUnauthorized | ErrInvalidParams param_err | ErrPromise promise_err
  | ErrChainMismatch | ErrFloorDecode | ErrTooOld | ErrFutureDated | ErrExpired | ErrHeightTooOld
  | ErrHeightTooNew | ErrAlreadyProcessed | ErrNoEscrow | ErrInsufficientEscrow | ErrNotTimedOut
  | ErrShortfall | ErrPanic

definition ModuleName :: string where
  "ModuleName = ''fibre''"

definition FeeCollectorName :: string where
  "FeeCollectorName = ''fee_collector''"

definition emit :: "fibre_event \<Rightarrow> fibre_state \<Rightarrow> fibre_state" where
  "emit ev s = s\<lparr>st_events := st_events s @ [ev]\<rparr>"

section \<open>Reads and writes\<close>

definition GetParams :: "fibre_state \<Rightarrow> params" where
  "GetParams s = (case st_params s of None \<Rightarrow> DefaultParams | Some p \<Rightarrow> p)"

definition SetParams :: "params \<Rightarrow> fibre_state \<Rightarrow> fibre_state" where
  "SetParams p s = s\<lparr>st_params := Some p\<rparr>"

definition GetPromiseFreshnessFloor :: "fibre_state \<Rightarrow> fibre_err + time" where
  "GetPromiseFreshnessFloor s =
     (case st_floor s of
        None \<Rightarrow> Inr zero_time
      | Some Corrupt \<Rightarrow> Inl ErrFloorDecode
      | Some (Stamp t) \<Rightarrow> Inr t)"

definition SetPromiseFreshnessFloor :: "time \<Rightarrow> fibre_state \<Rightarrow> fibre_state" where
  "SetPromiseFreshnessFloor t s = s\<lparr>st_floor := Some (Stamp t)\<rparr>"

definition GetEscrowAccount :: "fibre_state \<Rightarrow> string \<Rightarrow> escrow_account option" where
  "GetEscrowAccount s signer = kv_get (st_escrow s) signer"

definition SetEscrowAccount :: "escrow_account \<Rightarrow> fibre_state \<Rightarrow> fibre_state" where
  "SetEscrowAccount a s = s\<lparr>st_escrow := kv_set (e_Signer a) a (st_escrow s)\<rparr>"

definition DeleteEscrowAccount :: "string \<Rightarrow> fibre_state \<Rightarrow> fibre_state" where
  "DeleteEscrowAccount signer s = s\<lparr>st_escrow := kv_del signer (st_escrow s)\<rparr>"

definition GetWithdrawal :: "fibre_state \<Rightarrow> string \<Rightarrow> time \<Rightarrow> withdrawal option" where
  "GetWithdrawal s signer requested = kv_get (st_wd_signer s) (signer, requested)"

definition SetWithdrawal :: "withdrawal \<Rightarrow> fibre_state \<Rightarrow> fibre_state" where
  "SetWithdrawal w s = s\<lparr>
     st_wd_signer := kv_set (w_Signer w, w_Requested w) w (st_wd_signer s),
     st_wd_avail := kv_set (w_Available w, w_Requested w, w_Signer w) w (st_wd_avail s)\<rparr>"

definition DeleteWithdrawal :: "withdrawal \<Rightarrow> fibre_state \<Rightarrow> fibre_state" where
  "DeleteWithdrawal w s = s\<lparr>
     st_wd_signer := kv_del (w_Signer w, w_Requested w) (st_wd_signer s),
     st_wd_avail := kv_del (w_Available w, w_Requested w, w_Signer w) (st_wd_avail s)\<rparr>"

text \<open>The entries of the by-signer index whose key starts with the signer's text.\<close>

definition GetWithdrawalsBySigner :: "fibre_state \<Rightarrow> string \<Rightarrow> withdrawal list" where
  "GetWithdrawalsBySigner s signer =
     map snd (filter (\<lambda>e. prefix signer (fst (fst e))) (st_wd_signer s))"

definition GetWithdrawalsByAvailableIterator ::
  "fibre_state \<Rightarrow> time \<Rightarrow> (time \<times> time \<times> string, withdrawal) kv" where
  "GetWithdrawalsByAvailableIterator s upTo = filter (\<lambda>e. fst (fst e) \<le> upTo) (st_wd_avail s)"

definition GetProcessedPayment :: "fibre_state \<Rightarrow> bytes \<Rightarrow> processed_payment option" where
  "GetProcessedPayment s h = kv_get (st_pp_hash s) h"

definition SetProcessedPayment :: "processed_payment \<Rightarrow> fibre_state \<Rightarrow> fibre_state" where
  "SetProcessedPayment p s = s\<lparr>
     st_pp_hash := kv_set (pp_Hash p) p (st_pp_hash s),
     st_pp_time := kv_set (pp_ProcessedAt p, pp_Hash p) p (st_pp_time s)\<rparr>"

definition DeleteProcessedPayment :: "processed_payment \<Rightarrow> fibre_state \<Rightarrow> fibre_state" where
  "DeleteProcessedPayment p s = s\<lparr>
     st_pp_hash := kv_del (pp_Hash p) (st_pp_hash s),
     st_pp_time := kv_del (pp_ProcessedAt p, pp_Hash p) (st_pp_time s)\<rparr>"

definition IsPaymentProcessedByHash :: "fibre_state \<Rightarrow> bytes \<Rightarrow> bool" where
  "IsPaymentProcessedByHash s h \<longleftrightarrow> kv_get (st_pp_hash s) h \<noteq> None"

definition IsPaymentPromiseProcessed :: "sdk \<Rightarrow> fibre_state \<Rightarrow> promise_pb \<Rightarrow> bool" where
  "IsPaymentPromiseProcessed E s m =
     (case promiseHash E m of Inl _ \<Rightarrow> False | Inr h \<Rightarrow> IsPaymentProcessedByHash s h)"

definition GetProcessedPaymentsByTimeIterator ::
  "fibre_state \<Rightarrow> time \<Rightarrow> (time \<times> bytes, processed_payment) kv" where
  "GetProcessedPaymentsByTimeIterator s upTo = filter (\<lambda>e. fst (fst e) \<le> upTo) (st_pp_time s)"

section \<open>Stateful validation of a promise\<close>

text \<open>\<open>sdk.AccAddress(promise.SignerPublicKey.Address()).String()\<close>.\<close>

definition promise_signer :: "sdk \<Rightarrow> promise_pb \<Rightarrow> string" where
  "promise_signer E m = AccAddressString E (pubkey_Address E (pb_SignerPublicKey m))"

definition freshness_cutoff :: "ctx \<Rightarrow> params \<Rightarrow> time \<Rightarrow> time" where
  "freshness_cutoff c p floor =
     (let minAllowedTime = BlockTime c - WithdrawalDelay p
      in if minAllowedTime < floor then floor else minAllowedTime)"

text \<open>The height window is an unsigned parameter that the code converts to a signed integer, and the
  difference of two heights is 64-bit.\<close>

definition height_check :: "ctx \<Rightarrow> params \<Rightarrow> promise_pb \<Rightarrow> fibre_err + unit" where
  "height_check c p m =
     (if sint (PaymentPromiseHeightWindow p) < sint (BlockHeight c - pb_Height m)
      then Inl ErrHeightTooOld
      else if sint (BlockHeight c + 1) < sint (pb_Height m) then Inl ErrHeightTooNew
      else Inr ())"

definition validatePaymentPromiseStatefulInternal ::
  "sdk \<Rightarrow> ctx \<Rightarrow> fibre_state \<Rightarrow> promise_pb \<Rightarrow> bool \<Rightarrow> fibre_err + time" where
  "validatePaymentPromiseStatefulInternal E c s m isTimeout =
     rbind (require (pb_ChainId m = ChainID c) ErrChainMismatch) (\<lambda>_.
     let params = GetParams s; creationTime = pb_CreationTimestamp m in
     rbind (GetPromiseFreshnessFloor s) (\<lambda>floor.
     rbind (require (freshness_cutoff c params floor < creationTime) ErrTooOld) (\<lambda>_.
     rbind (require (creationTime \<le> BlockTime c + MaxPromiseClockSkew) ErrFutureDated) (\<lambda>_.
     let expirationTime = creationTime + PaymentPromiseTimeout params in
     rbind (if isTimeout then Inr () else require (BlockTime c < expirationTime) ErrExpired) (\<lambda>_.
     rbind (if isTimeout then Inr () else height_check c params m) (\<lambda>_.
     rbind (require (\<not> IsPaymentPromiseProcessed E s m) ErrAlreadyProcessed) (\<lambda>_.
     rbind (of_opt ErrNoEscrow (GetEscrowAccount s (promise_signer E m))) (\<lambda>escrow.
     rbind (of_opt ErrPanic (new_coin E BondDenom
              (uint (EstimateGasForPayForFibre (pb_BlobSize m))))) (\<lambda>requiredAmount.
     rbind (of_opt ErrPanic (coin_IsGTE E (e_Balance escrow) requiredAmount)) (\<lambda>sufficient.
     rbind (require sufficient ErrInsufficientEscrow) (\<lambda>_.
     Inr expirationTime)))))))))))"

definition ValidatePaymentPromiseStateful ::
  "sdk \<Rightarrow> ctx \<Rightarrow> fibre_state \<Rightarrow> promise_pb \<Rightarrow> fibre_err + time" where
  "ValidatePaymentPromiseStateful E c s m = validatePaymentPromiseStatefulInternal E c s m False"

definition ValidatePaymentPromiseStatefulForTimeout ::
  "sdk \<Rightarrow> ctx \<Rightarrow> fibre_state \<Rightarrow> promise_pb \<Rightarrow> fibre_err + time" where
  "ValidatePaymentPromiseStatefulForTimeout E c s m =
     validatePaymentPromiseStatefulInternal E c s m True"

definition promise_res :: "promise_err + 'a \<Rightarrow> fibre_err + 'a" where
  "promise_res r = (case r of Inl e \<Rightarrow> Inl (ErrPromise e) | Inr x \<Rightarrow> Inr x)"

definition ValidatePaymentPromiseInternal ::
  "sdk \<Rightarrow> ctx \<Rightarrow> fibre_state \<Rightarrow> promise_pb \<Rightarrow> fibre_err + unit" where
  "ValidatePaymentPromiseInternal E c s m =
     rbind (promise_res (ValidatePaymentPromiseStateless E m)) (\<lambda>_.
     rbind (ValidatePaymentPromiseStateful E c s m) (\<lambda>_.
     Inr ()))"

section \<open>Reducing pending withdrawals\<close>

fun reduce_withdrawals ::
  "sdk \<Rightarrow> withdrawal list \<Rightarrow> coin \<Rightarrow> fibre_state \<Rightarrow> fibre_err + coin \<times> fibre_state" where
  "reduce_withdrawals E [] remaining s = Inr (remaining, s)"
| "reduce_withdrawals E (w # ws) remaining s =
     (if \<not> coin_IsPositive E remaining then Inr (remaining, s)
      else rbind (of_opt ErrPanic (coin_IsGTE E remaining (w_Amount w))) (\<lambda>whole.
        if whole then
          rbind (of_opt ErrPanic (coin_Sub E remaining (w_Amount w))) (\<lambda>remaining'.
          reduce_withdrawals E ws remaining' (DeleteWithdrawal w s))
        else
          rbind (of_opt ErrPanic (coin_Sub E (w_Amount w) remaining)) (\<lambda>rest.
          rbind (of_opt ErrPanic (new_coin E (denom remaining) 0)) (\<lambda>remaining'.
          reduce_withdrawals E ws remaining' (SetWithdrawal (w\<lparr>w_Amount := rest\<rparr>) s)))))"

definition ReduceWithdrawalsForPayment ::
  "sdk \<Rightarrow> string \<Rightarrow> coin \<Rightarrow> fibre_state \<Rightarrow> fibre_err + fibre_state" where
  "ReduceWithdrawalsForPayment E signer remaining s =
     rbind (reduce_withdrawals E (GetWithdrawalsBySigner s signer) remaining s) (\<lambda>(remaining', s').
     if coin_IsPositive E remaining' then Inl ErrShortfall else Inr s')"

end
