(* ===== verification/FibreMsgs.thy ===== *)
theory FibreMsgs
  imports FibreKeeper
begin

text \<open>
  The messages of x/fibre: their stateless checks (\<open>types/msgs.go\<close>) and their handlers
  (\<open>keeper/msg_server.go\<close>). A handler maps the context, the message and the state to an error or to
  the state it commits; a message that fails, or panics, leaves the state as it was, because the
  transaction that carries it is rolled back.
\<close>

section \<open>Messages\<close>

record msg_escrow =
  m_Signer :: string
  m_Amount :: coin

record msg_pay_for_fibre =
  pf_Signer :: string
  pf_PaymentPromise :: promise_pb
  pf_ValidatorSignatures :: "bytes list"

record msg_timeout =
  to_Signer :: string
  to_PaymentPromise :: promise_pb

record msg_update_params =
  up_Authority :: string
  up_Params :: params

datatype fibre_msg =
    MsgDepositToEscrow msg_escrow
  | MsgRequestWithdrawal msg_escrow
  | MsgPayForFibre msg_pay_for_fibre
  | MsgPaymentPromiseTimeout msg_timeout
  | MsgUpdateFibreParams msg_update_params

section \<open>Stateless checks\<close>

datatype basic_err =
    BasicAddress | BasicCoins | BasicChainID | BasicNamespace | BasicBlobSize | BasicCommitment
  | BasicBlobVersion | BasicHeight | BasicTimestamp | BasicPubKey | BasicSignature
  | BasicNoValidatorSignature | BasicParams param_err

definition BlobVersionZero :: uint32 where
  "BlobVersionZero = 0"

definition validateBlobVersion :: "uint32 \<Rightarrow> basic_err + unit" where
  "validateBlobVersion v = require (v = BlobVersionZero) BasicBlobVersion"

definition MsgDepositToEscrow_ValidateBasic :: "sdk \<Rightarrow> msg_escrow \<Rightarrow> basic_err + unit" where
  "MsgDepositToEscrow_ValidateBasic E m =
     rbind (of_opt BasicAddress (AccAddressFromBech32 E (m_Signer m))) (\<lambda>_.
     rbind (require (coin_IsValid E (m_Amount m)) BasicCoins) (\<lambda>_.
     require (coin_IsPositive E (m_Amount m)) BasicCoins))"

definition MsgRequestWithdrawal_ValidateBasic :: "sdk \<Rightarrow> msg_escrow \<Rightarrow> basic_err + unit" where
  "MsgRequestWithdrawal_ValidateBasic E m =
     rbind (of_opt BasicAddress (AccAddressFromBech32 E (m_Signer m))) (\<lambda>_.
     rbind (require (coin_IsValid E (m_Amount m)) BasicCoins) (\<lambda>_.
     require (coin_IsPositive E (m_Amount m)) BasicCoins))"

definition PaymentPromise_ValidateBasic :: "sdk \<Rightarrow> promise_pb \<Rightarrow> basic_err + unit" where
  "PaymentPromise_ValidateBasic E m =
     rbind (require (pb_ChainId m \<noteq> '''') BasicChainID) (\<lambda>_.
     rbind (require (pb_Namespace m \<noteq> []) BasicNamespace) (\<lambda>_.
     rbind (require (length (pb_Namespace m) = NamespaceSize) BasicNamespace) (\<lambda>_.
     rbind (of_opt BasicNamespace (NewNamespaceFromBytes E (pb_Namespace m))) (\<lambda>ns.
     rbind (require (ValidateForBlob E ns) BasicNamespace) (\<lambda>_.
     rbind (require (pb_BlobSize m \<noteq> 0) BasicBlobSize) (\<lambda>_.
     rbind (require (length (pb_Commitment m) = 32) BasicCommitment) (\<lambda>_.
     rbind (validateBlobVersion (pb_BlobVersion m)) (\<lambda>_.
     rbind (require (0 < sint (pb_Height m)) BasicHeight) (\<lambda>_.
     rbind (require (pb_CreationTimestamp m \<noteq> zero_time) BasicTimestamp) (\<lambda>_.
     rbind (require (length (pb_SignerPublicKey m) = PubKeySize) BasicPubKey) (\<lambda>_.
     require (pb_Signature m \<noteq> []) BasicSignature)))))))))))"

definition MsgPayForFibre_ValidateBasic :: "sdk \<Rightarrow> msg_pay_for_fibre \<Rightarrow> basic_err + unit" where
  "MsgPayForFibre_ValidateBasic E m =
     rbind (of_opt BasicAddress (AccAddressFromBech32 E (pf_Signer m))) (\<lambda>_.
     rbind (PaymentPromise_ValidateBasic E (pf_PaymentPromise m)) (\<lambda>_.
     require (pf_ValidatorSignatures m \<noteq> []) BasicNoValidatorSignature))"

definition MsgPaymentPromiseTimeout_ValidateBasic :: "sdk \<Rightarrow> msg_timeout \<Rightarrow> basic_err + unit" where
  "MsgPaymentPromiseTimeout_ValidateBasic E m =
     rbind (of_opt BasicAddress (AccAddressFromBech32 E (to_Signer m))) (\<lambda>_.
     PaymentPromise_ValidateBasic E (to_PaymentPromise m))"

definition MsgUpdateFibreParams_ValidateBasic ::
  "sdk \<Rightarrow> msg_update_params \<Rightarrow> basic_err + unit" where
  "MsgUpdateFibreParams_ValidateBasic E m =
     rbind (of_opt BasicAddress (AccAddressFromBech32 E (up_Authority m))) (\<lambda>_.
     (case Params_Validate (up_Params m) of Inl e \<Rightarrow> Inl (BasicParams e) | Inr u \<Rightarrow> Inr u))"

fun fibre_ValidateBasic :: "sdk \<Rightarrow> fibre_msg \<Rightarrow> basic_err + unit" where
  "fibre_ValidateBasic E (MsgDepositToEscrow m) = MsgDepositToEscrow_ValidateBasic E m"
| "fibre_ValidateBasic E (MsgRequestWithdrawal m) = MsgRequestWithdrawal_ValidateBasic E m"
| "fibre_ValidateBasic E (MsgPayForFibre m) = MsgPayForFibre_ValidateBasic E m"
| "fibre_ValidateBasic E (MsgPaymentPromiseTimeout m) = MsgPaymentPromiseTimeout_ValidateBasic E m"
| "fibre_ValidateBasic E (MsgUpdateFibreParams m) = MsgUpdateFibreParams_ValidateBasic E m"

section \<open>Handlers\<close>

definition DepositToEscrow :: "sdk \<Rightarrow> ctx \<Rightarrow> msg_escrow \<Rightarrow> fibre_state \<Rightarrow> fibre_err + fibre_state" where
  "DepositToEscrow E c m s =
     rbind (of_opt ErrInvalidAddress (AccAddressFromBech32 E (m_Signer m))) (\<lambda>signerAddr.
     rbind (case GetEscrowAccount s (m_Signer m) of
              Some escrow \<Rightarrow> Inr escrow
            | None \<Rightarrow>
                rbind (of_opt ErrPanic (new_coin E (denom (m_Amount m)) 0)) (\<lambda>zero.
                Inr \<lparr>e_Signer = m_Signer m, e_Balance = zero, e_Available = zero\<rparr>)) (\<lambda>escrow.
     rbind (of_opt ErrPanic (new_coins E (m_Amount m))) (\<lambda>coins.
     rbind (of_opt ErrBank
              (SendCoinsFromAccountToModule E (st_bank s) signerAddr ModuleName coins)) (\<lambda>bank.
     rbind (of_opt ErrPanic (coin_Add E (e_Balance escrow) (m_Amount m))) (\<lambda>balance.
     rbind (of_opt ErrPanic (coin_Add E (e_Available escrow) (m_Amount m))) (\<lambda>available.
     Inr (emit (EventDepositToEscrow (m_Signer m) (m_Amount m))
           (SetEscrowAccount (escrow\<lparr>e_Balance := balance, e_Available := available\<rparr>)
             (s\<lparr>st_bank := bank\<rparr>)))))))))"

definition RequestWithdrawal ::
  "sdk \<Rightarrow> ctx \<Rightarrow> msg_escrow \<Rightarrow> fibre_state \<Rightarrow> fibre_err + fibre_state" where
  "RequestWithdrawal E c m s =
     rbind (of_opt ErrNotFound (GetEscrowAccount s (m_Signer m))) (\<lambda>escrow.
     rbind (of_opt ErrPanic (coin_IsLT E (e_Available escrow) (m_Amount m))) (\<lambda>insufficient.
     rbind (require (\<not> insufficient) ErrInsufficientFunds) (\<lambda>_.
     let requested = BlockTime c in
     rbind (require (GetWithdrawal s (m_Signer m) requested = None) ErrWithdrawalExists) (\<lambda>_.
     let available = requested + WithdrawalDelay (GetParams s);
         withdrawal = \<lparr>w_Signer = m_Signer m, w_Amount = m_Amount m,
                       w_Requested = requested, w_Available = available\<rparr> in
     rbind (of_opt ErrPanic (coin_Sub E (e_Available escrow) (m_Amount m))) (\<lambda>rest.
     Inr (emit (EventWithdrawFromEscrowRequest (m_Signer m) (m_Amount m) requested available)
           (SetWithdrawal withdrawal
             (SetEscrowAccount (escrow\<lparr>e_Available := rest\<rparr>) s))))))))"

definition deductPaymentFromEscrow ::
  "sdk \<Rightarrow> escrow_account \<Rightarrow> coin \<Rightarrow> fibre_state \<Rightarrow> fibre_err + fibre_state" where
  "deductPaymentFromEscrow E escrow payment s =
     rbind (of_opt ErrPanic (coin_IsLT E (e_Balance escrow) payment)) (\<lambda>insufficient.
     rbind (require (\<not> insufficient) ErrInsufficientFunds) (\<lambda>_.
     rbind (of_opt ErrPanic (coin_IsLT E (e_Available escrow) payment)) (\<lambda>short.
     let availableDeduction = (if short then e_Available escrow else payment) in
     rbind (of_opt ErrPanic (coin_Sub E (e_Balance escrow) payment)) (\<lambda>balance.
     rbind (of_opt ErrPanic (coin_Sub E (e_Available escrow) availableDeduction)) (\<lambda>available.
     let s1 = SetEscrowAccount (escrow\<lparr>e_Balance := balance, e_Available := available\<rparr>) s in
     rbind (of_opt ErrPanic (coin_Sub E payment availableDeduction)) (\<lambda>shortfall.
     rbind (if coin_IsPositive E shortfall
            then ReduceWithdrawalsForPayment E (e_Signer escrow) shortfall s1 else Inr s1) (\<lambda>s2.
     rbind (of_opt ErrPanic (new_coins E payment)) (\<lambda>coins.
     rbind (of_opt ErrBank (SendCoinsFromModuleToModule E (st_bank s2) ModuleName FeeCollectorName
              coins)) (\<lambda>bank.
     Inr (s2\<lparr>st_bank := bank\<rparr>))))))))))"

definition calculatePaymentAmount :: "sdk \<Rightarrow> uint32 \<Rightarrow> coin option" where
  "calculatePaymentAmount E blobSize = PaymentAmount E blobSize"

definition PayForFibre ::
  "sdk \<Rightarrow> ctx \<Rightarrow> msg_pay_for_fibre \<Rightarrow> fibre_state \<Rightarrow> fibre_err + fibre_state" where
  "PayForFibre E c m s =
     (let promise = pf_PaymentPromise m in
     rbind (promise_res (FromProto E (Some promise))) (\<lambda>pp.
     rbind (promise_res (Validate E pp)) (\<lambda>_.
     rbind (ValidatePaymentPromiseStateful E c s promise) (\<lambda>_.
     rbind (promise_res (Hash E pp)) (\<lambda>hash.
     let signerAddr = promise_signer E promise in
     rbind (of_opt ErrNotFound (GetEscrowAccount s signerAddr)) (\<lambda>escrow.
     rbind (of_opt ErrPanic (calculatePaymentAmount E (pb_BlobSize promise))) (\<lambda>payment.
     rbind (deductPaymentFromEscrow E escrow payment s) (\<lambda>s1.
     Inr (emit (EventPayForFibre signerAddr (pb_Namespace promise) (pb_Commitment promise)
                  (of_nat (length (pf_ValidatorSignatures m))))
           (SetProcessedPayment \<lparr>pp_Hash = hash, pp_ProcessedAt = BlockTime c\<rparr> s1))))))))))"

definition PaymentPromiseTimeout_handler ::
  "sdk \<Rightarrow> ctx \<Rightarrow> msg_timeout \<Rightarrow> fibre_state \<Rightarrow> fibre_err + fibre_state" where
  "PaymentPromiseTimeout_handler E c m s =
     (let promise = to_PaymentPromise m in
     rbind (promise_res (FromProto E (Some promise))) (\<lambda>pp.
     rbind (promise_res (Validate E pp)) (\<lambda>_.
     rbind (ValidatePaymentPromiseStatefulForTimeout E c s promise) (\<lambda>expirationTime.
     rbind (require (expirationTime \<le> BlockTime c) ErrNotTimedOut) (\<lambda>_.
     rbind (of_opt ErrPanic (calculatePaymentAmount E (pb_BlobSize promise))) (\<lambda>payment.
     rbind (promise_res (Hash E pp)) (\<lambda>hash.
     let escrowSigner = promise_signer E promise in
     rbind (of_opt ErrNotFound (GetEscrowAccount s escrowSigner)) (\<lambda>escrow.
     rbind (deductPaymentFromEscrow E escrow payment s) (\<lambda>s1.
     Inr (emit (EventPaymentPromiseTimeout (to_Signer m) escrowSigner hash)
           (SetProcessedPayment \<lparr>pp_Hash = hash, pp_ProcessedAt = BlockTime c\<rparr> s1)))))))))))"

definition UpdateFibreParams ::
  "string \<Rightarrow> msg_update_params \<Rightarrow> fibre_state \<Rightarrow> fibre_err + fibre_state" where
  "UpdateFibreParams authority m s =
     rbind (require (up_Authority m = authority) ErrUnauthorized) (\<lambda>_.
     rbind (case Params_Validate (up_Params m) of
              Inl e \<Rightarrow> Inl (ErrInvalidParams e) | Inr u \<Rightarrow> Inr u) (\<lambda>_.
     Inr (emit (EventUpdateFibreParams (up_Authority m) (up_Params m))
           (SetParams (up_Params m) s))))"

text \<open>The message router of the module.\<close>

fun fibre_handle ::
  "sdk \<Rightarrow> string \<Rightarrow> ctx \<Rightarrow> fibre_msg \<Rightarrow> fibre_state \<Rightarrow> fibre_err + fibre_state" where
  "fibre_handle E authority c (MsgDepositToEscrow m) s = DepositToEscrow E c m s"
| "fibre_handle E authority c (MsgRequestWithdrawal m) s = RequestWithdrawal E c m s"
| "fibre_handle E authority c (MsgPayForFibre m) s = PayForFibre E c m s"
| "fibre_handle E authority c (MsgPaymentPromiseTimeout m) s = PaymentPromiseTimeout_handler E c m s"
| "fibre_handle E authority c (MsgUpdateFibreParams m) s = UpdateFibreParams authority m s"

end
