(* ===== verification/FibreAbci.thy ===== *)
theory FibreAbci
  imports FibreMsgs
begin

text \<open>
  The block hook of x/fibre (\<open>keeper/abci.go\<close>). The two loops run over the entries the iterator
  ranges over when it is opened; each step only deletes the entry it is at, so the later ones are
  unaffected. An entry the code logs and skips leaves the state as it is. Keys that do not parse
  cannot occur in a typed index.
\<close>

definition updatePromiseFreshnessFloor :: "ctx \<Rightarrow> fibre_state \<Rightarrow> fibre_err + fibre_state" where
  "updatePromiseFreshnessFloor c s =
     (let candidate = BlockTime c - WithdrawalDelay (GetParams s) in
      rbind (GetPromiseFreshnessFloor s) (\<lambda>current.
      Inr (if current < candidate then SetPromiseFreshnessFloor candidate s else s)))"

text \<open>One round of the withdrawal loop, for an entry that is due.\<close>

definition process_withdrawal ::
  "sdk \<Rightarrow> string \<Rightarrow> withdrawal \<Rightarrow> fibre_state \<Rightarrow> fibre_err + fibre_state" where
  "process_withdrawal E signer w s =
     (let amt = w_Amount w in
      case AccAddressFromBech32 E signer of None \<Rightarrow> Inr s | Some signerAddr \<Rightarrow>
      case GetEscrowAccount s signer of None \<Rightarrow> Inr s | Some escrow \<Rightarrow>
      rbind (of_opt ErrPanic (coin_IsLT E (e_Balance escrow) amt)) (\<lambda>insufficient.
      if insufficient then Inr s else
      rbind (of_opt ErrPanic (new_coins E amt)) (\<lambda>coins.
      case SendCoinsFromModuleToAccount E (st_bank s) ModuleName signerAddr coins of
        None \<Rightarrow> Inr s
      | Some bank \<Rightarrow>
          rbind (of_opt ErrPanic (coin_Sub E (e_Balance escrow) amt)) (\<lambda>balance.
          Inr (emit (EventWithdrawFromEscrowExecuted signer amt)
                (DeleteWithdrawal w
                  (SetEscrowAccount (escrow\<lparr>e_Balance := balance\<rparr>) (s\<lparr>st_bank := bank\<rparr>))))))))"

fun process_withdrawals ::
  "sdk \<Rightarrow> time \<Rightarrow> (time \<times> time \<times> string, withdrawal) kv \<Rightarrow> fibre_state \<Rightarrow> fibre_err + fibre_state" where
  "process_withdrawals E now [] s = Inr s"
| "process_withdrawals E now (((availableTime, _, signer), w) # es) s =
     (if now < availableTime then Inr s
      else rbind (process_withdrawal E signer w s) (process_withdrawals E now es))"

definition processAvailableWithdrawals :: "sdk \<Rightarrow> ctx \<Rightarrow> fibre_state \<Rightarrow> fibre_err + fibre_state" where
  "processAvailableWithdrawals E c s =
     process_withdrawals E (BlockTime c) (GetWithdrawalsByAvailableIterator s (BlockTime c)) s"

fun prune_processed ::
  "time \<Rightarrow> (time \<times> bytes, processed_payment) kv \<Rightarrow> fibre_state \<Rightarrow> fibre_state" where
  "prune_processed cutoff [] s = s"
| "prune_processed cutoff (((processedAt, hash), p) # es) s =
     (if cutoff < processedAt then s
      else prune_processed cutoff es
             (emit (EventProcessedPaymentPruned hash processedAt) (DeleteProcessedPayment p s)))"

definition pruneProcessedPayments :: "ctx \<Rightarrow> fibre_state \<Rightarrow> fibre_err + fibre_state" where
  "pruneProcessedPayments c s =
     (let cutoffTime = BlockTime c - PaymentPromiseRetentionWindow (GetParams s) in
      Inr (prune_processed cutoffTime (GetProcessedPaymentsByTimeIterator s cutoffTime) s))"

definition fibre_BeginBlocker :: "sdk \<Rightarrow> ctx \<Rightarrow> fibre_state \<Rightarrow> fibre_err + fibre_state" where
  "fibre_BeginBlocker E c s =
     rbind (updatePromiseFreshnessFloor c s) (\<lambda>s1.
     rbind (processAvailableWithdrawals E c s1) (\<lambda>s2.
     pruneProcessedPayments c s2))"

section \<open>The module as a state machine\<close>

text \<open>
  A configuration is the context of the current block and the module's state. A block begins at a
  later time; a message that passed its stateless check is handled in the current block; and the
  rest of the application moves coins, without taking any out of the module's account.
\<close>

inductive fibre_step ::
  "sdk \<Rightarrow> string \<Rightarrow> ctx \<times> fibre_state \<Rightarrow> ctx \<times> fibre_state \<Rightarrow> bool"
  for E :: sdk and authority :: string where
  begin_block:
    "BlockTime c < BlockTime c' \<Longrightarrow> fibre_BeginBlocker E c' s = Inr s' \<Longrightarrow>
     fibre_step E authority (c, s) (c', s')"
| deliver:
    "fibre_ValidateBasic E m = Inr () \<Longrightarrow> fibre_handle E authority c m s = Inr s' \<Longrightarrow>
     fibre_step E authority (c, s) (c, s')"
| other_modules:
    "(\<And>d. st_bank s (ModAcct ModuleName) d \<le> b (ModAcct ModuleName) d) \<Longrightarrow>
     fibre_step E authority (c, s) (c, s\<lparr>st_bank := b\<rparr>)"

inductive_cases fibre_stepE: "fibre_step E authority (c, s) (c', s')"

end
