(* ===== verification/FibreGenesis.thy ===== *)
theory FibreGenesis
  imports FibreAbci
begin

text \<open>
  Genesis of x/fibre: \<open>types/genesis.go\<close> (the default state and its validation) and
  \<open>keeper/genesis.go\<close> (import, export and the iterations they use).
\<close>

record genesis_state =
  gs_Params :: params
  gs_EscrowAccounts :: "escrow_account list"
  gs_Withdrawals :: "withdrawal list"
  gs_ProcessedPayments :: "processed_payment list"
  gs_PromiseFreshnessFloor :: time

definition DefaultGenesis :: genesis_state where
  "DefaultGenesis = \<lparr>gs_Params = DefaultParams, gs_EscrowAccounts = [], gs_Withdrawals = [],
     gs_ProcessedPayments = [], gs_PromiseFreshnessFloor = zero_time\<rparr>"

datatype genesis_err =
    ErrGenesisParams param_err | ErrInvalidSigner | ErrDuplicateSigner | ErrInvalidBalance
  | ErrInvalidAmount | ErrInvalidTimestamp | ErrInvalidHash | ErrDuplicateHash

fun validate_escrows :: "sdk \<Rightarrow> string set \<Rightarrow> escrow_account list \<Rightarrow> genesis_err + unit" where
  "validate_escrows E seen [] = Inr ()"
| "validate_escrows E seen (a # as) =
     rbind (require (e_Signer a \<noteq> '''') ErrInvalidSigner) (\<lambda>_.
     rbind (require (e_Signer a \<notin> seen) ErrDuplicateSigner) (\<lambda>_.
     rbind (require (coin_IsValid E (e_Balance a)) ErrInvalidBalance) (\<lambda>_.
     rbind (require (coin_IsValid E (e_Available a)) ErrInvalidBalance) (\<lambda>_.
     rbind (require (amount (e_Available a) \<le> amount (e_Balance a)) ErrInvalidBalance) (\<lambda>_.
     validate_escrows E (insert (e_Signer a) seen) as)))))"

fun validate_withdrawals :: "sdk \<Rightarrow> withdrawal list \<Rightarrow> genesis_err + unit" where
  "validate_withdrawals E [] = Inr ()"
| "validate_withdrawals E (w # ws) =
     rbind (require (w_Signer w \<noteq> '''') ErrInvalidSigner) (\<lambda>_.
     rbind (require (coin_IsValid E (w_Amount w) \<and> coin_IsPositive E (w_Amount w))
              ErrInvalidAmount) (\<lambda>_.
     rbind (require (w_Requested w \<noteq> zero_time) ErrInvalidTimestamp) (\<lambda>_.
     validate_withdrawals E ws)))"

fun validate_processed :: "bytes set \<Rightarrow> processed_payment list \<Rightarrow> genesis_err + unit" where
  "validate_processed seen [] = Inr ()"
| "validate_processed seen (p # ps) =
     rbind (require (pp_Hash p \<noteq> []) ErrInvalidHash) (\<lambda>_.
     rbind (require (pp_Hash p \<notin> seen) ErrDuplicateHash) (\<lambda>_.
     rbind (require (pp_ProcessedAt p \<noteq> zero_time) ErrInvalidTimestamp) (\<lambda>_.
     validate_processed (insert (pp_Hash p) seen) ps)))"

definition GenesisState_Validate :: "sdk \<Rightarrow> genesis_state \<Rightarrow> genesis_err + unit" where
  "GenesisState_Validate E gs =
     rbind (case Params_Validate (gs_Params gs) of
              Inl e \<Rightarrow> Inl (ErrGenesisParams e) | Inr u \<Rightarrow> Inr u) (\<lambda>_.
     rbind (validate_escrows E {} (gs_EscrowAccounts gs)) (\<lambda>_.
     rbind (validate_withdrawals E (gs_Withdrawals gs)) (\<lambda>_.
     validate_processed {} (gs_ProcessedPayments gs))))"

definition fibre_InitGenesis :: "genesis_state \<Rightarrow> fibre_state \<Rightarrow> fibre_state" where
  "fibre_InitGenesis gs s =
     (let s1 = SetParams (gs_Params gs) s;
          s2 = fold SetEscrowAccount (gs_EscrowAccounts gs) s1;
          s3 = fold SetWithdrawal (gs_Withdrawals gs) s2;
          s4 = fold SetProcessedPayment (gs_ProcessedPayments gs) s3
      in if gs_PromiseFreshnessFloor gs \<noteq> zero_time
         then SetPromiseFreshnessFloor (gs_PromiseFreshnessFloor gs) s4 else s4)"

text \<open>An iteration calls back with each value in key order, until the callback returns true. The
  callback threads the accumulator it closes over.\<close>

fun iterate_values :: "('v \<Rightarrow> 'acc \<Rightarrow> bool \<times> 'acc) \<Rightarrow> ('k, 'v) kv \<Rightarrow> 'acc \<Rightarrow> 'acc" where
  "iterate_values callback [] acc = acc"
| "iterate_values callback ((_, v) # m) acc =
     (case callback v acc of (stop, acc') \<Rightarrow>
        if stop then acc' else iterate_values callback m acc')"

definition IterateEscrowAccounts ::
  "fibre_state \<Rightarrow> (escrow_account \<Rightarrow> 'acc \<Rightarrow> bool \<times> 'acc) \<Rightarrow> 'acc \<Rightarrow> 'acc" where
  "IterateEscrowAccounts s callback = iterate_values callback (st_escrow s)"

definition IterateWithdrawals ::
  "fibre_state \<Rightarrow> (withdrawal \<Rightarrow> 'acc \<Rightarrow> bool \<times> 'acc) \<Rightarrow> 'acc \<Rightarrow> 'acc" where
  "IterateWithdrawals s callback = iterate_values callback (st_wd_signer s)"

definition IterateProcessedPayments ::
  "fibre_state \<Rightarrow> (processed_payment \<Rightarrow> 'acc \<Rightarrow> bool \<times> 'acc) \<Rightarrow> 'acc \<Rightarrow> 'acc" where
  "IterateProcessedPayments s callback = iterate_values callback (st_pp_hash s)"

definition fibre_ExportGenesis :: "fibre_state \<Rightarrow> fibre_err + genesis_state" where
  "fibre_ExportGenesis s =
     (let accounts = IterateEscrowAccounts s (\<lambda>a acc. (False, acc @ [a])) [];
          withdrawals = IterateWithdrawals s (\<lambda>w acc. (False, acc @ [w])) [];
          payments = IterateProcessedPayments s (\<lambda>p acc. (False, acc @ [p])) [] in
      rbind (GetPromiseFreshnessFloor s) (\<lambda>floor.
      Inr \<lparr>gs_Params = GetParams s, gs_EscrowAccounts = accounts, gs_Withdrawals = withdrawals,
           gs_ProcessedPayments = payments, gs_PromiseFreshnessFloor = floor\<rparr>))"

text \<open>The store before genesis.\<close>

definition empty_store :: "bank \<Rightarrow> fibre_state" where
  "empty_store b = \<lparr>st_params = None, st_floor = None, st_escrow = [], st_wd_signer = [],
     st_wd_avail = [], st_pp_hash = [], st_pp_time = [], st_bank = b, st_events = []\<rparr>"

lemma iterate_collect:
  "iterate_values (\<lambda>v acc. (False, acc @ [v])) m acc = acc @ map snd m"
  by (induction m arbitrary: acc) auto

lemma ExportGenesis_eq:
  "fibre_ExportGenesis s =
     rbind (GetPromiseFreshnessFloor s) (\<lambda>floor.
     Inr \<lparr>gs_Params = GetParams s, gs_EscrowAccounts = map snd (st_escrow s),
          gs_Withdrawals = map snd (st_wd_signer s),
          gs_ProcessedPayments = map snd (st_pp_hash s), gs_PromiseFreshnessFloor = floor\<rparr>)"
  by (simp add: fibre_ExportGenesis_def IterateEscrowAccounts_def IterateWithdrawals_def
      IterateProcessedPayments_def iterate_collect Let_def)

end
