(* ===== verification/FibreInv.thy ===== *)
theory FibreInv
  imports FibreGenesis
begin

text \<open>
  The accounting of x/fibre. The invariant: both indexes of the withdrawals and both indexes of the
  processed payments hold the same entries; every escrow balance is its available part plus the
  pending withdrawals of its signer; and the module's bank account holds the sum of the balances.
  Every message, every block and every transfer of the other modules keeps it.
\<close>

section \<open>The invariant\<close>

definition pending :: "fibre_state \<Rightarrow> string \<Rightarrow> int" where
  "pending s a = kv_sum (\<lambda>k w. if fst k = a then amount (w_Amount w) else 0) (st_wd_signer s)"

definition escrowed :: "fibre_state \<Rightarrow> string \<Rightarrow> int" where
  "escrowed s d =
     kv_sum (\<lambda>_ e. if denom (e_Balance e) = d then amount (e_Balance e) else 0) (st_escrow s)"

definition wd_coherent :: "fibre_state \<Rightarrow> bool" where
  "wd_coherent s \<longleftrightarrow>
     kv_ok (st_wd_signer s) \<and> kv_ok (st_wd_avail s) \<and>
     (\<forall>a r w. kv_get (st_wd_signer s) (a, r) = Some w \<longrightarrow>
        w_Signer w = a \<and> w_Requested w = r \<and> kv_get (st_wd_avail s) (w_Available w, r, a) = Some w) \<and>
     (\<forall>t r a w. kv_get (st_wd_avail s) (t, r, a) = Some w \<longrightarrow>
        w_Available w = t \<and> kv_get (st_wd_signer s) (a, r) = Some w)"

definition pp_coherent :: "fibre_state \<Rightarrow> bool" where
  "pp_coherent s \<longleftrightarrow>
     kv_ok (st_pp_hash s) \<and> kv_ok (st_pp_time s) \<and>
     (\<forall>h p. kv_get (st_pp_hash s) h = Some p \<longrightarrow>
        pp_Hash p = h \<and> kv_get (st_pp_time s) (pp_ProcessedAt p, h) = Some p) \<and>
     (\<forall>t h p. kv_get (st_pp_time s) (t, h) = Some p \<longrightarrow>
        pp_ProcessedAt p = t \<and> kv_get (st_pp_hash s) h = Some p)"

definition wd_funded :: "sdk \<Rightarrow> fibre_state \<Rightarrow> bool" where
  "wd_funded E s \<longleftrightarrow>
     (\<forall>a r w. kv_get (st_wd_signer s) (a, r) = Some w \<longrightarrow> 0 < amount (w_Amount w) \<and>
        (\<exists>e. kv_get (st_escrow s) a = Some e \<and> denom (w_Amount w) = denom (e_Balance e)))"

definition escrows_ok :: "sdk \<Rightarrow> fibre_state \<Rightarrow> bool" where
  "escrows_ok E s \<longleftrightarrow>
     kv_ok (st_escrow s) \<and>
     (\<forall>a e. kv_get (st_escrow s) a = Some e \<longrightarrow>
        e_Signer e = a \<and> AccAddressFromBech32 E a \<noteq> None \<and> valid_denom E (denom (e_Balance e)) \<and>
        denom (e_Available e) = denom (e_Balance e) \<and> 0 \<le> amount (e_Available e) \<and>
        amount (e_Balance e) = amount (e_Available e) + pending s a)"

definition solvent :: "fibre_state \<Rightarrow> bool" where
  "solvent s \<longleftrightarrow> (\<forall>d. escrowed s d \<le> st_bank s (ModAcct ModuleName) d)"

definition fibre_inv :: "sdk \<Rightarrow> fibre_state \<Rightarrow> bool" where
  "fibre_inv E s \<longleftrightarrow>
     wd_coherent s \<and> pp_coherent s \<and> wd_funded E s \<and> escrows_ok E s \<and> solvent s"

lemmas inv_defs = fibre_inv_def wd_coherent_def pp_coherent_def wd_funded_def escrows_ok_def solvent_def
lemmas store_defs = SetWithdrawal_def DeleteWithdrawal_def SetEscrowAccount_def emit_def
  SetProcessedPayment_def DeleteProcessedPayment_def SetParams_def SetPromiseFreshnessFloor_def

section \<open>The indexes\<close>

lemma wd_signerD:
  assumes "wd_coherent s" and "kv_get (st_wd_signer s) (a, r) = Some w"
  shows "w_Signer w = a" and "w_Requested w = r"
    and "kv_get (st_wd_avail s) (w_Available w, r, a) = Some w"
  using assms unfolding wd_coherent_def by blast+

lemma wd_availD:
  assumes "wd_coherent s" and "kv_get (st_wd_avail s) (t, r, a) = Some w"
  shows "w_Available w = t" and "kv_get (st_wd_signer s) (a, r) = Some w"
  using assms unfolding wd_coherent_def by blast+

lemma wd_coherentD [simp]:
  "wd_coherent s \<Longrightarrow> kv_ok (st_wd_signer s)" "wd_coherent s \<Longrightarrow> kv_ok (st_wd_avail s)"
  by (simp_all add: wd_coherent_def)

lemma wd_coherentI:
  assumes "kv_ok (st_wd_signer s)" and "kv_ok (st_wd_avail s)"
    and "\<And>a r w. kv_get (st_wd_signer s) (a, r) = Some w \<Longrightarrow>
      w_Signer w = a \<and> w_Requested w = r \<and> kv_get (st_wd_avail s) (w_Available w, r, a) = Some w"
    and "\<And>t r a w. kv_get (st_wd_avail s) (t, r, a) = Some w \<Longrightarrow>
      w_Available w = t \<and> kv_get (st_wd_signer s) (a, r) = Some w"
  shows "wd_coherent s"
  using assms unfolding wd_coherent_def by blast

lemma wd_coherent_set:
  assumes coh: "wd_coherent s"
    and same: "\<And>w0. kv_get (st_wd_signer s) (w_Signer w, w_Requested w) = Some w0 \<Longrightarrow>
           w_Available w0 = w_Available w"
  shows "wd_coherent (SetWithdrawal w s)"
proof (rule wd_coherentI, goal_cases)
  case (3 a r v)
  show ?case
  proof (cases "a = w_Signer w \<and> r = w_Requested w")
    case True
    with 3 coh show ?thesis by (simp add: SetWithdrawal_def)
  next
    case False
    with 3 coh have "kv_get (st_wd_signer s) (a, r) = Some v"
      by (simp add: SetWithdrawal_def split: if_splits)
    from wd_signerD [OF coh this] False coh show ?thesis by (auto simp: SetWithdrawal_def)
  qed
next
  case (4 t r a v)
  show ?case
  proof (cases "a = w_Signer w \<and> r = w_Requested w")
    case True
    show ?thesis
    proof (cases "t = w_Available w")
      case False
      with 4 coh have "kv_get (st_wd_avail s) (t, r, a) = Some v" by (simp add: SetWithdrawal_def)
      with wd_availD [OF coh this] True False same [of v] show ?thesis by simp
    qed (use 4 True coh in \<open>simp add: SetWithdrawal_def\<close>)
  next
    case False
    with 4 coh have "kv_get (st_wd_avail s) (t, r, a) = Some v"
      by (auto simp: SetWithdrawal_def split: if_splits)
    from wd_availD [OF coh this] False coh show ?thesis by (auto simp: SetWithdrawal_def)
  qed
qed (use coh in \<open>simp_all add: SetWithdrawal_def\<close>)

lemma wd_coherent_delete:
  assumes coh: "wd_coherent s" and w: "kv_get (st_wd_signer s) (w_Signer w, w_Requested w) = Some w"
  shows "wd_coherent (DeleteWithdrawal w s)"
proof (rule wd_coherentI, goal_cases)
  case (3 a r v)
  then have ne: "(a, r) \<noteq> (w_Signer w, w_Requested w)" and "kv_get (st_wd_signer s) (a, r) = Some v"
    by (auto simp: DeleteWithdrawal_def split: if_splits)
  from wd_signerD [OF coh this(2)] ne show ?case by (auto simp: DeleteWithdrawal_def)
next
  case (4 t r a v)
  then have ne: "(t, r, a) \<noteq> (w_Available w, w_Requested w, w_Signer w)"
    and "kv_get (st_wd_avail s) (t, r, a) = Some v"
    by (auto simp: DeleteWithdrawal_def split: if_splits)
  from wd_availD [OF coh this(2)] ne w show ?case by (auto simp: DeleteWithdrawal_def)
qed (use coh in \<open>simp_all add: DeleteWithdrawal_def\<close>)

lemma pp_hashD:
  assumes "pp_coherent s" and "kv_get (st_pp_hash s) h = Some p"
  shows "pp_Hash p = h" and "kv_get (st_pp_time s) (pp_ProcessedAt p, h) = Some p"
  using assms unfolding pp_coherent_def by blast+

lemma pp_timeD:
  assumes "pp_coherent s" and "kv_get (st_pp_time s) (t, h) = Some p"
  shows "pp_ProcessedAt p = t" and "kv_get (st_pp_hash s) h = Some p"
  using assms unfolding pp_coherent_def by blast+

lemma pp_coherentD [simp]:
  "pp_coherent s \<Longrightarrow> kv_ok (st_pp_hash s)" "pp_coherent s \<Longrightarrow> kv_ok (st_pp_time s)"
  by (simp_all add: pp_coherent_def)

lemma pp_coherentI:
  assumes "kv_ok (st_pp_hash s)" and "kv_ok (st_pp_time s)"
    and "\<And>h p. kv_get (st_pp_hash s) h = Some p \<Longrightarrow>
      pp_Hash p = h \<and> kv_get (st_pp_time s) (pp_ProcessedAt p, h) = Some p"
    and "\<And>t h p. kv_get (st_pp_time s) (t, h) = Some p \<Longrightarrow>
      pp_ProcessedAt p = t \<and> kv_get (st_pp_hash s) h = Some p"
  shows "pp_coherent s"
  using assms unfolding pp_coherent_def by blast

lemma pp_coherent_set:
  assumes coh: "pp_coherent s" and new: "kv_get (st_pp_hash s) (pp_Hash p) = None"
  shows "pp_coherent (SetProcessedPayment p s)"
proof (rule pp_coherentI, goal_cases)
  case (3 h q)
  with coh show ?case
    by (cases "h = pp_Hash p") (auto simp: SetProcessedPayment_def dest: pp_hashD)
next
  case (4 t h q)
  show ?case
  proof (cases "(t, h) = (pp_ProcessedAt p, pp_Hash p)")
    case False
    with 4 coh have "kv_get (st_pp_time s) (t, h) = Some q"
      by (auto simp: SetProcessedPayment_def split: if_splits)
    with pp_timeD [OF coh this] new coh show ?thesis by (auto simp: SetProcessedPayment_def)
  qed (use 4 coh in \<open>simp add: SetProcessedPayment_def\<close>)
qed (use coh in \<open>simp_all add: SetProcessedPayment_def\<close>)

lemma pp_coherent_delete:
  assumes coh: "pp_coherent s" and p: "kv_get (st_pp_hash s) (pp_Hash p) = Some p"
  shows "pp_coherent (DeleteProcessedPayment p s)"
proof (rule pp_coherentI, goal_cases)
  case (3 h q)
  then have "h \<noteq> pp_Hash p" and "kv_get (st_pp_hash s) h = Some q"
    by (auto simp: DeleteProcessedPayment_def split: if_splits)
  from this(1) pp_hashD [OF coh this(2)] show ?case by (auto simp: DeleteProcessedPayment_def)
next
  case (4 t h q)
  then have "(t, h) \<noteq> (pp_ProcessedAt p, pp_Hash p)" and "kv_get (st_pp_time s) (t, h) = Some q"
    by (auto simp: DeleteProcessedPayment_def split: if_splits)
  from this(1) pp_timeD [OF coh this(2)] p show ?case by (auto simp: DeleteProcessedPayment_def)
qed (use coh in \<open>simp_all add: DeleteProcessedPayment_def\<close>)

lemma pending_set:
  assumes "wd_coherent s"
  shows "pending (SetWithdrawal w s) a = pending s a + (if w_Signer w = a then amount (w_Amount w) -
     (case kv_get (st_wd_signer s) (a, w_Requested w) of None \<Rightarrow> 0 | Some w0 \<Rightarrow> amount (w_Amount w0))
     else 0)"
  using assms unfolding pending_def
  by (auto simp: SetWithdrawal_def kv_sum_set kv_weight_def split: option.splits)

lemma pending_delete:
  assumes "wd_coherent s" and "kv_get (st_wd_signer s) (w_Signer w, w_Requested w) = Some w"
  shows "pending (DeleteWithdrawal w s) a =
    pending s a - (if w_Signer w = a then amount (w_Amount w) else 0)"
  using assms unfolding pending_def
  by (simp add: DeleteWithdrawal_def kv_sum_del kv_weight_def)

lemma escrowed_set:
  assumes "kv_ok (st_escrow s)"
  shows "escrowed (SetEscrowAccount e s) d = escrowed s d
    - (case kv_get (st_escrow s) (e_Signer e) of None \<Rightarrow> 0
       | Some x \<Rightarrow> if denom (e_Balance x) = d then amount (e_Balance x) else 0)
    + (if denom (e_Balance e) = d then amount (e_Balance e) else 0)"
  using assms unfolding escrowed_def
  by (simp add: SetEscrowAccount_def kv_sum_set kv_weight_def)

lemma wd_fundedD:
  assumes "wd_funded E s" and "kv_get (st_wd_signer s) (a, r) = Some w"
  shows "0 < amount (w_Amount w)"
    and "\<exists>e. kv_get (st_escrow s) a = Some e \<and> denom (w_Amount w) = denom (e_Balance e)"
  using assms unfolding wd_funded_def by blast+

lemma escrows_okD:
  assumes "escrows_ok E s" and "kv_get (st_escrow s) a = Some e"
  shows "e_Signer e = a" and "\<exists>addr. AccAddressFromBech32 E a = Some addr"
    and "valid_denom E (denom (e_Balance e))" and "denom (e_Available e) = denom (e_Balance e)"
    and "0 \<le> amount (e_Available e)" and "amount (e_Balance e) = amount (e_Available e) + pending s a"
  using assms unfolding escrows_ok_def by blast+

lemma escrows_ok_kv [simp]: "escrows_ok E s \<Longrightarrow> kv_ok (st_escrow s)"
  by (simp add: escrows_ok_def)

lemma pending_nonneg:
  assumes "wd_coherent s" and "wd_funded E s"
  shows "0 \<le> pending s a"
proof -
  have "0 \<le> (if fst k = a then amount (w_Amount w) else 0)" if "(k, w) \<in> set (st_wd_signer s)" for k w
  proof -
    have "kv_get (st_wd_signer s) (fst k, snd k) = Some w" using that assms by (simp add: kv_mem_iff)
    from wd_fundedD(1) [OF assms(2) this] show ?thesis by simp
  qed
  then show ?thesis unfolding pending_def by (rule kv_sum_nonneg)
qed

lemma fibre_invD:
  assumes "fibre_inv E s"
  shows "wd_coherent s" and "pp_coherent s" and "wd_funded E s" and "escrows_ok E s" and "solvent s"
  using assms by (simp_all add: fibre_inv_def)

section \<open>Reducing pending withdrawals\<close>

text \<open>
  What a settlement may do to the withdrawals: only withdrawals of the signer shrink or disappear, by
  \<open>n\<close> in total, both indexes stay in step and no other part of the state changes.
\<close>

definition reduces :: "string \<Rightarrow> int \<Rightarrow> fibre_state \<Rightarrow> fibre_state \<Rightarrow> bool" where
  "reduces a n s s' \<longleftrightarrow>
     s' = s\<lparr>st_wd_signer := st_wd_signer s', st_wd_avail := st_wd_avail s'\<rparr> \<and> wd_coherent s' \<and>
     (\<forall>b. pending s' b = pending s b - (if b = a then n else 0)) \<and>
     (\<forall>k w. kv_get (st_wd_signer s') k = Some w \<longrightarrow>
        (\<exists>w0. kv_get (st_wd_signer s) k = Some w0 \<and> denom (w_Amount w) = denom (w_Amount w0) \<and>
          (0 < amount (w_Amount w0) \<longrightarrow> 0 < amount (w_Amount w))))"

lemma reduces_refl: "wd_coherent s \<Longrightarrow> reduces a 0 s s"
  by (auto simp: reduces_def)

lemma reduces_trans:
  assumes "reduces a m s t" and "reduces a n t u"
  shows "reduces a (m + n) s u"
proof -
  have "u = s\<lparr>st_wd_signer := st_wd_signer u, st_wd_avail := st_wd_avail u\<rparr>"
    using assms unfolding reduces_def by (metis fibre_state.update_convs(4,5) fibre_state.surjective)
  moreover have "\<forall>k w. kv_get (st_wd_signer u) k = Some w \<longrightarrow>
      (\<exists>w0. kv_get (st_wd_signer s) k = Some w0 \<and> denom (w_Amount w) = denom (w_Amount w0) \<and>
        (0 < amount (w_Amount w0) \<longrightarrow> 0 < amount (w_Amount w)))"
    using assms unfolding reduces_def by metis
  ultimately show ?thesis using assms unfolding reduces_def by simp
qed

lemma reduces_delete:
  assumes coh: "wd_coherent s" and w: "kv_get (st_wd_signer s) (w_Signer w, w_Requested w) = Some w"
  shows "reduces (w_Signer w) (amount (w_Amount w)) s (DeleteWithdrawal w s)"
  unfolding reduces_def
proof (intro conjI allI impI)
  fix k v assume "kv_get (st_wd_signer (DeleteWithdrawal w s)) k = Some v"
  then have "kv_get (st_wd_signer s) k = Some v"
    by (simp add: DeleteWithdrawal_def split: if_splits)
  then show "\<exists>w0. kv_get (st_wd_signer s) k = Some w0 \<and> denom (w_Amount v) = denom (w_Amount w0) \<and>
      (0 < amount (w_Amount w0) \<longrightarrow> 0 < amount (w_Amount v))" by blast
qed (use wd_coherent_delete [OF assms] pending_delete [OF assms] in \<open>auto simp: DeleteWithdrawal_def\<close>)

lemma reduces_shrink:
  assumes coh: "wd_coherent s" and w: "kv_get (st_wd_signer s) (w_Signer w, w_Requested w) = Some w"
    and c: "denom c = denom (w_Amount w)" "0 < amount c"
  shows "reduces (w_Signer w) (amount (w_Amount w) - amount c) s (SetWithdrawal (w\<lparr>w_Amount := c\<rparr>) s)"
  unfolding reduces_def
proof (intro conjI allI impI)
  show "wd_coherent (SetWithdrawal (w\<lparr>w_Amount := c\<rparr>) s)"
    using coh w by (intro wd_coherent_set) simp_all
  fix b
  show "pending (SetWithdrawal (w\<lparr>w_Amount := c\<rparr>) s) b =
      pending s b - (if b = w_Signer w then amount (w_Amount w) - amount c else 0)"
    using w by (auto simp: pending_set [OF coh])
next
  fix k v assume "kv_get (st_wd_signer (SetWithdrawal (w\<lparr>w_Amount := c\<rparr>) s)) k = Some v"
  then have "k = (w_Signer w, w_Requested w) \<and> v = w\<lparr>w_Amount := c\<rparr> \<or> kv_get (st_wd_signer s) k = Some v"
    using coh by (simp add: SetWithdrawal_def split: if_splits)
  then show "\<exists>w0. kv_get (st_wd_signer s) k = Some w0 \<and> denom (w_Amount v) = denom (w_Amount w0) \<and>
      (0 < amount (w_Amount w0) \<longrightarrow> 0 < amount (w_Amount v))" using w c by auto
qed (simp add: SetWithdrawal_def)

abbreviation listed :: "fibre_state \<Rightarrow> string \<Rightarrow> string \<Rightarrow> withdrawal \<Rightarrow> bool" where
  "listed s a d w \<equiv> kv_get (st_wd_signer s) (a, w_Requested w) = Some w \<and> w_Signer w = a \<and>
     denom (w_Amount w) = d \<and> 0 < amount (w_Amount w)"

lemma listed_delete:
  "listed s a d v \<Longrightarrow> w_Requested v \<noteq> w_Requested w \<Longrightarrow> listed (DeleteWithdrawal w s) a d v"
  by (auto simp: DeleteWithdrawal_def)

lemma reduce_zero: "coin_laws E \<Longrightarrow> amount c = 0 \<Longrightarrow> reduce_withdrawals E ws c s = Inr (c, s)"
  by (cases ws) simp_all

text \<open>The loop consumes the listed withdrawals up to the remaining amount, and never fails.\<close>

lemma reduce_withdrawals_spec:
  assumes laws: "coin_laws E" and d: "valid_denom E d"
  shows "wd_coherent s \<Longrightarrow> \<forall>w\<in>set ws. listed s a d w \<Longrightarrow> distinct (map w_Requested ws) \<Longrightarrow>
    denom c = d \<Longrightarrow> 0 \<le> amount c \<Longrightarrow>
    \<exists>c' s'. reduce_withdrawals E ws c s = Inr (c', s') \<and> denom c' = d \<and>
      amount c' = max 0 (amount c - (\<Sum>w\<leftarrow>ws. amount (w_Amount w))) \<and>
      reduces a (amount c - amount c') s s'"
proof (induction ws arbitrary: c s)
  case Nil
  then show ?case by (auto simp: reduces_refl)
next
  case (Cons w ws)
  have w: "listed s a d w" using Cons.prems(2) by simp
  have pos: "0 \<le> (\<Sum>w\<leftarrow>ws. amount (w_Amount w))"
    using Cons.prems(2) by (intro sum_list_nonneg) auto
  consider "amount c = 0" | "0 < amount c" "amount (w_Amount w) \<le> amount c"
    | "0 < amount c" "amount c < amount (w_Amount w)" using Cons.prems(5) by linarith
  then show ?case
  proof cases
    case 1
    have "reduces a (amount c - amount c) s s" using reduces_refl Cons.prems(1) by simp
    with reduce_zero [OF laws 1, of "w # ws" s] show ?thesis
      using 1 Cons.prems(4) w pos by (intro exI [of _ c] exI [of _ s]) simp
  next
    case 2
    let ?c = "c\<lparr>amount := amount c - amount (w_Amount w)\<rparr>" and ?s = "DeleteWithdrawal w s"
    have del: "reduces a (amount (w_Amount w)) s ?s"
      using reduces_delete [OF Cons.prems(1)] w by auto
    have later: "\<forall>v\<in>set ws. listed ?s a d v"
    proof
      fix v assume v: "v \<in> set ws"
      then have "w_Requested v \<noteq> w_Requested w" using Cons.prems(3) by (auto simp: image_iff)
      moreover have "listed s a d v" using Cons.prems(2) v by simp
      ultimately show "listed ?s a d v" by (intro listed_delete)
    qed
    have prems: "wd_coherent ?s" "distinct (map w_Requested ws)" "denom ?c = d" "0 \<le> amount ?c"
      using wd_coherent_delete [OF Cons.prems(1)] w Cons.prems(3,4) 2 by simp_all
    obtain c' s' where ih: "reduce_withdrawals E ws ?c ?s = Inr (c', s')"
      "denom c' = d" "amount c' = max 0 (amount ?c - (\<Sum>w\<leftarrow>ws. amount (w_Amount w)))"
      "reduces a (amount ?c - amount c') ?s s'"
      using Cons.IH [OF prems(1) later prems(2-4)] by blast
    have "reduce_withdrawals E (w # ws) c s = Inr (c', s')"
      using laws 2 w Cons.prems(4) ih(1) by simp
    moreover have "reduces a (amount c - amount c') s s'" using reduces_trans [OF del ih(4)] by simp
    ultimately show ?thesis using ih(2,3) by auto
  next
    case 3
    let ?r = "(w_Amount w)\<lparr>amount := amount (w_Amount w) - amount c\<rparr>"
    have "reduces a (amount (w_Amount w) - amount ?r) s (SetWithdrawal (w\<lparr>w_Amount := ?r\<rparr>) s)"
      using reduces_shrink [OF Cons.prems(1), of w ?r] w 3 by auto
    moreover have "reduce_withdrawals E (w # ws) c s =
        Inr (\<lparr>denom = d, amount = 0\<rparr>, SetWithdrawal (w\<lparr>w_Amount := ?r\<rparr>) s)"
      using laws 3 w d Cons.prems(4) by (simp add: reduce_zero)
    ultimately show ?thesis using 3 pos by auto
  qed
qed

text \<open>With account addresses prefix-free, a signer's range holds that signer's withdrawals only.\<close>

lemma signer_range_exact:
  assumes addr: "addr_laws E" and coh: "wd_coherent s" and fund: "wd_funded E s"
    and esc: "escrows_ok E s" and e: "kv_get (st_escrow s) a = Some e"
  shows "GetWithdrawalsBySigner s a = map snd (filter (\<lambda>x. fst (fst x) = a) (st_wd_signer s))"
proof -
  have "prefix a (fst k) \<longleftrightarrow> fst k = a" if "(k, w) \<in> set (st_wd_signer s)" for k w
  proof -
    have "kv_get (st_wd_signer s) (fst k, snd k) = Some w" using that coh by (simp add: kv_mem_iff)
    then obtain e' where "kv_get (st_escrow s) (fst k) = Some e'" using wd_fundedD(2) [OF fund] by blast
    then obtain x y where "AccAddressFromBech32 E (fst k) = Some x" "AccAddressFromBech32 E a = Some y"
      using escrows_okD(2) [OF esc] e by blast
    with addr_prefix_free [OF addr] show ?thesis by auto
  qed
  then have "filter (\<lambda>x. prefix a (fst (fst x))) (st_wd_signer s) =
      filter (\<lambda>x. fst (fst x) = a) (st_wd_signer s)"
    by (intro filter_cong) auto
  then show ?thesis by (simp add: GetWithdrawalsBySigner_def)
qed

lemma signer_list_sum:
  "(\<Sum>w\<leftarrow>map snd (filter (\<lambda>x. fst (fst x) = a) (st_wd_signer s)). amount (w_Amount w)) = pending s a"
  by (simp add: pending_def kv_sum_def sum_list_map_filter' comp_def)

lemma signer_list_distinct:
  assumes "wd_coherent s"
  shows "distinct (map w_Requested (map snd (filter (\<lambda>x. fst (fst x) = a) (st_wd_signer s))))"
proof -
  let ?l = "filter (\<lambda>x. fst (fst x) = a) (st_wd_signer s)"
  have "w_Requested (snd x) = snd (fst x)" if "x \<in> set ?l" for x
  proof -
    obtain b r w where x: "x = ((b, r), w)" by (metis surj_pair)
    with that assms have "kv_get (st_wd_signer s) (b, r) = Some w" by (auto simp: kv_mem_iff)
    with wd_signerD(2) [OF assms this] x show ?thesis by simp
  qed
  then have "map w_Requested (map snd ?l) = map (snd \<circ> fst) ?l" by (simp add: comp_def)
  moreover have dist: "distinct (map fst ?l)" using kv_distinct [of ?l] assms by simp
  have "inj_on (snd \<circ> fst) (set ?l)"
  proof (rule inj_onI)
    fix x y assume xy: "x \<in> set ?l" "y \<in> set ?l" "(snd \<circ> fst) x = (snd \<circ> fst) y"
    then have "fst x = fst y" by (auto simp: prod_eq_iff)
    then show "x = y" using dist xy(1,2) unfolding distinct_map by (meson inj_onD)
  qed
  moreover have "distinct ?l" using dist by (simp only: distinct_map)
  ultimately show ?thesis by (metis distinct_map)
qed

lemma signer_list_listed:
  assumes coh: "wd_coherent s" and fund: "wd_funded E s" and e: "kv_get (st_escrow s) a = Some e"
    and w: "w \<in> set (map snd (filter (\<lambda>x. fst (fst x) = a) (st_wd_signer s)))"
  shows "listed s a (denom (e_Balance e)) w"
proof -
  from w obtain r where "((a, r), w) \<in> set (st_wd_signer s)" by auto
  then have g: "kv_get (st_wd_signer s) (a, r) = Some w" using coh by (simp add: kv_mem_iff)
  from wd_signerD [OF coh g] wd_fundedD [OF fund g] g e show ?thesis by auto
qed

text \<open>A shortfall that the pending withdrawals cover is taken from them exactly.\<close>

lemma ReduceWithdrawals_spec:
  assumes laws: "sdk_laws E" and coh: "wd_coherent s" and fund: "wd_funded E s"
    and rng: "GetWithdrawalsBySigner s a = map snd (filter (\<lambda>x. fst (fst x) = a) (st_wd_signer s))"
    and e: "kv_get (st_escrow s) a = Some e" and d: "denom c = denom (e_Balance e)"
    and v: "valid_denom E (denom c)" and c: "0 \<le> amount c" "amount c \<le> pending s a"
  shows "\<exists>s'. ReduceWithdrawalsForPayment E a c s = Inr s' \<and> reduces a (amount c) s s'"
proof -
  let ?ws = "GetWithdrawalsBySigner s a"
  have cl: "coin_laws E" using laws by simp
  have "\<forall>w\<in>set ?ws. listed s a (denom c) w"
    unfolding rng d by (intro ballI signer_list_listed [OF coh fund e])
  moreover have "distinct (map w_Requested ?ws)" unfolding rng by (rule signer_list_distinct [OF coh])
  ultimately obtain c' s' where r: "reduce_withdrawals E ?ws c s = Inr (c', s')"
    "amount c' = max 0 (amount c - (\<Sum>w\<leftarrow>?ws. amount (w_Amount w)))"
    "reduces a (amount c - amount c') s s'"
    using reduce_withdrawals_spec [OF cl v coh, of ?ws a c] c(1) by blast
  have "amount c' = 0" using r(2) c(2) unfolding rng signer_list_sum by simp
  with r show ?thesis using laws by (auto simp: ReduceWithdrawalsForPayment_def)
qed

section \<open>Frames\<close>

text \<open>Writes to one part of the state leave the predicates on the others alone.\<close>

lemma wd_coherent_cong:
  "st_wd_signer s = st_wd_signer t \<Longrightarrow> st_wd_avail s = st_wd_avail t \<Longrightarrow> wd_coherent s = wd_coherent t"
  by (simp only: wd_coherent_def)

lemma pp_coherent_cong:
  "st_pp_hash s = st_pp_hash t \<Longrightarrow> st_pp_time s = st_pp_time t \<Longrightarrow> pp_coherent s = pp_coherent t"
  by (simp only: pp_coherent_def)

lemma wd_coherent_frame [simp]:
  "wd_coherent (s\<lparr>st_bank := b\<rparr>) = wd_coherent s" "wd_coherent (s\<lparr>st_escrow := x\<rparr>) = wd_coherent s"
  "wd_coherent (s\<lparr>st_events := l\<rparr>) = wd_coherent s" "wd_coherent (s\<lparr>st_params := p\<rparr>) = wd_coherent s"
  "wd_coherent (s\<lparr>st_floor := t\<rparr>) = wd_coherent s" "wd_coherent (s\<lparr>st_pp_hash := h\<rparr>) = wd_coherent s"
  "wd_coherent (s\<lparr>st_pp_time := i\<rparr>) = wd_coherent s"
  by (rule wd_coherent_cong, simp, simp)+

lemma pp_coherent_frame [simp]:
  "pp_coherent (s\<lparr>st_bank := b\<rparr>) = pp_coherent s" "pp_coherent (s\<lparr>st_escrow := x\<rparr>) = pp_coherent s"
  "pp_coherent (s\<lparr>st_events := l\<rparr>) = pp_coherent s" "pp_coherent (s\<lparr>st_params := p\<rparr>) = pp_coherent s"
  "pp_coherent (s\<lparr>st_floor := t\<rparr>) = pp_coherent s" "pp_coherent (s\<lparr>st_wd_signer := h\<rparr>) = pp_coherent s"
  "pp_coherent (s\<lparr>st_wd_avail := i\<rparr>) = pp_coherent s"
  by (rule pp_coherent_cong, simp, simp)+

lemma pending_frame [simp]:
  "pending (s\<lparr>st_bank := b\<rparr>) = pending s" "pending (s\<lparr>st_escrow := x\<rparr>) = pending s"
  "pending (s\<lparr>st_events := l\<rparr>) = pending s" "pending (s\<lparr>st_params := p\<rparr>) = pending s"
  "pending (s\<lparr>st_floor := t\<rparr>) = pending s" "pending (s\<lparr>st_pp_hash := h\<rparr>) = pending s"
  "pending (s\<lparr>st_pp_time := i\<rparr>) = pending s"
  by (simp_all add: pending_def fun_eq_iff)

lemma escrow_write_frame [simp]:
  "wd_coherent (SetEscrowAccount e s) = wd_coherent s" "pending (SetEscrowAccount e s) = pending s"
  "pp_coherent (SetEscrowAccount e s) = pp_coherent s"
  by (simp_all add: SetEscrowAccount_def)

end
