(* ===== verification/FibreSafety.thy ===== *)
theory FibreSafety
  imports FibreInv
begin

text \<open>
  Every transition of x/fibre keeps the invariant of \<open>FibreInv\<close>: one lemma for the change of a single
  escrow account, one specification per operation over it, and the interpretation of the reachability
  interface that lifts them to every reachable state.
\<close>

section \<open>Changing one account\<close>

abbreviation old_balance :: "fibre_state \<Rightarrow> string \<Rightarrow> int" where
  "old_balance s a \<equiv> (case kv_get (st_escrow s) a of None \<Rightarrow> 0 | Some e \<Rightarrow> amount (e_Balance e))"

lemma fibre_inv_update:
  assumes inv: "fibre_inv E s"
    and acct: "e_Signer e' = a" "AccAddressFromBech32 E a \<noteq> None" "valid_denom E (denom (e_Balance e'))"
      "denom (e_Available e') = denom (e_Balance e')" "0 \<le> amount (e_Available e')"
      "amount (e_Balance e') = amount (e_Available e') + pending s' a"
    and same: "\<And>e. kv_get (st_escrow s) a = Some e \<Longrightarrow> denom (e_Balance e) = denom (e_Balance e')"
    and st: "st_escrow s' = kv_set a e' (st_escrow s)" "st_pp_hash s' = st_pp_hash s"
      "st_pp_time s' = st_pp_time s"
    and coh: "wd_coherent s'" and others: "\<And>b. b \<noteq> a \<Longrightarrow> pending s' b = pending s b"
    and wds: "\<And>b r w. kv_get (st_wd_signer s') (b, r) = Some w \<Longrightarrow> 0 < amount (w_Amount w) \<and>
      (b = a \<and> denom (w_Amount w) = denom (e_Balance e') \<or>
       (\<exists>w0. kv_get (st_wd_signer s) (b, r) = Some w0 \<and> denom (w_Amount w) = denom (w_Amount w0)))"
    and bank: "\<And>d. st_bank s (ModAcct ModuleName) d +
        (if denom (e_Balance e') = d then amount (e_Balance e') - old_balance s a else 0)
      \<le> st_bank s' (ModAcct ModuleName) d"
  shows "fibre_inv E s'"
proof -
  note I = fibre_invD [OF inv]
  have get: "kv_get (st_escrow s') b = (if b = a then Some e' else kv_get (st_escrow s) b)" for b
    using I(4) st(1) by simp
  have "pp_coherent s'" using I(2) unfolding pp_coherent_def st(2,3) .
  moreover have "wd_funded E s'"
    unfolding wd_funded_def
  proof (intro allI impI)
    fix b r w assume w: "kv_get (st_wd_signer s') (b, r) = Some w"
    show "0 < amount (w_Amount w) \<and> (\<exists>e. kv_get (st_escrow s') b = Some e \<and>
        denom (w_Amount w) = denom (e_Balance e))"
    proof (cases "b = a")
      case True
      then show ?thesis using wds [OF w] wd_fundedD(2) [OF I(3)] same get by metis
    next
      case False
      then show ?thesis using wds [OF w] wd_fundedD(2) [OF I(3)] get by metis
    qed
  qed
  moreover have "escrows_ok E s'"
    unfolding escrows_ok_def
  proof (rule conjI; (intro allI impI)?)
    show "kv_ok (st_escrow s')" using I(4) st(1) by simp
    fix b e assume e: "kv_get (st_escrow s') b = Some e"
    show "e_Signer e = b \<and> AccAddressFromBech32 E b \<noteq> None \<and> valid_denom E (denom (e_Balance e)) \<and>
      denom (e_Available e) = denom (e_Balance e) \<and> 0 \<le> amount (e_Available e) \<and>
      amount (e_Balance e) = amount (e_Available e) + pending s' b"
    proof (cases "b = a")
      case True
      with e get have "e = e'" by simp
      with acct True show ?thesis by simp
    next
      case False
      with e get have "kv_get (st_escrow s) b = Some e" by simp
      from escrows_okD [OF I(4) this] others [OF False] show ?thesis by auto
    qed
  qed
  moreover have "solvent s'"
    unfolding solvent_def
  proof
    fix d
    have "escrowed s' d = escrowed (SetEscrowAccount e' s) d"
      using st(1) acct(1) by (simp add: escrowed_def SetEscrowAccount_def)
    also have "\<dots> = escrowed s d +
        (if denom (e_Balance e') = d then amount (e_Balance e') - old_balance s a else 0)"
    proof (cases "kv_get (st_escrow s) a")
      case (Some e)
      with same [OF Some] show ?thesis
        using escrowed_set [OF escrows_ok_kv [OF I(4)], of e' d] unfolding acct(1) by simp
    qed (use escrowed_set [OF escrows_ok_kv [OF I(4)], of e' d] acct(1) in simp)
    finally have "escrowed s' d = escrowed s d +
        (if denom (e_Balance e') = d then amount (e_Balance e') - old_balance s a else 0)" .
    moreover have "escrowed s d \<le> st_bank s (ModAcct ModuleName) d"
      using I(5) unfolding solvent_def by blast
    ultimately show "escrowed s' d \<le> st_bank s' (ModAcct ModuleName) d"
      using bank [of d] by linarith
  qed
  ultimately show ?thesis using coh by (simp add: fibre_inv_def)
qed

lemma balance_nonneg:
  assumes "fibre_inv E s" and "kv_get (st_escrow s) a = Some e"
  shows "0 \<le> amount (e_Balance e)"
  using escrows_okD(5,6) [OF fibre_invD(4) [OF assms(1)] assms(2)]
    pending_nonneg [OF fibre_invD(1) [OF assms(1)] fibre_invD(3) [OF assms(1)], of a] by linarith

lemma balance_covered:
  assumes inv: "fibre_inv E s" and e: "kv_get (st_escrow s) a = Some e"
  shows "amount (e_Balance e) \<le> st_bank s (ModAcct ModuleName) (denom (e_Balance e))"
proof -
  let ?f = "\<lambda>_ x. if denom (e_Balance x) = denom (e_Balance e) then amount (e_Balance x) else 0"
  have "kv.weight ?f (st_escrow s) a \<le> kv_sum ?f (st_escrow s)"
  proof (rule kv_sum_ge_weight)
    fix k v assume "kv_get (st_escrow s) k = Some v"
    from balance_nonneg [OF inv this] show "0 \<le> ?f k v" by simp
  qed (rule escrows_ok_kv [OF fibre_invD(4) [OF inv]])
  then have "amount (e_Balance e) \<le> escrowed s (denom (e_Balance e))"
    using e by (simp add: kv_weight_def escrowed_def)
  also have "\<dots> \<le> st_bank s (ModAcct ModuleName) (denom (e_Balance e))"
    using fibre_invD(5) [OF inv] unfolding solvent_def by blast
  finally show ?thesis .
qed

section \<open>Settling a payment\<close>

text \<open>
  The effect of a settlement: the signer's balance falls by the price, the available part first and
  the pending withdrawals for the rest; exactly the price moves to the fee collector; nothing else
  changes.
\<close>

definition settled :: "string \<Rightarrow> coin \<Rightarrow> fibre_state \<Rightarrow> fibre_state \<Rightarrow> bool" where
  "settled a pay s s' \<longleftrightarrow>
     (\<exists>e e'. kv_get (st_escrow s) a = Some e \<and> kv_get (st_escrow s') a = Some e' \<and>
        amount (e_Balance e') = amount (e_Balance e) - amount pay \<and>
        amount (e_Available e') = max 0 (amount (e_Available e) - amount pay) \<and>
        pending s' a = pending s a - max 0 (amount pay - amount (e_Available e))) \<and>
     st_bank s' = move_coins (ModAcct ModuleName) (ModAcct FeeCollectorName) [pay] (st_bank s) \<and>
     (\<forall>b. b \<noteq> a \<longrightarrow> kv_get (st_escrow s') b = kv_get (st_escrow s) b \<and> pending s' b = pending s b) \<and>
     st_params s' = st_params s \<and> st_floor s' = st_floor s \<and>
     st_pp_hash s' = st_pp_hash s \<and> st_pp_time s' = st_pp_time s"

lemma reducesD:
  assumes "reduces a n s s'"
  shows "wd_coherent s'" and "pending s' b = pending s b - (if b = a then n else 0)"
    and "st_escrow s' = st_escrow s" and "st_bank s' = st_bank s" and "st_params s' = st_params s"
    and "st_floor s' = st_floor s" and "st_pp_hash s' = st_pp_hash s" and "st_pp_time s' = st_pp_time s"
    and "st_events s' = st_events s"
proof -
  have "s' = s\<lparr>st_wd_signer := st_wd_signer s', st_wd_avail := st_wd_avail s'\<rparr>"
    using assms unfolding reduces_def by blast
  then obtain x y where "s' = s\<lparr>st_wd_signer := x, st_wd_avail := y\<rparr>" by blast
  then show "st_escrow s' = st_escrow s" "st_bank s' = st_bank s" "st_params s' = st_params s"
    "st_floor s' = st_floor s" "st_pp_hash s' = st_pp_hash s" "st_pp_time s' = st_pp_time s"
    "st_events s' = st_events s" by simp_all
  show "wd_coherent s'" "pending s' b = pending s b - (if b = a then n else 0)"
    using assms unfolding reduces_def by blast+
qed

lemma reduces_entry:
  assumes "reduces a n s s'" and "kv_get (st_wd_signer s') k = Some w"
  shows "\<exists>w0. kv_get (st_wd_signer s) k = Some w0 \<and> denom (w_Amount w) = denom (w_Amount w0) \<and>
    (0 < amount (w_Amount w0) \<longrightarrow> 0 < amount (w_Amount w))"
  using assms unfolding reduces_def by blast

text \<open>The withdrawals after the account is written and the shortfall taken.\<close>

lemma shortfall_spec:
  assumes laws: "sdk_laws E" and inv: "fibre_inv E s" and e: "kv_get (st_escrow s) a = Some e"
    and d: "denom c = denom (e_Balance e)" and c: "0 \<le> amount c" "amount c \<le> pending s a"
    and e': "e_Signer e' = a" "denom (e_Balance e') = denom (e_Balance e)"
  shows "\<exists>s2. (if coin_IsPositive E c then ReduceWithdrawalsForPayment E a c (SetEscrowAccount e' s)
      else Inr (SetEscrowAccount e' s)) = Inr s2 \<and> reduces a (amount c) (SetEscrowAccount e' s) s2"
proof -
  let ?s = "SetEscrowAccount e' s"
  note I = fibre_invD [OF inv]
  have wd: "st_wd_signer ?s = st_wd_signer s" "st_wd_avail ?s = st_wd_avail s"
    "pending ?s = pending s" by (simp_all add: SetEscrowAccount_def pending_def fun_eq_iff)
  have coh: "wd_coherent ?s" using I(1) unfolding wd_coherent_def wd .
  have get: "kv_get (st_escrow ?s) b = (if b = a then Some e' else kv_get (st_escrow s) b)" for b
    using escrows_ok_kv [OF I(4)] e'(1) by (simp add: SetEscrowAccount_def)
  have fund: "wd_funded E ?s"
    unfolding wd_funded_def wd get
  proof (intro allI impI)
    fix b r w assume w: "kv_get (st_wd_signer s) (b, r) = Some w"
    show "0 < amount (w_Amount w) \<and> (\<exists>x. (if b = a then Some e' else kv_get (st_escrow s) b) = Some x \<and>
        denom (w_Amount w) = denom (e_Balance x))"
      using wd_fundedD [OF I(3) w] e e'(2) by (cases "b = a") auto
  qed
  have rng: "GetWithdrawalsBySigner ?s a =
      map snd (filter (\<lambda>x. fst (fst x) = a) (st_wd_signer ?s))"
    using signer_range_exact [OF _ I(1,3,4) e] laws by (simp add: GetWithdrawalsBySigner_def wd)
  show ?thesis
  proof (cases "0 < amount c")
    case True
    have "valid_denom E (denom c)" using escrows_okD(3) [OF I(4) e] d by simp
    from ReduceWithdrawals_spec [OF laws coh fund rng _ _ this c(1), of e'] True
    show ?thesis using laws get d e'(2) c(2) wd(3) by simp
  next
    case False
    then have "amount c = 0" using c(1) by simp
    then show ?thesis using laws reduces_refl [OF coh] by simp
  qed
qed

text \<open>A settlement the balance covers always succeeds.\<close>

lemma deduct_spec:
  assumes laws: "sdk_laws E" and inv: "fibre_inv E s" and e: "kv_get (st_escrow s) a = Some e"
    and pay: "denom pay = denom (e_Balance e)" "0 < amount pay" "amount pay \<le> amount (e_Balance e)"
  shows "\<exists>s'. deductPaymentFromEscrow E e pay s = Inr s' \<and> fibre_inv E s' \<and> settled a pay s s' \<and>
    st_events s' = st_events s"
proof -
  note I = fibre_invD [OF inv] and O = escrows_okD [OF fibre_invD(4) [OF inv] e]
  define ded where "ded = (if amount (e_Available e) < amount pay then e_Available e else pay)"
  define short where "short = pay\<lparr>amount := amount pay - amount ded\<rparr>"
  define e' where "e' = e\<lparr>e_Balance := (e_Balance e)\<lparr>amount := amount (e_Balance e) - amount pay\<rparr>,
    e_Available := (e_Available e)\<lparr>amount := amount (e_Available e) - amount ded\<rparr>\<rparr>"
  have dd: "denom ded = denom pay" "amount ded \<le> amount (e_Available e)" "amount ded \<le> amount pay"
    "amount ded = min (amount (e_Available e)) (amount pay)"
    using O(4) pay(1) by (auto simp: ded_def)
  have sh: "denom short = denom (e_Balance e)" "0 \<le> amount short" "amount short \<le> pending s a"
    "e_Signer e' = a" "denom (e_Balance e') = denom (e_Balance e)"
    using O(1,6) dd pay pending_nonneg [OF I(1,3), of a] by (simp_all add: short_def e'_def)
  obtain s2 where s2: "(if coin_IsPositive E short then
      ReduceWithdrawalsForPayment E a short (SetEscrowAccount e' s)
      else Inr (SetEscrowAccount e' s)) = Inr s2" "reduces a (amount short) (SetEscrowAccount e' s) s2"
    using shortfall_spec [OF laws inv e sh] by blast
  define s' where "s' = s2\<lparr>st_bank := move_coins (ModAcct ModuleName) (ModAcct FeeCollectorName) [pay]
    (st_bank s)\<rparr>"
  note R = reducesD [OF s2(2)]
  have f: "st_escrow s2 = kv_set a e' (st_escrow s)" "st_bank s2 = st_bank s"
    "st_params s2 = st_params s" "st_floor s2 = st_floor s" "st_pp_hash s2 = st_pp_hash s"
    "st_pp_time s2 = st_pp_time s" "st_events s2 = st_events s"
    "\<And>b. pending s2 b = pending s b - (if b = a then amount short else 0)"
    using R sh(4) by (simp_all add: SetEscrowAccount_def pending_def)
  have cov: "amount pay \<le> st_bank s (ModAcct ModuleName) (denom pay)"
    using balance_covered [OF inv e] pay by simp
  have ops: "coin_IsLT E (e_Balance e) pay = Some False"
    "coin_IsLT E (e_Available e) pay = Some (amount (e_Available e) < amount pay)"
    "coin_Sub E (e_Balance e) pay = Some (e_Balance e')"
    "coin_Sub E (e_Available e) ded = Some (e_Available e')" "coin_Sub E pay ded = Some short"
    "new_coins E pay = Some [pay]"
    "SendCoinsFromModuleToModule E (st_bank s2) ModuleName FeeCollectorName [pay] = Some (st_bank s')"
    using laws pay O(3,4) dd(1-3) cov f(2) by (simp_all add: e'_def short_def s'_def)
  have upd: "e\<lparr>e_Balance := e_Balance e', e_Available := e_Available e'\<rparr> = e'"
    "s2\<lparr>st_bank := st_bank s'\<rparr> = s'" by (simp_all add: e'_def s'_def)
  have run: "deductPaymentFromEscrow E e pay s = Inr s'"
    by (simp only: deductPaymentFromEscrow_def Let_def ops of_opt_simps rbind.simps require_simps
        not_False_eq_True ded_def [symmetric] upd O(1) s2(1))
  have get: "kv_get (st_escrow s') b = (if b = a then Some e' else kv_get (st_escrow s) b)" for b
    using escrows_ok_kv [OF I(4)] f(1) by (simp add: s'_def)
  have pend: "pending s' = pending s2" by (simp add: s'_def)
  have "fibre_inv E s'"
  proof (rule fibre_inv_update [OF inv, where a = a and e' = e'], goal_cases)
    case 6
    then show ?case using O(6) by (simp add: pend f(8) e'_def short_def)
  next
    case (13 b r w)
    then have "kv_get (st_wd_signer s2) (b, r) = Some w" by (simp add: s'_def)
    from reduces_entry [OF s2(2) this] obtain w0 where w0: "kv_get (st_wd_signer s) (b, r) = Some w0"
      "denom (w_Amount w) = denom (w_Amount w0)" "0 < amount (w_Amount w0) \<longrightarrow> 0 < amount (w_Amount w)"
      by (auto simp: SetEscrowAccount_def)
    then show ?case using wd_fundedD(1) [OF I(3) w0(1)] by blast
  next
    case (14 d)
    then show ?case using e pay(1)
      by (simp add: s'_def move_coins_apply e'_def ModuleName_def FeeCollectorName_def)
  next
    case 11
    then show ?case using R(1) by (simp add: s'_def)
  qed (use O dd e pay f sh(4) pend in \<open>simp_all add: s'_def e'_def\<close>)
  moreover have "settled a pay s s'"
    unfolding settled_def
    using e get pend f dd(4) by (auto simp: s'_def e'_def short_def)
  ultimately show ?thesis using run f(7) by (simp add: s'_def)
qed

section \<open>Deposits and withdrawal requests\<close>

lemma pending_no_escrow:
  assumes coh: "wd_coherent s" and fund: "wd_funded E s" and none: "kv_get (st_escrow s) a = None"
  shows "pending s a = 0"
proof -
  have "fst k \<noteq> a" if "(k, w) \<in> set (st_wd_signer s)" for k w
  proof -
    have "kv_get (st_wd_signer s) (fst k, snd k) = Some w" using that coh by (simp add: kv_mem_iff)
    from wd_fundedD(2) [OF fund this] none show ?thesis by auto
  qed
  then have "pending s a = kv_sum (\<lambda>_ _. 0) (st_wd_signer s)"
    unfolding pending_def by (intro kv_sum_cong) auto
  then show ?thesis by (simp add: kv_sum_def)
qed

lemma deposit_inv:
  assumes laws: "sdk_laws E" and inv: "fibre_inv E s" and basic: "MsgDepositToEscrow_ValidateBasic E m = Inr ()"
    and run: "DepositToEscrow E c m s = Inr s'"
  shows "fibre_inv E s'"
proof -
  note I = fibre_invD [OF inv]
  let ?a = "m_Signer m" and ?n = "m_Amount m"
  have m: "0 < amount ?n" "valid_denom E (denom ?n)"
    using basic laws by (auto simp: MsgDepositToEscrow_ValidateBasic_def)
  define e0 where "e0 = (case kv_get (st_escrow s) ?a of Some e \<Rightarrow> e
    | None \<Rightarrow> \<lparr>e_Signer = ?a, e_Balance = \<lparr>denom = denom ?n, amount = 0\<rparr>,
        e_Available = \<lparr>denom = denom ?n, amount = 0\<rparr>\<rparr>)"
  obtain addr bank where r: "AccAddressFromBech32 E ?a = Some addr"
      "SendCoinsFromAccountToModule E (st_bank s) addr ModuleName [?n] = Some bank"
      "denom (e_Balance e0) = denom ?n" "denom (e_Available e0) = denom ?n"
      "s' = emit (EventDepositToEscrow ?a ?n) (SetEscrowAccount
         (e0\<lparr>e_Balance := (e_Balance e0)\<lparr>amount := amount (e_Balance e0) + amount ?n\<rparr>,
             e_Available := (e_Available e0)\<lparr>amount := amount (e_Available e0) + amount ?n\<rparr>\<rparr>)
         (s\<lparr>st_bank := bank\<rparr>))"
    using run laws m unfolding DepositToEscrow_def GetEscrowAccount_def e0_def
    by (auto split: option.splits if_splits)
  have e0: "e_Signer e0 = ?a" "0 \<le> amount (e_Available e0)"
    "amount (e_Balance e0) = amount (e_Available e0) + pending s ?a"
    "old_balance s ?a = amount (e_Balance e0)"
    using escrows_okD [OF I(4), of ?a] pending_no_escrow [OF I(1,3), of ?a]
    by (auto simp: e0_def split: option.splits)
  note bank = send_acc_modD(2) [OF sdk_lawsD(2) [OF laws] r(2)]
  show ?thesis
  proof (rule fibre_inv_update [OF inv, where a = ?a and e' =
        "e0\<lparr>e_Balance := (e_Balance e0)\<lparr>amount := amount (e_Balance e0) + amount ?n\<rparr>,
            e_Available := (e_Available e0)\<lparr>amount := amount (e_Available e0) + amount ?n\<rparr>\<rparr>"], goal_cases)
    case (7 e)
    then show ?case using r(3) by (simp add: e0_def)
  next
    case (13 b t w)
    then have "kv_get (st_wd_signer s) (b, t) = Some w"
      by (simp add: r(5) emit_def SetEscrowAccount_def)
    then show ?case using wd_fundedD(1) [OF I(3)] by blast
  next
    case (14 d)
    then show ?case unfolding e0(4)
      using r(3) by (simp add: r(5) emit_def SetEscrowAccount_def bank move_coins_apply)
  qed (use r e0 m I(1) in \<open>simp_all add: emit_def SetEscrowAccount_def\<close>)
qed

lemma request_inv:
  assumes laws: "sdk_laws E" and inv: "fibre_inv E s"
    and basic: "MsgRequestWithdrawal_ValidateBasic E m = Inr ()"
    and run: "RequestWithdrawal E c m s = Inr s'"
  shows "fibre_inv E s'"
proof -
  note I = fibre_invD [OF inv]
  let ?a = "m_Signer m" and ?n = "m_Amount m" and ?t = "BlockTime c"
  define w where "w = \<lparr>w_Signer = ?a, w_Amount = ?n, w_Requested = ?t,
    w_Available = ?t + WithdrawalDelay (GetParams s)\<rparr>"
  have pos: "0 < amount ?n" using basic laws by (auto simp: MsgRequestWithdrawal_ValidateBasic_def)
  obtain e where e: "kv_get (st_escrow s) ?a = Some e" "denom (e_Available e) = denom ?n"
      "amount ?n \<le> amount (e_Available e)" "kv_get (st_wd_signer s) (?a, ?t) = None"
      "s' = emit (EventWithdrawFromEscrowRequest ?a ?n ?t (w_Available w)) (SetWithdrawal w
         (SetEscrowAccount (e\<lparr>e_Available := (e_Available e)\<lparr>amount := amount (e_Available e) - amount ?n\<rparr>\<rparr>) s))"
    using run laws unfolding RequestWithdrawal_def GetEscrowAccount_def GetWithdrawal_def w_def
    by (auto simp: Let_def split: if_splits)
  note O = escrows_okD [OF I(4) e(1)]
  have wds: "wd_coherent (SetWithdrawal w s)"
    using e(4) by (intro wd_coherent_set [OF I(1)]) (simp add: w_def)
  have s': "st_wd_signer s' = st_wd_signer (SetWithdrawal w s)"
    "st_wd_avail s' = st_wd_avail (SetWithdrawal w s)"
    by (simp_all add: e(5) emit_def SetEscrowAccount_def SetWithdrawal_def)
  have pend: "pending s' b = pending s b + (if b = ?a then amount ?n else 0)" for b
    using pending_set [OF I(1), of w b] e(4) unfolding pending_def s' by (auto simp: w_def)
  show ?thesis
  proof (rule fibre_inv_update [OF inv, where a = ?a and e' =
        "e\<lparr>e_Available := (e_Available e)\<lparr>amount := amount (e_Available e) - amount ?n\<rparr>\<rparr>"], goal_cases)
    case 11
    then show ?case using wds wd_coherent_cong [OF s'] by simp
  next
    case (13 b r v)
    then have "(b, r) = (?a, ?t) \<and> v = w \<or> kv_get (st_wd_signer s) (b, r) = Some v"
      using I(1) unfolding s' by (auto simp: SetWithdrawal_def w_def split: if_splits)
    then show ?case
    proof
      assume "kv_get (st_wd_signer s) (b, r) = Some v"
      then show ?case using wd_fundedD(1) [OF I(3)] by blast
    qed (use pos e(2) O(4) in \<open>simp add: w_def\<close>)
  qed (use e O pend in \<open>simp_all add: emit_def SetEscrowAccount_def SetWithdrawal_def\<close>)
qed

section \<open>The two settlement messages\<close>

text \<open>What both settlement handlers establish before they record the payment.\<close>

definition settle_step ::
  "sdk \<Rightarrow> ctx \<Rightarrow> promise_pb \<Rightarrow> bool \<Rightarrow> bytes \<Rightarrow> fibre_state \<Rightarrow> fibre_state \<Rightarrow> bool" where
  "settle_step E c p isTimeout h s s1 \<longleftrightarrow>
     ValidatePaymentPromiseStateless E p = Inr () \<and> promiseHash E p = Inr h \<and>
     (\<exists>t. validatePaymentPromiseStatefulInternal E c s p isTimeout = Inr t \<and>
       (isTimeout \<longrightarrow> t \<le> BlockTime c)) \<and>
     (\<exists>e pay. kv_get (st_escrow s) (promise_signer E p) = Some e \<and>
        PaymentAmount E (pb_BlobSize p) = Some pay \<and> deductPaymentFromEscrow E e pay s = Inr s1)"

lemma promise_res_Inr [simp]: "promise_res r = Inr x \<longleftrightarrow> r = Inr x"
  by (cases r) (simp_all add: promise_res_def)

lemma PayForFibre_Inr:
  assumes "PayForFibre E c m s = Inr s'"
  shows "\<exists>h s1. settle_step E c (pf_PaymentPromise m) False h s s1 \<and>
    s' = emit (EventPayForFibre (promise_signer E (pf_PaymentPromise m))
           (pb_Namespace (pf_PaymentPromise m)) (pb_Commitment (pf_PaymentPromise m))
           (of_nat (length (pf_ValidatorSignatures m))))
         (SetProcessedPayment \<lparr>pp_Hash = h, pp_ProcessedAt = BlockTime c\<rparr> s1)"
  using assms
  by (auto simp: PayForFibre_def settle_step_def ValidatePaymentPromiseStateless_def promiseHash_def
      ValidatePaymentPromiseStateful_def GetEscrowAccount_def calculatePaymentAmount_def Let_def)

lemma Timeout_Inr:
  assumes "PaymentPromiseTimeout_handler E c m s = Inr s'"
  shows "\<exists>h s1. settle_step E c (to_PaymentPromise m) True h s s1 \<and>
    s' = emit (EventPaymentPromiseTimeout (to_Signer m) (promise_signer E (to_PaymentPromise m)) h)
         (SetProcessedPayment \<lparr>pp_Hash = h, pp_ProcessedAt = BlockTime c\<rparr> s1)"
  using assms
  by (auto simp: PaymentPromiseTimeout_handler_def settle_step_def ValidatePaymentPromiseStateless_def
      promiseHash_def ValidatePaymentPromiseStatefulForTimeout_def GetEscrowAccount_def
      calculatePaymentAmount_def Let_def)

lemma validate_stateful_Inr:
  assumes "validatePaymentPromiseStatefulInternal E c s p isTimeout = Inr t"
  shows "\<exists>floor. GetPromiseFreshnessFloor s = Inr floor \<and> floor < pb_CreationTimestamp p \<and>
      BlockTime c - WithdrawalDelay (GetParams s) < pb_CreationTimestamp p"
    and "pb_CreationTimestamp p \<le> BlockTime c + MaxPromiseClockSkew"
    and "\<not> IsPaymentPromiseProcessed E s p" and "pb_ChainId p = ChainID c"
    and "t = pb_CreationTimestamp p + PaymentPromiseTimeout (GetParams s)"
    and "\<not> isTimeout \<Longrightarrow> BlockTime c < t"
  using assms unfolding validatePaymentPromiseStatefulInternal_def freshness_cutoff_def
  by (auto simp: Let_def split: if_splits)

lemma deduct_pre:
  assumes "coin_laws E" and "deductPaymentFromEscrow E e pay s = Inr s'"
  shows "denom pay = denom (e_Balance e)" and "amount pay \<le> amount (e_Balance e)"
  using assms unfolding deductPaymentFromEscrow_def by (auto split: if_splits)

lemma fibre_inv_frame:
  assumes "fibre_inv E s" and "pp_coherent s'" and "st_escrow s' = st_escrow s"
    and "st_wd_signer s' = st_wd_signer s" and "st_wd_avail s' = st_wd_avail s"
    and "\<And>d. st_bank s (ModAcct ModuleName) d \<le> st_bank s' (ModAcct ModuleName) d"
  shows "fibre_inv E s'"
proof -
  note I = fibre_invD [OF assms(1)]
  have pend: "pending s' = pending s" using assms(4) by (simp add: pending_def fun_eq_iff)
  have "wd_coherent s'" using I(1) wd_coherent_cong [OF assms(4,5)] by simp
  moreover have "wd_funded E s'" using I(3) unfolding wd_funded_def assms(3,4) .
  moreover have "escrows_ok E s'" using I(4) unfolding escrows_ok_def assms(3) pend .
  moreover have "solvent s'"
    unfolding solvent_def
  proof
    fix d
    have "escrowed s' d \<le> st_bank s (ModAcct ModuleName) d"
      using I(5) unfolding solvent_def escrowed_def assms(3) by blast
    then show "escrowed s' d \<le> st_bank s' (ModAcct ModuleName) d" using assms(6) [of d] by linarith
  qed
  ultimately show ?thesis using assms(2) by (simp add: fibre_inv_def)
qed

lemma settle_step_spec:
  assumes laws: "sdk_laws E" and inv: "fibre_inv E s" and st: "settle_step E c p b h s s1"
  shows "fibre_inv E s1"
    and "\<exists>pay. PaymentAmount E (pb_BlobSize p) = Some pay \<and> settled (promise_signer E p) pay s s1"
    and "st_events s1 = st_events s" and "kv_get (st_pp_hash s) h = None"
proof -
  obtain e pay where e: "kv_get (st_escrow s) (promise_signer E p) = Some e"
      "PaymentAmount E (pb_BlobSize p) = Some pay" "deductPaymentFromEscrow E e pay s = Inr s1"
    using st unfolding settle_step_def by blast
  have pos: "0 < amount pay"
    using e(2) laws EstimateGas_pos [of "pb_BlobSize p"] by (auto simp: PaymentAmount_def split: if_splits)
  note pre = deduct_pre [OF sdk_lawsD(1) [OF laws] e(3)]
  from deduct_spec [OF laws inv e(1) pre(1) pos pre(2)] e(3)
  have "fibre_inv E s1 \<and> settled (promise_signer E p) pay s s1 \<and> st_events s1 = st_events s" by auto
  with e(2) show "fibre_inv E s1" "st_events s1 = st_events s"
    "\<exists>pay. PaymentAmount E (pb_BlobSize p) = Some pay \<and> settled (promise_signer E p) pay s s1" by blast+
  obtain t where t: "validatePaymentPromiseStatefulInternal E c s p b = Inr t" "promiseHash E p = Inr h"
    using st unfolding settle_step_def by blast
  from validate_stateful_Inr(3) [OF t(1)] t(2) show "kv_get (st_pp_hash s) h = None"
    by (simp add: IsPaymentPromiseProcessed_def IsPaymentProcessedByHash_def)
qed

lemma settle_inv:
  assumes laws: "sdk_laws E" and inv: "fibre_inv E s" and st: "settle_step E c p b h s s1"
  shows "fibre_inv E (emit ev (SetProcessedPayment \<lparr>pp_Hash = h, pp_ProcessedAt = t\<rparr> s1))"
proof -
  note S = settle_step_spec [OF laws inv st]
  have "st_pp_hash s1 = st_pp_hash s" using S(2) by (auto simp: settled_def)
  then have "pp_coherent (SetProcessedPayment \<lparr>pp_Hash = h, pp_ProcessedAt = t\<rparr> s1)"
    using S(4) by (intro pp_coherent_set [OF fibre_invD(2) [OF S(1)]]) simp
  then show ?thesis
    by (intro fibre_inv_frame [OF S(1)]) (simp_all add: emit_def SetProcessedPayment_def)
qed

end
