(* ===== verification/FibreBlock.thy ===== *)
theory FibreBlock
  imports FibreSafety
begin

text \<open>
  The block hook of x/fibre, specified: the freshness floor rises to the cutoff of the block, every
  due withdrawal whose recipient the bank accepts is paid and removed, every replay record outside
  the retention window is pruned, the invariant is kept, and the hook fails only when the stored
  floor does not decode.
\<close>

section \<open>Withdrawals and pruning\<close>

text \<open>Whether a withdrawal of a signer can be paid out: the bank refuses blocked recipients.\<close>

definition payable :: "sdk \<Rightarrow> string \<Rightarrow> bool" where
  "payable E a \<longleftrightarrow> (case AccAddressFromBech32 E a of None \<Rightarrow> False | Some x \<Rightarrow> \<not> blocked_addr E x)"

lemma process_withdrawal_run:
  assumes laws: "sdk_laws E" and inv: "fibre_inv E s"
    and w: "kv_get (st_wd_avail s) (t, r, a) = Some w"
    and e: "kv_get (st_escrow s) a = Some e" and x: "AccAddressFromBech32 E a = Some x"
  shows "process_withdrawal E a w s = Inr (if blocked_addr E x then s else
    emit (EventWithdrawFromEscrowExecuted a (w_Amount w)) (DeleteWithdrawal w (SetEscrowAccount
      (e\<lparr>e_Balance := (e_Balance e)\<lparr>amount := amount (e_Balance e) - amount (w_Amount w)\<rparr>\<rparr>)
      (s\<lparr>st_bank := move_coins (ModAcct ModuleName) (UserAcct x) [w_Amount w] (st_bank s)\<rparr>))))"
proof -
  note I = fibre_invD [OF inv] and O = escrows_okD [OF fibre_invD(4) [OF inv] e]
  have g: "kv_get (st_wd_signer s) (a, r) = Some w" using wd_availD(2) [OF I(1) w] .
  have d: "denom (w_Amount w) = denom (e_Balance e)" "0 < amount (w_Amount w)"
    using wd_fundedD [OF I(3) g] e by auto
  have le: "amount (w_Amount w) \<le> amount (e_Balance e)"
  proof -
    let ?f = "\<lambda>k w. if fst k = a then amount (w_Amount w) else 0"
    have "kv.weight ?f (st_wd_signer s) (a, r) \<le> pending s a"
      unfolding pending_def
    proof (rule kv_sum_ge_weight)
      fix k v assume "kv_get (st_wd_signer s) k = Some v"
      then have "kv_get (st_wd_signer s) (fst k, snd k) = Some v" by simp
      from wd_fundedD(1) [OF I(3) this] show "0 \<le> ?f k v" by simp
    qed (simp add: I(1))
    then show ?thesis using g O(5,6) by (simp add: kv_weight_def)
  qed
  have cov: "amount (w_Amount w) \<le> st_bank s (ModAcct ModuleName) (denom (w_Amount w))"
    using balance_covered [OF inv e] le d by simp
  have ops: "coin_IsLT E (e_Balance e) (w_Amount w) = Some False"
    "new_coins E (w_Amount w) = Some [w_Amount w]"
    "SendCoinsFromModuleToAccount E (st_bank s) ModuleName x [w_Amount w] =
       (if blocked_addr E x then None
        else Some (move_coins (ModAcct ModuleName) (UserAcct x) [w_Amount w] (st_bank s)))"
    "coin_Sub E (e_Balance e) (w_Amount w) =
       Some ((e_Balance e)\<lparr>amount := amount (e_Balance e) - amount (w_Amount w)\<rparr>)"
    using laws d le cov O(3) by simp_all
  show ?thesis
    by (simp add: process_withdrawal_def Let_def x GetEscrowAccount_def e ops)
qed

lemma process_withdrawal_spec:
  assumes laws: "sdk_laws E" and inv: "fibre_inv E s"
    and w: "kv_get (st_wd_avail s) (t, r, a) = Some w"
  shows "\<exists>s'. process_withdrawal E a w s = Inr s' \<and> fibre_inv E s' \<and>
    st_wd_avail s' = (if payable E a then kv_del (t, r, a) (st_wd_avail s) else st_wd_avail s) \<and>
    (\<forall>x d. st_bank s' (UserAcct x) d = st_bank s (UserAcct x) d +
      (if payable E a \<and> AccAddressFromBech32 E a = Some x \<and> denom (w_Amount w) = d
       then amount (w_Amount w) else 0)) \<and>
    st_params s' = st_params s \<and> st_floor s' = st_floor s \<and>
    st_pp_hash s' = st_pp_hash s \<and> st_pp_time s' = st_pp_time s"
proof -
  note I = fibre_invD [OF inv]
  have g: "kv_get (st_wd_signer s) (a, r) = Some w" and tw: "w_Available w = t"
    using wd_availD [OF I(1) w] by simp_all
  have wk: "w_Signer w = a" "w_Requested w = r" using wd_signerD(1,2) [OF I(1) g] by simp_all
  obtain e where e: "kv_get (st_escrow s) a = Some e" "denom (w_Amount w) = denom (e_Balance e)"
    using wd_fundedD(2) [OF I(3) g] by blast
  note O = escrows_okD [OF I(4) e(1)]
  obtain x where x: "AccAddressFromBech32 E a = Some x" using O(2) by blast
  note run = process_withdrawal_run [OF laws inv w e(1) x]
  show ?thesis
  proof (cases "blocked_addr E x")
    case True
    then show ?thesis using run inv x by (simp add: payable_def)
  next
    case False
    define e' where "e' = e\<lparr>e_Balance := (e_Balance e)\<lparr>amount := amount (e_Balance e) - amount (w_Amount w)\<rparr>\<rparr>"
    define s' where "s' = emit (EventWithdrawFromEscrowExecuted a (w_Amount w)) (DeleteWithdrawal w
      (SetEscrowAccount e' (s\<lparr>st_bank := move_coins (ModAcct ModuleName) (UserAcct x) [w_Amount w] (st_bank s)\<rparr>)))"
    have wds: "st_wd_signer s' = st_wd_signer (DeleteWithdrawal w s)"
      "st_wd_avail s' = st_wd_avail (DeleteWithdrawal w s)"
      by (simp_all add: s'_def emit_def DeleteWithdrawal_def SetEscrowAccount_def)
    have g': "kv_get (st_wd_signer s) (w_Signer w, w_Requested w) = Some w" using g wk by simp
    have pend: "pending s' b = pending s b - (if b = a then amount (w_Amount w) else 0)" for b
      using pending_delete [OF I(1) g', of b] wk unfolding pending_def wds by auto
    have "fibre_inv E s'"
    proof (rule fibre_inv_update [OF inv, where a = a and e' = e'], goal_cases)
      case 11
      then show ?case using wd_coherent_delete [OF I(1) g'] wd_coherent_cong [OF wds] by simp
    next
      case (13 b q v)
      then have "kv_get (st_wd_signer s) (b, q) = Some v"
        unfolding wds by (simp add: DeleteWithdrawal_def split: if_splits)
      then show ?case using wd_fundedD(1) [OF I(3)] by blast
    next
      case (14 d)
      then show ?case using e
        by (simp add: s'_def e'_def emit_def DeleteWithdrawal_def SetEscrowAccount_def move_coins_apply)
    qed (use O e x pend in
        \<open>simp_all add: e'_def s'_def emit_def DeleteWithdrawal_def SetEscrowAccount_def\<close>)
    moreover have "process_withdrawal E a w s = Inr s'" using run False by (simp add: s'_def e'_def)
    moreover have "payable E a" using False x by (simp add: payable_def)
    ultimately show ?thesis using x wk tw
      by (auto simp: s'_def emit_def DeleteWithdrawal_def SetEscrowAccount_def move_coins_apply)
  qed
qed

text \<open>What a list of due withdrawals pays to an account.\<close>

definition payout ::
  "sdk \<Rightarrow> (time \<times> time \<times> string, withdrawal) kv \<Rightarrow> bytes \<Rightarrow> string \<Rightarrow> int" where
  "payout E es x d = kv_sum (\<lambda>k w. if payable E (snd (snd k)) \<and>
     AccAddressFromBech32 E (snd (snd k)) = Some x \<and> denom (w_Amount w) = d
     then amount (w_Amount w) else 0) es"

lemma process_withdrawals_spec:
  assumes laws: "sdk_laws E"
  shows "fibre_inv E s \<Longrightarrow> \<forall>(k, w)\<in>set es. kv_get (st_wd_avail s) k = Some w \<and> fst k \<le> now \<Longrightarrow>
    distinct (map fst es) \<Longrightarrow>
    \<exists>s'. process_withdrawals E now es s = Inr s' \<and> fibre_inv E s' \<and>
      (\<forall>k. kv_get (st_wd_avail s') k =
        (if k \<in> fst ` set es \<and> payable E (snd (snd k)) then None else kv_get (st_wd_avail s) k)) \<and>
      (\<forall>x d. st_bank s' (UserAcct x) d = st_bank s (UserAcct x) d + payout E es x d) \<and>
      st_params s' = st_params s \<and> st_floor s' = st_floor s \<and>
      st_pp_hash s' = st_pp_hash s \<and> st_pp_time s' = st_pp_time s"
proof (induction es arbitrary: s)
  case Nil
  then show ?case by (simp add: payout_def)
next
  case (Cons p es)
  obtain t r a w where p: "p = ((t, r, a), w)" by (metis surj_pair)
  have w: "kv_get (st_wd_avail s) (t, r, a) = Some w" "t \<le> now" using Cons.prems(2) p by auto
  obtain s1 where s1: "process_withdrawal E a w s = Inr s1" "fibre_inv E s1"
    "st_wd_avail s1 = (if payable E a then kv_del (t, r, a) (st_wd_avail s) else st_wd_avail s)"
    "\<And>x d. st_bank s1 (UserAcct x) d = st_bank s (UserAcct x) d +
      (if payable E a \<and> AccAddressFromBech32 E a = Some x \<and> denom (w_Amount w) = d
       then amount (w_Amount w) else 0)"
    "st_params s1 = st_params s" "st_floor s1 = st_floor s"
    "st_pp_hash s1 = st_pp_hash s" "st_pp_time s1 = st_pp_time s"
    using process_withdrawal_spec [OF laws Cons.prems(1) w(1)] by blast
  have rest: "\<forall>(k, v)\<in>set es. kv_get (st_wd_avail s1) k = Some v \<and> fst k \<le> now"
  proof (intro ballI, clarify)
    fix t' r' a' v assume v: "((t', r', a'), v) \<in> set es"
    then have "(t', r', a') \<noteq> (t, r, a)" using Cons.prems(3) p by force
    moreover have "kv_get (st_wd_avail s) (t', r', a') = Some v \<and> t' \<le> now" using Cons.prems(2) v by auto
    ultimately show "kv_get (st_wd_avail s1) (t', r', a') = Some v \<and> fst (t', r', a') \<le> now"
      unfolding s1(3) by auto
  qed
  have "distinct (map fst es)" using Cons.prems(3) by simp
  from Cons.IH [OF s1(2) rest this] obtain s' where s':
    "process_withdrawals E now es s1 = Inr s'" "fibre_inv E s'"
    "\<And>k. kv_get (st_wd_avail s') k =
      (if k \<in> fst ` set es \<and> payable E (snd (snd k)) then None else kv_get (st_wd_avail s1) k)"
    "\<And>x d. st_bank s' (UserAcct x) d = st_bank s1 (UserAcct x) d + payout E es x d"
    "st_params s' = st_params s1" "st_floor s' = st_floor s1"
    "st_pp_hash s' = st_pp_hash s1" "st_pp_time s' = st_pp_time s1" by blast
  have "process_withdrawals E now (p # es) s = Inr s'" using p w(2) s1(1) s'(1) by simp
  moreover have "kv_get (st_wd_avail s') k = (if k \<in> fst ` set (p # es) \<and> payable E (snd (snd k))
      then None else kv_get (st_wd_avail s) k)" for k
    unfolding s'(3) s1(3) p by auto
  moreover have "st_bank s' (UserAcct x) d = st_bank s (UserAcct x) d + payout E (p # es) x d" for x d
    unfolding s'(4) s1(4) p by (simp add: payout_def kv_sum_Cons)
  ultimately show ?case using s'(2,5-8) s1(5-8) by simp
qed

lemma prune_processed_spec:
  "pp_coherent s \<Longrightarrow> \<forall>(k, p)\<in>set es. kv_get (st_pp_time s) k = Some p \<and> fst k \<le> cutoff \<Longrightarrow>
   distinct (map fst es) \<Longrightarrow>
   pp_coherent (prune_processed cutoff es s) \<and>
   (\<forall>k. kv_get (st_pp_time (prune_processed cutoff es s)) k =
     (if k \<in> fst ` set es then None else kv_get (st_pp_time s) k)) \<and>
   st_escrow (prune_processed cutoff es s) = st_escrow s \<and>
   st_wd_signer (prune_processed cutoff es s) = st_wd_signer s \<and>
   st_wd_avail (prune_processed cutoff es s) = st_wd_avail s \<and>
   st_bank (prune_processed cutoff es s) = st_bank s \<and>
   st_params (prune_processed cutoff es s) = st_params s \<and>
   st_floor (prune_processed cutoff es s) = st_floor s"
proof (induction es arbitrary: s)
  case Nil
  then show ?case by simp
next
  case (Cons x es)
  obtain t h p where x: "x = ((t, h), p)" by (metis surj_pair)
  have p: "kv_get (st_pp_time s) (t, h) = Some p" "t \<le> cutoff" using Cons.prems(2) x by auto
  note T = pp_timeD [OF Cons.prems(1) p(1)]
  have hp: "pp_Hash p = h" using pp_hashD(1) [OF Cons.prems(1) T(2)] .
  let ?s = "emit (EventProcessedPaymentPruned h t) (DeleteProcessedPayment p s)"
  have coh: "pp_coherent ?s"
    using pp_coherent_delete [OF Cons.prems(1), of p] T(2) hp by (simp add: emit_def)
  have get: "kv_get (st_pp_time ?s) k = (if k = (t, h) then None else kv_get (st_pp_time s) k)" for k
    using T(1) hp by (simp add: emit_def DeleteProcessedPayment_def)
  have rest: "\<forall>(k, q)\<in>set es. kv_get (st_pp_time ?s) k = Some q \<and> fst k \<le> cutoff"
  proof (intro ballI, clarify)
    fix t' h' q assume q: "((t', h'), q) \<in> set es"
    then have "(t', h') \<noteq> (t, h)" using Cons.prems(3) x by force
    moreover have "kv_get (st_pp_time s) (t', h') = Some q \<and> t' \<le> cutoff" using Cons.prems(2) q by auto
    ultimately show "kv_get (st_pp_time ?s) (t', h') = Some q \<and> fst (t', h') \<le> cutoff"
      unfolding get by auto
  qed
  have "distinct (map fst es)" using Cons.prems(3) by simp
  from Cons.IH [OF coh rest this] show ?case
    using x p(2) unfolding get by (auto simp: emit_def DeleteProcessedPayment_def)
qed

lemma iterator_entries:
  assumes "kv_ok m"
  shows "\<forall>(k, v)\<in>set (filter (\<lambda>x. fst (fst x) \<le> t) m). kv_get m k = Some v \<and> fst k \<le> t"
    and "distinct (map fst (filter (\<lambda>x. fst (fst x) \<le> t) m))"
    and "k \<in> fst ` set (filter (\<lambda>x. fst (fst x) \<le> t) m) \<longleftrightarrow> kv_get m k \<noteq> None \<and> fst k \<le> t"
proof -
  show "\<forall>(k, v)\<in>set (filter (\<lambda>x. fst (fst x) \<le> t) m). kv_get m k = Some v \<and> fst k \<le> t"
    using assms by (auto simp: kv_mem_iff)
  show "distinct (map fst (filter (\<lambda>x. fst (fst x) \<le> t) m))"
    using kv_distinct [OF kv_ok_filter [OF assms]] .
  show "k \<in> fst ` set (filter (\<lambda>x. fst (fst x) \<le> t) m) \<longleftrightarrow> kv_get m k \<noteq> None \<and> fst k \<le> t"
  proof -
    have "k \<in> fst ` set (filter (\<lambda>x. fst (fst x) \<le> t) m) \<longleftrightarrow> (\<exists>v. (k, v) \<in> set m) \<and> fst k \<le> t"
      by force
    then show ?thesis by (simp only: kv_mem_iff [OF assms] not_None_eq)
  qed
qed

text \<open>The hook as a whole: it fails only on a corrupt floor.\<close>

lemma BeginBlocker_spec:
  assumes laws: "sdk_laws E" and inv: "fibre_inv E s" and floor: "GetPromiseFreshnessFloor s = Inr f"
  shows "\<exists>s'. fibre_BeginBlocker E c s = Inr s' \<and> fibre_inv E s' \<and>
    GetPromiseFreshnessFloor s' = Inr (max f (BlockTime c - WithdrawalDelay (GetParams s))) \<and>
    st_params s' = st_params s \<and>
    (\<forall>k. kv_get (st_wd_avail s') k =
      (if fst k \<le> BlockTime c \<and> payable E (snd (snd k)) then None else kv_get (st_wd_avail s) k)) \<and>
    (\<forall>x d. st_bank s' (UserAcct x) d = st_bank s (UserAcct x) d +
      payout E (GetWithdrawalsByAvailableIterator s (BlockTime c)) x d) \<and>
    (\<forall>t h. kv_get (st_pp_time s') (t, h) =
      (if t \<le> BlockTime c - PaymentPromiseRetentionWindow (GetParams s) then None
       else kv_get (st_pp_time s) (t, h)))"
proof -
  let ?now = "BlockTime c" and ?cand = "BlockTime c - WithdrawalDelay (GetParams s)"
  let ?cut = "BlockTime c - PaymentPromiseRetentionWindow (GetParams s)"
  define s1 where "s1 = (if f < ?cand then SetPromiseFreshnessFloor ?cand s else s)"
  have s1: "st_params s1 = st_params s" "st_wd_avail s1 = st_wd_avail s" "st_bank s1 = st_bank s"
    "st_pp_time s1 = st_pp_time s" "GetPromiseFreshnessFloor s1 = Inr (max f ?cand)"
    using floor by (simp_all add: s1_def SetPromiseFreshnessFloor_def GetPromiseFreshnessFloor_def)
  have inv1: "fibre_inv E s1"
    using fibre_invD(2) [OF inv]
    by (intro fibre_inv_frame [OF inv]) (simp_all add: s1_def SetPromiseFreshnessFloor_def)
  have ok: "kv_ok (st_wd_avail s1)" using fibre_invD(1) [OF inv1] by simp
  obtain s2 where s2: "process_withdrawals E ?now (GetWithdrawalsByAvailableIterator s1 ?now) s1 = Inr s2"
    "fibre_inv E s2" "\<And>k. kv_get (st_wd_avail s2) k =
      (if k \<in> fst ` set (GetWithdrawalsByAvailableIterator s1 ?now) \<and> payable E (snd (snd k)) then None
       else kv_get (st_wd_avail s1) k)"
    "\<And>x d. st_bank s2 (UserAcct x) d = st_bank s1 (UserAcct x) d +
      payout E (GetWithdrawalsByAvailableIterator s1 ?now) x d"
    "st_params s2 = st_params s1" "st_floor s2 = st_floor s1" "st_pp_time s2 = st_pp_time s1"
    using process_withdrawals_spec [OF laws inv1 iterator_entries(1,2) [OF ok]]
    unfolding GetWithdrawalsByAvailableIterator_def by blast
  have ok2: "kv_ok (st_pp_time s2)" using fibre_invD(2) [OF s2(2)] by simp
  have par: "GetParams s2 = GetParams s" using s2(5) s1(1) by (simp add: GetParams_def)
  define s' where "s' = prune_processed ?cut (GetProcessedPaymentsByTimeIterator s2 ?cut) s2"
  note P = prune_processed_spec [OF fibre_invD(2) [OF s2(2)] iterator_entries(1,2) [OF ok2], of ?cut,
      folded GetProcessedPaymentsByTimeIterator_def, folded s'_def]
  have "fibre_BeginBlocker E c s = Inr s'"
    using floor s2(1) par
    by (simp add: fibre_BeginBlocker_def updatePromiseFreshnessFloor_def processAvailableWithdrawals_def
        pruneProcessedPayments_def Let_def s1_def s'_def)
  moreover have "fibre_inv E s'" using P by (intro fibre_inv_frame [OF s2(2)]) simp_all
  moreover have "GetPromiseFreshnessFloor s' = Inr (max f ?cand)"
    using P s2(6) s1(5) by (simp add: GetPromiseFreshnessFloor_def)
  moreover have "kv_get (st_wd_avail s') k =
      (if fst k \<le> ?now \<and> payable E (snd (snd k)) then None else kv_get (st_wd_avail s) k)" for k
    using P s2(3) [of k] iterator_entries(3) [OF ok, of k ?now] s1(2)
    by (auto simp: GetWithdrawalsByAvailableIterator_def)
  moreover have "kv_get (st_pp_time s') (t, h) = (if t \<le> ?cut then None else kv_get (st_pp_time s) (t, h))" for t h
    using P iterator_entries(3) [OF ok2, of "(t, h)" ?cut] s2(7) s1(4)
    by (auto simp: GetProcessedPaymentsByTimeIterator_def)
  moreover have "st_bank s' (UserAcct x) d = st_bank s (UserAcct x) d +
      payout E (GetWithdrawalsByAvailableIterator s ?now) x d" for x d
    using P s2(4) s1(2,3) by (simp add: GetWithdrawalsByAvailableIterator_def)
  ultimately show ?thesis using P s2(5) s1(1) by auto
qed

end
