(* ===== verification/FibreQueue.thy ===== *)
theory FibreQueue
  imports FibreSafety
begin

text \<open>
  The order in which a settlement consumes pending withdrawals: the loop of
  \<open>ReduceWithdrawalsForPayment\<close> refines an abstract first-in first-out queue.
\<close>

section \<open>First in, first out\<close>

text \<open>What a payment should do to a list of pending withdrawals, oldest first.\<close>

fun take_fifo :: "int \<Rightarrow> withdrawal list \<Rightarrow> withdrawal list" where
  "take_fifo n [] = []"
| "take_fifo n (w # ws) =
     (if n \<le> 0 then w # ws
      else if amount (w_Amount w) \<le> n then take_fifo (n - amount (w_Amount w)) ws
      else w\<lparr>w_Amount := (w_Amount w)\<lparr>amount := amount (w_Amount w) - n\<rparr>\<rparr> # ws)"

lemma kv_set_existing:
  "kv_ok m \<Longrightarrow> kv_get m k \<noteq> None \<Longrightarrow> kv_set k v m = map (\<lambda>p. if fst p = k then (k, v) else p) m"
proof (induction m)
  case (Cons p m)
  then have ok: "\<forall>q\<in>set m. fst p < fst q" "kv_ok m" by (simp_all add: kv_ok_Cons)
  show ?case
  proof (cases "fst p = k")
    case True
    then have "map (\<lambda>p. if fst p = k then (k, v) else p) m = m" using ok(1) by (intro map_idI) auto
    then show ?thesis using True by simp
  next
    case False
    then have g: "kv_get m k \<noteq> None" using Cons.prems(2) by (cases p) auto
    then obtain w where "(k, w) \<in> set m" by (auto dest: map_of_SomeD)
    then have "fst p < k" using ok(1) by auto
    then show ?thesis using Cons.IH [OF ok(2) g] False by simp
  qed
qed simp

lemma filter_first_deleted:
  assumes "kv_ok m" and "filter P m = (k, v) # rest"
  shows "filter P (kv_del k m) = rest"
proof -
  have "kv_ok ((k, v) # rest)" using kv_ok_filter [OF assms(1), of P] assms(2) by simp
  then have "filter (\<lambda>p. fst p \<noteq> k) rest = rest" by (intro filter_True) (auto simp: kv_ok_Cons)
  moreover have "filter P (kv_del k m) = filter (\<lambda>p. fst p \<noteq> k) (filter P m)"
    by (simp add: kv_del_def conj_commute)
  ultimately show ?thesis using assms(2) by simp
qed

lemma filter_first_updated:
  assumes "kv_ok m" and "filter (\<lambda>p. Q (fst p)) m = (k, v) # rest"
  shows "filter (\<lambda>p. Q (fst p)) (kv_set k v' m) = (k, v') # rest"
proof -
  have "(k, v) \<in> set m" using assms(2) by (metis filter_eq_ConsD in_set_conv_decomp)
  then have g: "kv_get m k \<noteq> None" using assms(1) by (simp add: kv_mem_iff)
  have "kv_ok ((k, v) # rest)" using kv_ok_filter [OF assms(1)] assms(2) by metis
  then have "map (\<lambda>p. if fst p = k then (k, v') else p) rest = rest"
    by (intro map_idI) (auto simp: kv_ok_Cons)
  moreover have "filter (\<lambda>p. Q (fst p)) (kv_set k v' m) =
      map (\<lambda>p. if fst p = k then (k, v') else p) (filter (\<lambda>p. Q (fst p)) m)"
    unfolding kv_set_existing [OF assms(1) g] filter_map
    by (rule arg_cong [where f = "map _"], rule filter_cong) auto
  ultimately show ?thesis using assms(2) by simp
qed

lemma signer_list_first:
  assumes "wd_coherent s" and "GetWithdrawalsBySigner s a = w # ws"
  shows "\<exists>rest. filter (\<lambda>e. prefix a (fst (fst e))) (st_wd_signer s) =
      ((w_Signer w, w_Requested w), w) # rest \<and> ws = map snd rest"
proof -
  from assms(2) obtain k rest where l: "filter (\<lambda>e. prefix a (fst (fst e))) (st_wd_signer s) = (k, w) # rest"
      "ws = map snd rest" by (auto simp: GetWithdrawalsBySigner_def map_eq_Cons_conv)
  then have "(k, w) \<in> set (st_wd_signer s)" by (metis filter_eq_ConsD in_set_conv_decomp)
  then have "kv_get (st_wd_signer s) (fst k, snd k) = Some w" using assms(1) by (simp add: kv_mem_iff)
  from wd_signerD(1,2) [OF assms(1) this] l show ?thesis by simp
qed

lemma reduce_withdrawals_fifo:
  assumes laws: "coin_laws E"
  shows "wd_coherent s \<Longrightarrow> GetWithdrawalsBySigner s a = ws \<Longrightarrow>
    \<forall>w\<in>set ws. 0 < amount (w_Amount w) \<Longrightarrow> reduce_withdrawals E ws c s = Inr (c', s') \<Longrightarrow>
    GetWithdrawalsBySigner s' a = take_fifo (amount c) ws"
proof (induction ws arbitrary: c s)
  case Nil
  then show ?case by simp
next
  case (Cons w ws)
  obtain rest where rest: "filter (\<lambda>e. prefix a (fst (fst e))) (st_wd_signer s) =
      ((w_Signer w, w_Requested w), w) # rest" "ws = map snd rest"
    using signer_list_first [OF Cons.prems(1,2)] by blast
  have ok: "kv_ok (st_wd_signer s)" using Cons.prems(1) by simp
  have stored: "kv_get (st_wd_signer s) (w_Signer w, w_Requested w) = Some w"
    using rest(1) ok by (metis filter_eq_ConsD in_set_conv_decomp kv_mem_iff)
  consider "amount c \<le> 0" | "0 < amount c" "amount (w_Amount w) \<le> amount c"
    | "0 < amount c" "amount c < amount (w_Amount w)" by linarith
  then show ?case
  proof cases
    case 1
    then show ?thesis using Cons.prems(2,4) laws by simp
  next
    case 2
    let ?c = "c\<lparr>amount := amount c - amount (w_Amount w)\<rparr>" and ?s = "DeleteWithdrawal w s"
    have run: "reduce_withdrawals E ws ?c ?s = Inr (c', s')"
      using Cons.prems(4) laws 2 by (auto split: if_splits)
    have "GetWithdrawalsBySigner ?s a = ws"
      using filter_first_deleted [OF ok rest(1)] rest(2)
      by (simp add: GetWithdrawalsBySigner_def DeleteWithdrawal_def)
    from Cons.IH [OF wd_coherent_delete [OF Cons.prems(1) stored] this _ run] Cons.prems(3) 2
    show ?thesis by simp
  next
    case 3
    let ?w = "w\<lparr>w_Amount := (w_Amount w)\<lparr>amount := amount (w_Amount w) - amount c\<rparr>\<rparr>"
    have "s' = SetWithdrawal ?w s"
      using Cons.prems(4) laws 3 by (auto simp: reduce_zero split: if_splits)
    then show ?thesis
      using filter_first_updated [OF ok rest(1), of ?w] rest(2) 3
      by (simp add: GetWithdrawalsBySigner_def SetWithdrawal_def)
  qed
qed

text \<open>C9: Reducing the pending withdrawals for a payment refines the queue specification: the signer's
  oldest withdrawals are consumed first, at most one is cut, and the newer ones are untouched.\<close>

theorem reduce_withdrawals_refines_fifo:
  assumes "coin_laws E" and "wd_coherent s"
    and "list_all (\<lambda>w. 0 < amount (w_Amount w)) (GetWithdrawalsBySigner s a)"
    and "ReduceWithdrawalsForPayment E a c s = Inr s'"
  shows "GetWithdrawalsBySigner s' a = take_fifo (amount c) (GetWithdrawalsBySigner s a)"
proof -
  obtain c' where "reduce_withdrawals E (GetWithdrawalsBySigner s a) c s = Inr (c', s')"
    using assms(4) by (auto simp: ReduceWithdrawalsForPayment_def split: if_splits)
  from reduce_withdrawals_fifo [OF assms(1,2) refl _ this] assms(3) show ?thesis
    by (simp add: list_all_iff)
qed

definition ref_withdrawal :: "time \<Rightarrow> withdrawal" where
  "ref_withdrawal t = \<lparr>w_Signer = ''abc'', w_Amount = \<lparr>denom = ''utia'', amount = 10\<rparr>,
     w_Requested = t, w_Available = t + hour\<rparr>"

theorem reduce_withdrawals_refines_fifo_witness:
  "\<exists>s s'. ReduceWithdrawalsForPayment ref_sdk ''abc'' \<lparr>denom = ''utia'', amount = 13\<rparr> s = Inr s' \<and>
     map (amount \<circ> w_Amount) (GetWithdrawalsBySigner s ''abc'') = [10, 10] \<and>
     map (amount \<circ> w_Amount) (GetWithdrawalsBySigner s' ''abc'') = [7]"
proof -
  let ?emp = "empty_store (\<lambda>_ _. 0)" and ?c = "\<lparr>denom = ''utia'', amount = 13\<rparr>"
  let ?s = "SetWithdrawal (ref_withdrawal 2) (SetWithdrawal (ref_withdrawal 1) ?emp)"
  have "wd_coherent ?emp" by (rule wd_coherentI) (simp_all add: empty_store_def)
  then have coh: "wd_coherent ?s"
    by (intro wd_coherent_set) (simp_all add: SetWithdrawal_def empty_store_def ref_withdrawal_def)
  have l: "GetWithdrawalsBySigner ?s ''abc'' = [ref_withdrawal 1, ref_withdrawal 2]"
    by (simp add: GetWithdrawalsBySigner_def SetWithdrawal_def empty_store_def ref_withdrawal_def)
  obtain s' where s': "ReduceWithdrawalsForPayment ref_sdk ''abc'' ?c ?s = Inr s'"
    unfolding ReduceWithdrawalsForPayment_def l
    by (simp add: ref_withdrawal_def)
  have "list_all (\<lambda>w. 0 < amount (w_Amount w)) (GetWithdrawalsBySigner ?s ''abc'')"
    unfolding l by (simp add: ref_withdrawal_def)
  from reduce_withdrawals_refines_fifo [OF ref_sdk_coin coh this s'] s' l
  show ?thesis by (intro exI [of _ ?s] exI [of _ s']) (simp add: ref_withdrawal_def)
qed

end
