(* ===== verification/FibreChain.thy ===== *)
theory FibreChain
  imports FibreBlock FibreQueue
begin

text \<open>
  x/fibre as a whole: the invariant holds in every state the chain can reach from the default genesis,
  and what follows from it for accounts, blocks and settlements. A concrete run (a deposit of one
  account) serves the witnesses.
\<close>

section \<open>Every reachable state\<close>

text \<open>The chain starts from the default genesis, with any balances outside the module.\<close>

definition fibre_init :: "ctx \<times> fibre_state \<Rightarrow> bool" where
  "fibre_init x \<longleftrightarrow> (\<exists>b. (\<forall>d. 0 \<le> b (ModAcct ModuleName) d) \<and>
     snd x = fibre_InitGenesis DefaultGenesis (empty_store b))"

definition fibre_good :: "sdk \<Rightarrow> fibre_state \<Rightarrow> bool" where
  "fibre_good E s \<longleftrightarrow> fibre_inv E s \<and> st_floor s \<noteq> Some Corrupt \<and> Params_Validate (GetParams s) = Inr ()"

lemma fibre_inv_empty:
  assumes "st_escrow s = []" "st_wd_signer s = []" "st_wd_avail s = []" "st_pp_hash s = []"
    "st_pp_time s = []" and "\<And>d. 0 \<le> st_bank s (ModAcct ModuleName) d"
  shows "fibre_inv E s"
  using assms unfolding inv_defs escrowed_def by simp

lemma init_good:
  assumes "fibre_init x"
  shows "fibre_good E (snd x)"
proof -
  obtain b where b: "\<And>d. 0 \<le> b (ModAcct ModuleName) d" and s: "snd x = (empty_store b)\<lparr>st_params := Some DefaultParams\<rparr>"
    using assms by (auto simp: fibre_init_def fibre_InitGenesis_def DefaultGenesis_def SetParams_def)
  have "fibre_inv E (snd x)"
    using b by (intro fibre_inv_empty) (simp_all add: s empty_store_def)
  moreover have "st_floor (snd x) = None" "GetParams (snd x) = DefaultParams"
    by (simp_all add: s empty_store_def GetParams_def)
  ultimately show ?thesis by (simp add: fibre_good_def DefaultParams_valid)
qed

lemma floor_decodes: "st_floor s \<noteq> Some Corrupt \<longleftrightarrow> (\<exists>f. GetPromiseFreshnessFloor s = Inr f)"
  by (auto simp: GetPromiseFreshnessFloor_def split: option.splits raw_time.splits)

lemma settle_frame:
  assumes "sdk_laws E" and "fibre_inv E s" and "settle_step E c p b h s s1"
  shows "st_params s1 = st_params s" and "st_floor s1 = st_floor s"
    and "st_pp_hash s1 = st_pp_hash s" and "st_pp_time s1 = st_pp_time s"
  using settle_step_spec(2) [OF assms] by (auto simp: settled_def)

lemma handle_good:
  assumes laws: "sdk_laws E" and good: "fibre_good E s"
    and basic: "fibre_ValidateBasic E m = Inr ()" and run: "fibre_handle E authority c m s = Inr s'"
  shows "fibre_good E s'"
proof -
  have inv: "fibre_inv E s" and fl: "st_floor s \<noteq> Some Corrupt"
    and par: "Params_Validate (GetParams s) = Inr ()"
    using good by (simp_all add: fibre_good_def)
  show ?thesis
  proof (cases m)
    case (MsgDepositToEscrow x)
    then have r: "DepositToEscrow E c x s = Inr s'" using run by simp
    have "st_floor s' = st_floor s" "st_params s' = st_params s"
      using r by (auto simp: DepositToEscrow_def emit_def SetEscrowAccount_def)
    then show ?thesis
      using deposit_inv [OF laws inv _ r] MsgDepositToEscrow basic fl par
      by (simp add: fibre_good_def GetParams_def)
  next
    case (MsgRequestWithdrawal x)
    then have r: "RequestWithdrawal E c x s = Inr s'" using run by simp
    have "st_floor s' = st_floor s" "st_params s' = st_params s"
      using r by (auto simp: RequestWithdrawal_def emit_def SetEscrowAccount_def SetWithdrawal_def Let_def)
    then show ?thesis
      using request_inv [OF laws inv _ r] MsgRequestWithdrawal basic fl par
      by (simp add: fibre_good_def GetParams_def)
  next
    case (MsgPayForFibre x)
    then have "PayForFibre E c x s = Inr s'" using run by simp
    from PayForFibre_Inr [OF this] obtain h s1 ev where st: "settle_step E c (pf_PaymentPromise x) False h s s1"
      and s': "s' = emit ev (SetProcessedPayment \<lparr>pp_Hash = h, pp_ProcessedAt = BlockTime c\<rparr> s1)" by blast
    show ?thesis
      using settle_inv [OF laws inv st] settle_frame [OF laws inv st] fl par
      by (simp add: fibre_good_def GetParams_def s' emit_def SetProcessedPayment_def)
  next
    case (MsgPaymentPromiseTimeout x)
    then have "PaymentPromiseTimeout_handler E c x s = Inr s'" using run by simp
    from Timeout_Inr [OF this] obtain h s1 ev where st: "settle_step E c (to_PaymentPromise x) True h s s1"
      and s': "s' = emit ev (SetProcessedPayment \<lparr>pp_Hash = h, pp_ProcessedAt = BlockTime c\<rparr> s1)" by blast
    show ?thesis
      using settle_inv [OF laws inv st] settle_frame [OF laws inv st] fl par
      by (simp add: fibre_good_def GetParams_def s' emit_def SetProcessedPayment_def)
  next
    case (MsgUpdateFibreParams x)
    then have r: "UpdateFibreParams authority x s = Inr s'" using run by simp
    then have s': "s' = emit (EventUpdateFibreParams (up_Authority x) (up_Params x)) (SetParams (up_Params x) s)"
      "Params_Validate (up_Params x) = Inr ()"
      by (auto simp: UpdateFibreParams_def split: sum.splits)
    have "fibre_inv E s'"
      using fibre_invD(2) [OF inv] unfolding s'(1)
      by (intro fibre_inv_frame [OF inv]) (simp_all add: emit_def SetParams_def)
    then show ?thesis using s' fl by (simp add: fibre_good_def emit_def SetParams_def GetParams_def)
  qed
qed

lemma block_good:
  assumes "sdk_laws E" and "fibre_good E s" and "fibre_BeginBlocker E c s = Inr s'"
  shows "fibre_good E s'"
proof -
  obtain f where f: "GetPromiseFreshnessFloor s = Inr f"
    using assms(2) floor_decodes by (auto simp: fibre_good_def)
  have "fibre_inv E s" using assms(2) by (simp add: fibre_good_def)
  from BeginBlocker_spec [OF assms(1) this f, of c] assms(3)
  have "fibre_inv E s'" "GetPromiseFreshnessFloor s' \<noteq> Inl ErrFloorDecode" "st_params s' = st_params s"
    by auto
  moreover have "st_floor s' \<noteq> Some Corrupt"
    using calculation(2) by (auto simp: GetPromiseFreshnessFloor_def)
  ultimately show ?thesis using assms(2) by (simp add: fibre_good_def GetParams_def)
qed

lemma step_good:
  assumes laws: "sdk_laws E" and step: "fibre_step E authority (c, s) (c', s')" and good: "fibre_good E s"
  shows "fibre_good E s'"
  using step
proof (cases rule: fibre_step.cases)
  case begin_block
  show ?thesis by (rule block_good [OF laws good begin_block(2)])
next
  case (deliver m)
  show ?thesis by (rule handle_good [OF laws good deliver(2,3)])
next
  case (other_modules b)
  have inv: "fibre_inv E s" using good by (simp add: fibre_good_def)
  have "fibre_inv E (s\<lparr>st_bank := b\<rparr>)"
    using fibre_invD(2) [OF inv] other_modules(3) by (intro fibre_inv_frame [OF inv]) simp_all
  then show ?thesis using good other_modules(1,2) by (simp add: fibre_good_def GetParams_def)
qed

interpretation fibre_chain: step_invariant fibre_init "fibre_step E authority"
  "\<lambda>x. sdk_laws E \<longrightarrow> fibre_good E (snd x)" for E authority
proof unfold_locales
  fix s t assume "fibre_step E authority s t" "sdk_laws E \<longrightarrow> fibre_good E (snd s)"
  then show "sdk_laws E \<longrightarrow> fibre_good E (snd t)"
    using step_good [of E authority "fst s" "snd s" "fst t" "snd t"] by simp
qed (simp add: init_good)

lemma reachable_good:
  assumes "sdk_laws E" and "reach fibre_init (fibre_step E authority) (c, s)"
  shows "fibre_good E s" and "fibre_inv E s"
  using fibre_chain.reach_inv [OF assms(2)] assms(1) by (simp_all add: fibre_good_def)

section \<open>A concrete run\<close>

definition ref_ctx :: ctx where
  "ref_ctx = \<lparr>ChainID = ''fib'', BlockTime = 100 * hour + minute, BlockHeight = 6\<rparr>"

definition ref_bank :: bank where
  "ref_bank = (\<lambda>a d. if a = UserAcct (chars_bytes ''abc'') \<and> d = ''utia'' then 9000000 else 0)"

definition ref_s0 :: fibre_state where
  "ref_s0 = fibre_InitGenesis DefaultGenesis (empty_store ref_bank)"

definition ref_deposit :: msg_escrow where
  "ref_deposit = \<lparr>m_Signer = ''abc'', m_Amount = \<lparr>denom = ''utia'', amount = 5000000\<rparr>\<rparr>"

definition ref_escrow :: escrow_account where
  "ref_escrow = \<lparr>e_Signer = ''abc'', e_Balance = \<lparr>denom = ''utia'', amount = 5000000\<rparr>,
     e_Available = \<lparr>denom = ''utia'', amount = 5000000\<rparr>\<rparr>"

definition ref_s1 :: fibre_state where
  "ref_s1 = (empty_store (move_coins (UserAcct (chars_bytes ''abc'')) (ModAcct ModuleName)
       [m_Amount ref_deposit] ref_bank))\<lparr>st_params := Some DefaultParams,
     st_escrow := [(''abc'', ref_escrow)],
     st_events := [EventDepositToEscrow ''abc'' (m_Amount ref_deposit)]\<rparr>"

lemma ref_s0_eq: "ref_s0 = (empty_store ref_bank)\<lparr>st_params := Some DefaultParams\<rparr>"
  by (simp add: ref_s0_def fibre_InitGenesis_def DefaultGenesis_def SetParams_def)

lemma ref_deposit_run: "DepositToEscrow ref_sdk ref_ctx ref_deposit ref_s0 = Inr ref_s1"
  by (simp add: DepositToEscrow_def ref_deposit_def ref_s0_eq ref_s1_def ref_escrow_def empty_store_def
      GetEscrowAccount_def SetEscrowAccount_def emit_def ref_sdk_def ref_bank_def covers_def)

lemma ref_deposit_basic: "fibre_ValidateBasic ref_sdk (MsgDepositToEscrow ref_deposit) = Inr ()"
  by (simp add: MsgDepositToEscrow_ValidateBasic_def ref_deposit_def ref_sdk_def)

lemma ref_s0_reach: "reach fibre_init (fibre_step ref_sdk ''gov'') (ref_ctx, ref_s0)"
proof (rule reach_init)
  have "\<forall>d. 0 \<le> ref_bank (ModAcct ModuleName) d" by (simp add: ref_bank_def)
  then show "fibre_init (ref_ctx, ref_s0)" unfolding fibre_init_def ref_s0_def by auto
qed

lemma ref_s1_reach: "reach fibre_init (fibre_step ref_sdk ''gov'') (ref_ctx, ref_s1)"
  using ref_s0_reach
proof (rule reach_step)
  show "fibre_step ref_sdk ''gov'' (ref_ctx, ref_s0) (ref_ctx, ref_s1)"
    by (rule deliver [OF ref_deposit_basic]) (simp add: ref_deposit_run)
qed

lemma ref_gas: "uint (EstimateGasForPayForFibre 300000) = 740000"
  by (simp add: EstimateGasForPayForFibre_def PFBFibreGasFixedCost_def PFBFibreGasPerChunk_def
      PFBFibreChunkSize_def)

lemma ref_signer: "promise_signer ref_sdk ref_promise = ''abc''"
proof -
  have "promise_signer ref_sdk ref_promise = bytes_chars (chars_bytes ''abc'')"
    unfolding bytes_chars_def by (simp add: promise_signer_def ref_sdk_def ref_promise_def ref_pad_def)
  then show ?thesis by (simp only: bytes_chars_bytes)
qed

lemma ref_promise_stateful:
  "ValidatePaymentPromiseStateful ref_sdk ref_ctx ref_s1 ref_promise = Inr (101 * hour)"
proof -
  have p: "GetParams ref_s1 = DefaultParams" "GetPromiseFreshnessFloor ref_s1 = Inr 0"
    "GetEscrowAccount ref_s1 ''abc'' = Some ref_escrow"
    by (simp_all add: ref_s1_def empty_store_def GetParams_def GetPromiseFreshnessFloor_def GetEscrowAccount_def)
  have new: "\<not> IsPaymentPromiseProcessed ref_sdk ref_s1 ref_promise"
    by (simp add: IsPaymentPromiseProcessed_def IsPaymentProcessedByHash_def ref_s1_def empty_store_def
        split: sum.splits)
  have h: "height_check ref_ctx DefaultParams ref_promise = Inr ()"
    by (simp add: height_check_def ref_ctx_def ref_promise_def DefaultParams_def NewParams_def)
  have m: "pb_BlobSize ref_promise = 300000" "pb_ChainId ref_promise = ChainID ref_ctx"
    "pb_CreationTimestamp ref_promise = 100 * hour" "BlockTime ref_ctx = 100 * hour + minute"
    by (simp_all add: ref_promise_def ref_ctx_def)
  have d: "WithdrawalDelay DefaultParams = 24 * hour" "PaymentPromiseTimeout DefaultParams = hour"
    by (simp_all add: DefaultParams_def NewParams_def)
  show ?thesis
    unfolding ValidatePaymentPromiseStateful_def validatePaymentPromiseStatefulInternal_def
    by (simp add: p m d h new ref_signer ref_gas freshness_cutoff_def MaxPromiseClockSkew_def Let_def
        BondDenom_def ref_escrow_def)
qed

lemma validated_settles:
  assumes laws: "sdk_laws E" and re: "reach fibre_init (fibre_step E authority) (c, s)"
    and v: "ValidatePaymentPromiseInternal E c s (pf_PaymentPromise m) = Inr ()"
  shows "\<exists>s'. PayForFibre E c m s = Inr s'"
proof -
  let ?p = "pf_PaymentPromise m"
  note inv = reachable_good(2) [OF laws re]
  have "ValidatePaymentPromiseStateless E ?p = Inr ()" using v by (auto simp: ValidatePaymentPromiseInternal_def)
  then obtain pp where pp: "FromProto E (Some ?p) = Inr pp" "Validate E pp = Inr ()"
    by (auto simp: ValidatePaymentPromiseStateless_def)
  obtain h where h: "Hash E pp = Inr h" using Validate_Hash [OF pp(2)] by blast
  obtain t where t: "ValidatePaymentPromiseStateful E c s ?p = Inr t"
    using v by (auto simp: ValidatePaymentPromiseInternal_def)
  then obtain e pay where e: "kv_get (st_escrow s) (promise_signer E ?p) = Some e"
    "PaymentAmount E (pb_BlobSize ?p) = Some pay" "coin_IsGTE E (e_Balance e) pay = Some True"
    by (auto simp: ValidatePaymentPromiseStateful_def validatePaymentPromiseStatefulInternal_def Let_def
        GetEscrowAccount_def PaymentAmount_def split: if_splits)
  have pay: "denom pay = denom (e_Balance e)" "amount pay \<le> amount (e_Balance e)" "0 < amount pay"
    using e laws EstimateGas_pos [of "pb_BlobSize ?p"] by (auto simp: PaymentAmount_def split: if_splits)
  obtain s1 where "deductPaymentFromEscrow E e pay s = Inr s1"
    using deduct_spec [OF laws inv e(1) pay(1,3,2)] by blast
  then show ?thesis
    using pp h t e(1,2)
    by (simp add: PayForFibre_def Let_def promise_res_def GetEscrowAccount_def calculatePaymentAmount_def)
qed

definition ref_pay :: msg_pay_for_fibre where
  "ref_pay = \<lparr>pf_Signer = ''xyz'', pf_PaymentPromise = ref_promise, pf_ValidatorSignatures = [[1]]\<rparr>"

lemma ref_pay_valid: "ValidatePaymentPromiseInternal ref_sdk ref_ctx ref_s1 (pf_PaymentPromise ref_pay) = Inr ()"
  using ref_promise_stateless ref_promise_stateful
  by (simp add: ValidatePaymentPromiseInternal_def ref_pay_def promise_res_def)

section \<open>Properties\<close>

text \<open>C2: In every reachable state an escrow balance is its available part plus exactly the withdrawals
  the signer has pending, none of which is zero or in another denomination, and the available part is
  never negative.\<close>

theorem escrow_accounting:
  assumes "sdk_laws E" and "reach fibre_init (fibre_step E authority) (c, s)"
    and "GetEscrowAccount s a = Some e"
  shows "amount (e_Balance e) =
      amount (e_Available e) + (\<Sum>w\<leftarrow>GetWithdrawalsBySigner s a. amount (w_Amount w)) \<and>
    0 \<le> amount (e_Available e) \<and>
    list_all (\<lambda>w. w_Signer w = a \<and> 0 < amount (w_Amount w) \<and>
      denom (w_Amount w) = denom (e_Balance e)) (GetWithdrawalsBySigner s a)"
proof -
  note I = fibre_invD [OF reachable_good(2) [OF assms(1,2)]]
  have e: "kv_get (st_escrow s) a = Some e" using assms(3) by (simp add: GetEscrowAccount_def)
  note O = escrows_okD [OF I(4) e] and rng = signer_range_exact [OF sdk_lawsD(3) [OF assms(1)] I(1,3,4) e]
  show ?thesis
    using O(5,6) signer_list_sum [of a s] signer_list_listed [OF I(1,3) e]
    unfolding rng by (auto simp: list_all_iff simp del: set_map)
qed

theorem escrow_accounting_witness:
  "\<exists>e. GetEscrowAccount ref_s1 ''abc'' = Some e \<and> amount (e_Balance e) =
    amount (e_Available e) + (\<Sum>w\<leftarrow>GetWithdrawalsBySigner ref_s1 ''abc''. amount (w_Amount w))"
proof -
  have "GetEscrowAccount ref_s1 ''abc'' = Some ref_escrow"
    by (simp add: GetEscrowAccount_def ref_s1_def empty_store_def)
  with escrow_accounting [OF ref_sdk_laws ref_s1_reach this] show ?thesis by blast
qed

text \<open>C3: In every reachable state the module's bank account holds at least the sum of all escrow
  balances, denomination by denomination.\<close>

theorem module_solvent:
  assumes "sdk_laws E" and "reach fibre_init (fibre_step E authority) (c, s)"
  shows "(\<Sum>e\<leftarrow>filter (\<lambda>e. denom (e_Balance e) = d) (map snd (st_escrow s)). amount (e_Balance e))
    \<le> st_bank s (ModAcct ModuleName) d"
proof -
  have "(\<Sum>e\<leftarrow>filter (\<lambda>e. denom (e_Balance e) = d) (map snd (st_escrow s)). amount (e_Balance e))
      = escrowed s d"
    by (simp add: escrowed_def kv_sum_def sum_list_map_filter' comp_def)
  also have "\<dots> \<le> st_bank s (ModAcct ModuleName) d"
    using fibre_invD(5) [OF reachable_good(2) [OF assms]] unfolding solvent_def by blast
  finally show ?thesis .
qed

theorem module_solvent_witness:
  "sdk_laws ref_sdk \<and> 5000000 \<le> st_bank ref_s1 (ModAcct ModuleName) ''utia''"
  using module_solvent [OF ref_sdk_laws ref_s1_reach, of "''utia''"]
  by (simp add: ref_s1_def empty_store_def ref_escrow_def)

text \<open>C8: The block hook never fails on a reachable state. It removes exactly the withdrawals that are
  due and whose recipient the bank accepts, credits every account with the sum of its due withdrawals,
  and drops exactly the replay records outside the retention window.\<close>

theorem begin_blocker_pays_due:
  assumes "sdk_laws E" and "reach fibre_init (fibre_step E authority) (c, s)"
  shows "\<exists>s'. fibre_BeginBlocker E c' s = Inr s' \<and>
    (\<forall>t r a. kv_get (st_wd_avail s') (t, r, a) =
      (if t \<le> BlockTime c' \<and> payable E a then None else kv_get (st_wd_avail s) (t, r, a))) \<and>
    (\<forall>x d. st_bank s' (UserAcct x) d = st_bank s (UserAcct x) d +
      payout E (GetWithdrawalsByAvailableIterator s (BlockTime c')) x d) \<and>
    (\<forall>t h. kv_get (st_pp_time s') (t, h) =
      (if t \<le> BlockTime c' - PaymentPromiseRetentionWindow (GetParams s) then None
       else kv_get (st_pp_time s) (t, h)))"
proof -
  obtain f where "GetPromiseFreshnessFloor s = Inr f"
    using reachable_good(1) [OF assms] floor_decodes by (auto simp: fibre_good_def)
  from BeginBlocker_spec [OF assms(1) reachable_good(2) [OF assms] this, of c'] show ?thesis by auto
qed

theorem begin_blocker_pays_due_witness:
  "\<exists>s'. fibre_BeginBlocker ref_sdk (ref_ctx\<lparr>BlockTime := 200 * hour\<rparr>) ref_s1 = Inr s' \<and>
    (\<forall>t h. kv_get (st_pp_time s') (t, h) = None)"
  using begin_blocker_pays_due [OF ref_sdk_laws ref_s1_reach, of "ref_ctx\<lparr>BlockTime := 200 * hour\<rparr>"]
  by (auto simp: ref_s1_def empty_store_def)

text \<open>C6: A PayForFibre that succeeds on a reachable state moves exactly the price of its blob from the
  module to the fee collector, takes it from the signer's available balance first and from the pending
  withdrawals for the rest, touches no other account, and leaves the promise marked as processed.\<close>

theorem pay_for_fibre_charges_exactly:
  assumes "sdk_laws E" and "reach fibre_init (fibre_step E authority) (c, s)"
    and "PayForFibre E c m s = Inr s'"
  shows "\<exists>pay e e'. PaymentAmount E (pb_BlobSize (pf_PaymentPromise m)) = Some pay \<and>
    GetEscrowAccount s (promise_signer E (pf_PaymentPromise m)) = Some e \<and>
    GetEscrowAccount s' (promise_signer E (pf_PaymentPromise m)) = Some e' \<and>
    amount (e_Balance e') = amount (e_Balance e) - amount pay \<and>
    amount (e_Available e') = max 0 (amount (e_Available e) - amount pay) \<and>
    pending s' (promise_signer E (pf_PaymentPromise m)) =
      pending s (promise_signer E (pf_PaymentPromise m)) - max 0 (amount pay - amount (e_Available e)) \<and>
    st_bank s' = move_coins (ModAcct ModuleName) (ModAcct FeeCollectorName) [pay] (st_bank s) \<and>
    (\<forall>b. b \<noteq> promise_signer E (pf_PaymentPromise m) \<longrightarrow>
       GetEscrowAccount s' b = GetEscrowAccount s b \<and> pending s' b = pending s b) \<and>
    IsPaymentPromiseProcessed E s' (pf_PaymentPromise m)"
proof -
  note inv = reachable_good(2) [OF assms(1,2)]
  from PayForFibre_Inr [OF assms(3)] obtain h s1 ev where st: "settle_step E c (pf_PaymentPromise m) False h s s1"
    and s': "s' = emit ev (SetProcessedPayment \<lparr>pp_Hash = h, pp_ProcessedAt = BlockTime c\<rparr> s1)" by blast
  note S = settle_step_spec [OF assms(1) inv st]
  have f: "GetEscrowAccount s' = GetEscrowAccount s1" "pending s' = pending s1" "st_bank s' = st_bank s1"
    by (simp_all add: s' emit_def SetProcessedPayment_def GetEscrowAccount_def fun_eq_iff)
  have "promiseHash E (pf_PaymentPromise m) = Inr h" using st by (simp add: settle_step_def)
  then have "IsPaymentPromiseProcessed E s' (pf_PaymentPromise m)"
    using fibre_invD(2) [OF S(1)]
    by (simp add: IsPaymentPromiseProcessed_def IsPaymentProcessedByHash_def s' emit_def SetProcessedPayment_def)
  with S(2) show ?thesis unfolding f settled_def GetEscrowAccount_def by blast
qed

theorem pay_for_fibre_charges_exactly_witness:
  "\<exists>s' pay. PayForFibre ref_sdk ref_ctx ref_pay ref_s1 = Inr s' \<and>
     PaymentAmount ref_sdk 300000 = Some pay \<and>
     st_bank s' = move_coins (ModAcct ModuleName) (ModAcct FeeCollectorName) [pay] (st_bank ref_s1)"
proof -
  obtain s' where s': "PayForFibre ref_sdk ref_ctx ref_pay ref_s1 = Inr s'"
    using validated_settles [OF ref_sdk_laws ref_s1_reach ref_pay_valid] by blast
  have "pb_BlobSize (pf_PaymentPromise ref_pay) = 300000" by (simp add: ref_pay_def ref_promise_def)
  with s' pay_for_fibre_charges_exactly [OF ref_sdk_laws ref_s1_reach s'] show ?thesis by auto
qed

text \<open>C7: A promise that passes both validations always settles: after validation no later step of
  PayForFibre can fail on a reachable state, so a validator that checked a promise can rely on being
  paid.\<close>

theorem validated_promise_settles:
  assumes "sdk_laws E" and "reach fibre_init (fibre_step E authority) (c, s)"
    and "ValidatePaymentPromiseInternal E c s (pf_PaymentPromise m) = Inr ()"
  shows "\<exists>s'. PayForFibre E c m s = Inr s'"
  by (rule validated_settles [OF assms])

theorem validated_promise_settles_witness:
  "\<exists>s'. PayForFibre ref_sdk ref_ctx ref_pay ref_s1 = Inr s'"
  by (rule validated_promise_settles [OF ref_sdk_laws ref_s1_reach ref_pay_valid])

end
