(* ===== verification/FibreReplay.thy ===== *)
theory FibreReplay
  imports FibreChain
begin

text \<open>
  Replay protection of x/fibre. A run of the chain carries the promises it has settled; the argument is
  that a settled promise stays spent, because its record outlives it or the freshness floor passes it
  first.
\<close>

section \<open>Histories\<close>

text \<open>The promise a message settles when it succeeds.\<close>

fun settles :: "fibre_msg \<Rightarrow> promise_pb option" where
  "settles (MsgPayForFibre m) = Some (pf_PaymentPromise m)"
| "settles (MsgPaymentPromiseTimeout m) = Some (to_PaymentPromise m)"
| "settles _ = None"

definition record_settlement :: "fibre_msg \<Rightarrow> promise_pb list \<Rightarrow> promise_pb list" where
  "record_settlement m ps = (case settles m of None \<Rightarrow> ps | Some p \<Rightarrow> p # ps)"

text \<open>A run of the chain with the promises it has settled so far, latest first.\<close>

inductive fibre_history :: "sdk \<Rightarrow> string \<Rightarrow> ctx \<times> fibre_state \<Rightarrow> promise_pb list \<Rightarrow> bool"
  for E :: sdk and authority :: string where
  h_init: "fibre_init x \<Longrightarrow> fibre_history E authority x []"
| h_block: "fibre_history E authority (c, s) ps \<Longrightarrow> BlockTime c < BlockTime c' \<Longrightarrow>
    fibre_BeginBlocker E c' s = Inr s' \<Longrightarrow> fibre_history E authority (c', s') ps"
| h_deliver: "fibre_history E authority (c, s) ps \<Longrightarrow> fibre_ValidateBasic E m = Inr () \<Longrightarrow>
    fibre_handle E authority c m s = Inr s' \<Longrightarrow>
    fibre_history E authority (c, s') (record_settlement m ps)"
| h_other: "fibre_history E authority (c, s) ps \<Longrightarrow>
    (\<And>d. st_bank s (ModAcct ModuleName) d \<le> b (ModAcct ModuleName) d) \<Longrightarrow>
    fibre_history E authority (c, s\<lparr>st_bank := b\<rparr>) ps"

lemma history_reach: "fibre_history E authority x ps \<Longrightarrow> reach fibre_init (fibre_step E authority) x"
proof (induction rule: fibre_history.induct)
  case (h_init x)
  then show ?case by (rule reach_init)
next
  case (h_block c s ps c' s')
  then show ?case by (blast intro: reach_step begin_block)
next
  case (h_deliver c s ps m s')
  then show ?case by (blast intro: reach_step deliver)
next
  case (h_other c s ps b)
  then show ?case by (blast intro: reach_step other_modules)
qed

text \<open>A settled promise stays spent: it is too old for the freshness floor, or its record is there and
  is young enough to outlive it.\<close>

definition spent :: "sdk \<Rightarrow> fibre_state \<Rightarrow> promise_pb \<Rightarrow> bool" where
  "spent E s p \<longleftrightarrow>
     (\<exists>f. GetPromiseFreshnessFloor s = Inr f \<and> pb_CreationTimestamp p \<le> f) \<or>
     (\<exists>h q. promiseHash E p = Inr h \<and> kv_get (st_pp_hash s) h = Some q \<and>
        pb_CreationTimestamp p \<le> pp_ProcessedAt q + MaxPromiseClockSkew)"

lemma spent_cong:
  "st_floor s' = st_floor s \<Longrightarrow> st_pp_hash s' = st_pp_hash s \<Longrightarrow> spent E s' p = spent E s p"
  by (simp add: spent_def GetPromiseFreshnessFloor_def)

lemma spent_not_settled:
  assumes "spent E s p"
  shows "\<not> settle_step E c p b h s s1"
proof
  assume "settle_step E c p b h s s1"
  then obtain t where t: "validatePaymentPromiseStatefulInternal E c s p b = Inr t"
    unfolding settle_step_def by blast
  note V = validate_stateful_Inr(1,3) [OF t]
  from V(2) have "promiseHash E p = Inr k \<Longrightarrow> kv_get (st_pp_hash s) k = None" for k
    by (simp add: IsPaymentPromiseProcessed_def IsPaymentProcessedByHash_def)
  with assms V(1) show False unfolding spent_def by auto
qed

lemma spent_after_settle:
  assumes laws: "sdk_laws E" and inv: "fibre_inv E s" and st: "settle_step E c p b h s s1"
    and s'_def: "s' = emit ev (SetProcessedPayment \<lparr>pp_Hash = h, pp_ProcessedAt = BlockTime c\<rparr> s1)"
  shows "spent E s' p" and "spent E s q \<Longrightarrow> spent E s' q"
proof -
  note fr = settle_frame [OF laws inv st] and S = settle_step_spec [OF laws inv st]
  have ok: "kv_ok (st_pp_hash s1)" using fibre_invD(2) [OF S(1)] by simp
  have get: "kv_get (st_pp_hash s') k = (if k = h then Some \<lparr>pp_Hash = h, pp_ProcessedAt = BlockTime c\<rparr>
      else kv_get (st_pp_hash s) k)" for k
    using ok fr(3) by (simp add: s'_def emit_def SetProcessedPayment_def)
  have fl: "GetPromiseFreshnessFloor s' = GetPromiseFreshnessFloor s"
    using fr(2) by (simp add: s'_def emit_def SetProcessedPayment_def GetPromiseFreshnessFloor_def)
  obtain t where "validatePaymentPromiseStatefulInternal E c s p b = Inr t" "promiseHash E p = Inr h"
    using st unfolding settle_step_def by blast
  then show "spent E s' p"
    using validate_stateful_Inr(2) get unfolding spent_def by fastforce
  show "spent E s' q" if "spent E s q"
    using that S(4) unfolding spent_def fl get by (metis option.distinct(1))
qed

text \<open>Pruning a record is safe: the floor has passed every promise the record stood for.\<close>

lemma spent_after_block:
  assumes laws: "sdk_laws E" and inv: "fibre_inv E s" and fl: "GetPromiseFreshnessFloor s = Inr f"
    and run: "fibre_BeginBlocker E c s = Inr s'" and sp: "spent E s p"
  shows "spent E s' p"
proof -
  let ?w = "WithdrawalDelay (GetParams s)"
  from BeginBlocker_spec [OF laws inv fl, of c] run
  have B: "fibre_inv E s'" "GetPromiseFreshnessFloor s' = Inr (max f (BlockTime c - ?w))"
    "\<And>t h. kv_get (st_pp_time s') (t, h) =
      (if t \<le> BlockTime c - PaymentPromiseRetentionWindow (GetParams s) then None
       else kv_get (st_pp_time s) (t, h))" by auto
  from sp consider "pb_CreationTimestamp p \<le> f"
    | h q where "promiseHash E p = Inr h" "kv_get (st_pp_hash s) h = Some q"
        "pb_CreationTimestamp p \<le> pp_ProcessedAt q + MaxPromiseClockSkew"
    unfolding spent_def fl by auto
  then show ?thesis
  proof cases
    case 1
    then show ?thesis unfolding spent_def B(2) by auto
  next
    case 2
    show ?thesis
    proof (cases "pp_ProcessedAt q \<le> BlockTime c - PaymentPromiseRetentionWindow (GetParams s)")
      case True
      then have "pb_CreationTimestamp p \<le> BlockTime c - ?w"
        using 2(3) by (simp add: PaymentPromiseRetentionWindow_def)
      then show ?thesis unfolding spent_def B(2) by auto
    next
      case False
      have "kv_get (st_pp_time s) (pp_ProcessedAt q, h) = Some q"
        using pp_hashD(2) [OF fibre_invD(2) [OF inv] 2(2)] .
      then have "kv_get (st_pp_time s') (pp_ProcessedAt q, h) = Some q" using B(3) False by simp
      then have "kv_get (st_pp_hash s') h = Some q" using pp_timeD(2) [OF fibre_invD(2) [OF B(1)]] by blast
      then show ?thesis using 2 unfolding spent_def by blast
    qed
  qed
qed

lemma handle_settles:
  assumes "fibre_handle E authority c m s = Inr s'" and "settles m = Some p"
  shows "\<exists>b h s1 ev. settle_step E c p b h s s1 \<and>
    s' = emit ev (SetProcessedPayment \<lparr>pp_Hash = h, pp_ProcessedAt = BlockTime c\<rparr> s1)"
  using assms
proof (cases m)
  case (MsgPayForFibre x)
  then show ?thesis using PayForFibre_Inr [of E c x s s'] assms by auto
next
  case (MsgPaymentPromiseTimeout x)
  then show ?thesis using Timeout_Inr [of E c x s s'] assms by auto
qed auto

lemma handle_frame:
  assumes "fibre_handle E authority c m s = Inr s'" and "settles m = None"
  shows "st_floor s' = st_floor s \<and> st_pp_hash s' = st_pp_hash s"
  using assms
  by (cases m) (auto simp: DepositToEscrow_def RequestWithdrawal_def UpdateFibreParams_def emit_def
      SetEscrowAccount_def SetWithdrawal_def SetParams_def Let_def)

lemma history_spent:
  assumes laws: "sdk_laws E" and hist: "fibre_history E authority x ps"
  shows "distinct ps \<and> (\<forall>p\<in>set ps. spent E (snd x) p)"
  using hist
proof (induction rule: fibre_history.induct)
  case (h_init x)
  then show ?case by simp
next
  case (h_block c s ps c' s')
  note good = reachable_good [OF laws history_reach [OF h_block(1)]]
  obtain f where f: "GetPromiseFreshnessFloor s = Inr f"
    using good(1) floor_decodes by (auto simp: fibre_good_def)
  show ?case using h_block.IH spent_after_block [OF laws good(2) f h_block(3)] by simp
next
  case (h_deliver c s ps m s')
  note inv = reachable_good(2) [OF laws history_reach [OF h_deliver(1)]]
  show ?case
  proof (cases "settles m")
    case None
    from handle_frame [OF h_deliver(3) None] show ?thesis
      using h_deliver.IH None spent_cong [of s' s E] by (simp add: record_settlement_def)
  next
    case (Some p)
    from handle_settles [OF h_deliver(3) Some] obtain b h s1 ev where st: "settle_step E c p b h s s1"
      and s': "s' = emit ev (SetProcessedPayment \<lparr>pp_Hash = h, pp_ProcessedAt = BlockTime c\<rparr> s1)" by blast
    note A = spent_after_settle [OF laws inv st s']
    have "p \<notin> set ps" using h_deliver.IH spent_not_settled st by auto
    then show ?thesis using h_deliver.IH A Some by (auto simp: record_settlement_def)
  qed
next
  case (h_other c s ps b)
  then show ?case using spent_cong [of "s\<lparr>st_bank := b\<rparr>" s E] by simp
qed

section \<open>Properties\<close>

text \<open>C1: No promise is ever settled twice: along every run of the chain, through parameter changes,
  pruned replay records and both settlement messages, the settled promises are pairwise different.\<close>

theorem no_double_settlement:
  assumes "sdk_laws E" and "fibre_history E authority x ps"
  shows "distinct ps"
  using history_spent [OF assms] by blast

theorem no_double_settlement_witness:
  "\<exists>x. fibre_history ref_sdk ''gov'' x [ref_promise] \<and> distinct [ref_promise]"
proof -
  have "\<forall>d. 0 \<le> ref_bank (ModAcct ModuleName) d" by (simp add: ref_bank_def)
  then have "fibre_init (ref_ctx, ref_s0)" unfolding fibre_init_def ref_s0_def by auto
  then have "fibre_history ref_sdk ''gov'' (ref_ctx, ref_s0) []" by (rule h_init)
  from h_deliver [OF this ref_deposit_basic] ref_deposit_run
  have "fibre_history ref_sdk ''gov'' (ref_ctx, ref_s1) []" by (simp add: record_settlement_def)
  moreover obtain s' where "PayForFibre ref_sdk ref_ctx ref_pay ref_s1 = Inr s'"
    using validated_settles [OF ref_sdk_laws ref_s1_reach ref_pay_valid] by blast
  moreover have "fibre_ValidateBasic ref_sdk (MsgPayForFibre ref_pay) = Inr ()"
    by (simp add: MsgPayForFibre_ValidateBasic_def PaymentPromise_ValidateBasic_def ref_pay_def
        ref_promise_def ref_sdk_def NamespaceSize_def PubKeySize_def validateBlobVersion_def
        BlobVersionZero_def ref_pad_def)
  ultimately have "fibre_history ref_sdk ''gov'' (ref_ctx, s') [ref_promise]"
    using h_deliver [of ref_sdk "''gov''" ref_ctx ref_s1 "[]" "MsgPayForFibre ref_pay" s']
    by (simp add: record_settlement_def ref_pay_def)
  then show ?thesis using no_double_settlement [OF ref_sdk_laws] by blast
qed

text \<open>C11: The freshness floor only moves forward: no step of a reachable chain lowers it, whatever
  governance does to the parameters.\<close>

theorem freshness_floor_monotone:
  assumes laws: "sdk_laws E" and re: "reach fibre_init (fibre_step E authority) (c, s)"
    and step: "fibre_step E authority (c, s) (c', s')"
  shows "\<exists>f f'. GetPromiseFreshnessFloor s = Inr f \<and> GetPromiseFreshnessFloor s' = Inr f' \<and> f \<le> f'"
proof -
  note good = reachable_good [OF laws re]
  obtain f where f: "GetPromiseFreshnessFloor s = Inr f"
    using good(1) floor_decodes by (auto simp: fibre_good_def)
  from step show ?thesis
  proof (cases rule: fibre_step.cases)
    case begin_block
    with BeginBlocker_spec [OF laws good(2) f, of c'] f show ?thesis by auto
  next
    case (deliver m)
    have "st_floor s' = st_floor s"
    proof (cases "settles m")
      case None
      then show ?thesis using handle_frame [OF deliver(3)] by simp
    next
      case (Some p)
      from handle_settles [OF deliver(3) Some] obtain b h s1 ev where st: "settle_step E c p b h s s1"
        and s': "s' = emit ev (SetProcessedPayment \<lparr>pp_Hash = h, pp_ProcessedAt = BlockTime c\<rparr> s1)" by blast
      show ?thesis using settle_frame(2) [OF laws good(2) st]
        by (simp add: s' emit_def SetProcessedPayment_def)
    qed
    then show ?thesis using f by (simp add: GetPromiseFreshnessFloor_def)
  next
    case (other_modules b)
    then show ?thesis using f by (simp add: GetPromiseFreshnessFloor_def)
  qed
qed

theorem freshness_floor_monotone_witness:
  "\<exists>f f'. GetPromiseFreshnessFloor ref_s0 = Inr f \<and> GetPromiseFreshnessFloor ref_s1 = Inr f' \<and> f \<le> f'"
proof (rule freshness_floor_monotone [OF ref_sdk_laws ref_s0_reach])
  show "fibre_step ref_sdk ''gov'' (ref_ctx, ref_s0) (ref_ctx, ref_s1)"
    by (rule deliver [OF ref_deposit_basic]) (simp add: ref_deposit_run)
qed

end
