(* ===== verification/FibreExport.thy ===== *)
theory FibreExport
  imports FibreChain
begin

text \<open>
  Genesis export and import of x/fibre are inverse on every reachable state.
\<close>

section \<open>Rebuilding an index\<close>

lemma kv_ext:
  fixes m n :: "('k::linorder, 'v) kv"
  assumes "kv_ok m" and "kv_ok n" and "\<And>k. kv_get m k = kv_get n k"
  shows "m = n"
proof -
  have s: "set m = set n"
    using assms(3) kv_mem_iff [OF assms(1)] kv_mem_iff [OF assms(2)] by auto
  have "map fst m = map fst n"
    using assms(1,2) s unfolding kv_ok_def
    by (intro sorted_distinct_set_unique) (auto simp: strict_sorted_iff simp flip: s)
  then have keys: "length m = length n" "\<And>i. i < length m \<Longrightarrow> fst (m ! i) = fst (n ! i)"
    by (metis length_map) (metis (no_types, lifting) \<open>map fst m = map fst n\<close> length_map nth_map)
  show ?thesis
  proof (rule nth_equalityI [OF keys(1)])
    fix i assume i: "i < length m"
    have "kv_get m (fst (m ! i)) = Some (snd (m ! i))"
      using i kv_mem_iff [OF assms(1), of "fst (m ! i)" "snd (m ! i)"] by simp
    moreover have "kv_get n (fst (n ! i)) = Some (snd (n ! i))"
      using i keys(1) kv_mem_iff [OF assms(2), of "fst (n ! i)" "snd (n ! i)"] by simp
    ultimately show "m ! i = n ! i" using keys(2) [OF i] assms(3) by (simp add: prod_eq_iff)
  qed
qed

lemma kv_fold_ok: "kv_ok m \<Longrightarrow> kv_ok (fold (\<lambda>v. kv_set (key v) v) vs m)"
  by (induction vs arbitrary: m) auto

lemma kv_fold_get:
  "kv_ok m \<Longrightarrow> distinct (map key vs) \<Longrightarrow>
   kv_get (fold (\<lambda>v. kv_set (key v) v) vs m) k =
     (case find (\<lambda>v. key v = k) vs of Some v \<Rightarrow> Some v | None \<Rightarrow> kv_get m k)"
proof (induction vs arbitrary: m)
  case (Cons v vs)
  show ?case
  proof (cases "key v = k")
    case True
    then have "find (\<lambda>v. key v = k) vs = None" using Cons.prems(2) unfolding find_None_iff by (metis distinct.simps(2) image_eqI list.set_map list.simps(9))
    then show ?thesis using Cons True by simp
  next
    case False
    then show ?thesis using Cons by (auto split: option.split)
  qed
qed simp

text \<open>Writing back the values of an index, under any key that identifies them, gives the index of
  that key.\<close>

lemma kv_rebuild:
  assumes ok: "kv_ok n" and "distinct vs"
    and stored: "\<And>v. v \<in> set vs \<Longrightarrow> kv_get n (key v) = Some v"
    and only: "\<And>k v. kv_get n k = Some v \<Longrightarrow> v \<in> set vs \<and> key v = k"
  shows "fold (\<lambda>v. kv_set (key v) v) vs [] = n"
proof (rule kv_ext)
  fix k
  have "inj_on key (set vs)" using stored by (metis inj_onI option.inject)
  then have dist: "distinct (map key vs)" using assms(2) by (simp add: distinct_map)
  show "kv_get (fold (\<lambda>v. kv_set (key v) v) vs []) k = kv_get n k"
  proof (cases "find (\<lambda>v. key v = k) vs")
    case None
    then have "kv_get n k = None" using only [of k] by (cases "kv_get n k") (auto simp: find_None_iff)
    then show ?thesis using kv_fold_get [of "[]" key vs k] dist None by simp
  next
    case (Some v)
    then have "v \<in> set vs" "key v = k" by (auto simp: find_Some_iff in_set_conv_nth)
    then show ?thesis using kv_fold_get [of "[]" key vs k] dist stored Some by auto
  qed
qed (simp_all add: ok kv_fold_ok)

lemma kv_values:
  assumes ok: "kv_ok m" and key: "\<And>k v. kv_get m k = Some v \<Longrightarrow> f v = k"
  shows "distinct (map snd m)" and "v \<in> set (map snd m) \<longleftrightarrow> kv_get m (f v) = Some v"
proof -
  have f: "f (snd p) = fst p" if "p \<in> set m" for p
    using that key [of "fst p" "snd p"] kv_mem_iff [OF ok, of "fst p" "snd p"] by simp
  then have "map f (map snd m) = map fst m" by simp
  then show "distinct (map snd m)" using kv_distinct [OF ok] by (metis distinct_map)
  show "v \<in> set (map snd m) \<longleftrightarrow> kv_get m (f v) = Some v"
  proof
    assume "v \<in> set (map snd m)"
    then obtain p where "p \<in> set m" "v = snd p" by auto
    then show "kv_get m (f v) = Some v" using f kv_mem_iff [OF ok, of "fst p" "snd p"] by simp
  qed (use kv_mem_iff [OF ok] in force)
qed

lemma kv_rebuild_primary:
  assumes ok: "kv_ok m" and key: "\<And>k v. kv_get m k = Some v \<Longrightarrow> f v = k"
  shows "fold (\<lambda>v. kv_set (f v) v) (map snd m) [] = m"
proof (rule kv_rebuild [OF ok kv_values(1) [where f = f, OF ok key]])
  fix v assume "v \<in> set (map snd m)"
  then show "kv_get m (f v) = Some v" using kv_values(2) [where f = f, OF ok key] by blast
next
  fix k v assume g: "kv_get m k = Some v"
  then have "f v = k" by (rule key)
  then show "v \<in> set (map snd m) \<and> f v = k" using kv_values(2) [where f = f, OF ok key] g by blast
qed

section \<open>Import\<close>

lemma fold_SetEscrowAccount:
  "fold SetEscrowAccount as s = s\<lparr>st_escrow := fold (\<lambda>a. kv_set (e_Signer a) a) as (st_escrow s)\<rparr>"
  by (induction as arbitrary: s) (simp_all add: SetEscrowAccount_def)

lemma fold_SetWithdrawal:
  "fold SetWithdrawal ws s = s\<lparr>
     st_wd_signer := fold (\<lambda>w. kv_set (w_Signer w, w_Requested w) w) ws (st_wd_signer s),
     st_wd_avail := fold (\<lambda>w. kv_set (w_Available w, w_Requested w, w_Signer w) w) ws (st_wd_avail s)\<rparr>"
  by (induction ws arbitrary: s) (simp_all add: SetWithdrawal_def)

lemma fold_SetProcessedPayment:
  "fold SetProcessedPayment ps s = s\<lparr>
     st_pp_hash := fold (\<lambda>p. kv_set (pp_Hash p) p) ps (st_pp_hash s),
     st_pp_time := fold (\<lambda>p. kv_set (pp_ProcessedAt p, pp_Hash p) p) ps (st_pp_time s)\<rparr>"
  by (induction ps arbitrary: s) (simp_all add: SetProcessedPayment_def)

lemma rebuild_escrow:
  assumes esc: "escrows_ok E s"
  shows "fold (\<lambda>a. kv_set (e_Signer a) a) (map snd (st_escrow s)) [] = st_escrow s"
  by (rule kv_rebuild_primary [where f = e_Signer, OF escrows_ok_kv [OF esc] escrows_okD(1) [OF esc]])

lemma rebuild_withdrawals:
  assumes coh: "wd_coherent s"
  shows "fold (\<lambda>w. kv_set (w_Signer w, w_Requested w) w) (map snd (st_wd_signer s)) [] = st_wd_signer s"
    and "fold (\<lambda>w. kv_set (w_Available w, w_Requested w, w_Signer w) w) (map snd (st_wd_signer s)) [] =
      st_wd_avail s"
proof -
  let ?k = "\<lambda>w. (w_Signer w, w_Requested w)"
  have key: "?k w = k" if "kv_get (st_wd_signer s) k = Some w" for k w
    using wd_signerD(1,2) [OF coh, of "fst k" "snd k" w] that by (simp add: prod_eq_iff)
  note V = kv_values [where f = ?k, OF wd_coherentD(1) [OF coh] key]
  show "fold (\<lambda>w. kv_set (?k w) w) (map snd (st_wd_signer s)) [] = st_wd_signer s"
    by (rule kv_rebuild_primary [where f = ?k, OF wd_coherentD(1) [OF coh] key])
  show "fold (\<lambda>w. kv_set (w_Available w, w_Requested w, w_Signer w) w) (map snd (st_wd_signer s)) [] =
      st_wd_avail s"
  proof (rule kv_rebuild [OF wd_coherentD(2) [OF coh] V(1)])
    fix w assume "w \<in> set (map snd (st_wd_signer s))"
    then have "kv_get (st_wd_signer s) (?k w) = Some w" using V(2) by simp
    then show "kv_get (st_wd_avail s) (w_Available w, w_Requested w, w_Signer w) = Some w"
      using wd_signerD(3) [OF coh] by simp
  next
    fix k w assume "kv_get (st_wd_avail s) k = Some w"
    then have "kv_get (st_wd_avail s) (fst k, fst (snd k), snd (snd k)) = Some w" by simp
    note A = wd_availD [OF coh this]
    from wd_signerD(1,2) [OF coh A(2)] A V(2) [of w]
    show "w \<in> set (map snd (st_wd_signer s)) \<and> (w_Available w, w_Requested w, w_Signer w) = k" by simp
  qed
qed

lemma rebuild_processed:
  assumes coh: "pp_coherent s"
  shows "fold (\<lambda>p. kv_set (pp_Hash p) p) (map snd (st_pp_hash s)) [] = st_pp_hash s"
    and "fold (\<lambda>p. kv_set (pp_ProcessedAt p, pp_Hash p) p) (map snd (st_pp_hash s)) [] = st_pp_time s"
proof -
  note V = kv_values [where f = pp_Hash, OF pp_coherentD(1) [OF coh] pp_hashD(1) [OF coh]]
  show "fold (\<lambda>p. kv_set (pp_Hash p) p) (map snd (st_pp_hash s)) [] = st_pp_hash s"
    by (rule kv_rebuild_primary [where f = pp_Hash, OF pp_coherentD(1) [OF coh] pp_hashD(1) [OF coh]])
  show "fold (\<lambda>p. kv_set (pp_ProcessedAt p, pp_Hash p) p) (map snd (st_pp_hash s)) [] = st_pp_time s"
  proof (rule kv_rebuild [OF pp_coherentD(2) [OF coh] V(1)])
    fix p assume "p \<in> set (map snd (st_pp_hash s))"
    then have "kv_get (st_pp_hash s) (pp_Hash p) = Some p" using V(2) by simp
    then show "kv_get (st_pp_time s) (pp_ProcessedAt p, pp_Hash p) = Some p" by (rule pp_hashD(2) [OF coh])
  next
    fix k p assume "kv_get (st_pp_time s) k = Some p"
    then have "kv_get (st_pp_time s) (fst k, snd k) = Some p" by simp
    note A = pp_timeD [OF coh this]
    from pp_hashD(1) [OF coh A(2)] A V(2) [of p]
    show "p \<in> set (map snd (st_pp_hash s)) \<and> (pp_ProcessedAt p, pp_Hash p) = k" by simp
  qed
qed

lemma export_import:
  assumes inv: "fibre_inv E s" and ex: "fibre_ExportGenesis s = Inr gs"
    and s'_def: "s' = fibre_InitGenesis gs (empty_store b)"
  shows "st_escrow s' = st_escrow s \<and> st_wd_signer s' = st_wd_signer s \<and> st_wd_avail s' = st_wd_avail s \<and>
    st_pp_hash s' = st_pp_hash s \<and> st_pp_time s' = st_pp_time s \<and> GetParams s' = GetParams s \<and>
    GetPromiseFreshnessFloor s' = GetPromiseFreshnessFloor s"
proof -
  note I = fibre_invD [OF inv]
  obtain f where f: "GetPromiseFreshnessFloor s = Inr f"
    and gs: "gs = \<lparr>gs_Params = GetParams s, gs_EscrowAccounts = map snd (st_escrow s),
      gs_Withdrawals = map snd (st_wd_signer s), gs_ProcessedPayments = map snd (st_pp_hash s),
      gs_PromiseFreshnessFloor = f\<rparr>"
    using ex by (auto simp: ExportGenesis_eq)
  have "s' = (empty_store b)\<lparr>st_params := Some (GetParams s), st_escrow := st_escrow s,
      st_wd_signer := st_wd_signer s, st_wd_avail := st_wd_avail s, st_pp_hash := st_pp_hash s,
      st_pp_time := st_pp_time s, st_floor := if f \<noteq> 0 then Some (Stamp f) else None\<rparr>"
    unfolding s'_def gs fibre_InitGenesis_def Let_def fold_SetEscrowAccount fold_SetWithdrawal
      fold_SetProcessedPayment
    by (simp add: SetParams_def SetPromiseFreshnessFloor_def empty_store_def rebuild_escrow [OF I(4)]
        rebuild_withdrawals [OF I(1)] rebuild_processed [OF I(2)] del: map_map)
  then show ?thesis using f by (simp add: GetParams_def GetPromiseFreshnessFloor_def)
qed

section \<open>Properties\<close>

text \<open>C12: Exporting a reachable state always succeeds, and importing the export into an empty store
  restores every index, the parameters and the freshness floor, so replay protection survives a
  restart from genesis.\<close>

theorem genesis_export_import:
  assumes "sdk_laws E" and "reach fibre_init (fibre_step E authority) (c, s)"
  shows "\<exists>gs s'. fibre_ExportGenesis s = Inr gs \<and> s' = fibre_InitGenesis gs (empty_store b) \<and>
    st_escrow s' = st_escrow s \<and> st_wd_signer s' = st_wd_signer s \<and> st_wd_avail s' = st_wd_avail s \<and>
    st_pp_hash s' = st_pp_hash s \<and> st_pp_time s' = st_pp_time s \<and> GetParams s' = GetParams s \<and>
    GetPromiseFreshnessFloor s' = GetPromiseFreshnessFloor s"
proof -
  note good = reachable_good [OF assms]
  obtain f where "GetPromiseFreshnessFloor s = Inr f"
    using good(1) floor_decodes by (auto simp: fibre_good_def)
  then obtain gs where "fibre_ExportGenesis s = Inr gs" by (simp add: ExportGenesis_eq)
  with export_import [OF good(2) this refl] show ?thesis by blast
qed

theorem genesis_export_import_witness:
  "\<exists>gs. fibre_ExportGenesis ref_s1 = Inr gs \<and>
     st_escrow (fibre_InitGenesis gs (empty_store ref_bank)) = [(''abc'', ref_escrow)]"
  using genesis_export_import [OF ref_sdk_laws ref_s1_reach, of ref_bank]
  by (auto simp: ref_s1_def)

end
