(* ===== verification/GoInt.thy ===== *)
theory GoInt
  imports Prelude
begin

text \<open>
  Go's signed 64-bit integers: the words of \<open>HOL-Library.Word\<close>, read by \<open>sint\<close>. Addition and
  multiplication wrap; division truncates towards zero and panics on a zero divisor. The lemmas read an
  expression back as integer arithmetic when nothing overflows.
\<close>

named_theorems i64_simps \<open>a signed 64-bit operation that stays in range is the integer operation\<close>

abbreviation i64 :: "int \<Rightarrow> int64" where
  "i64 \<equiv> word_of_int"

definition i64_range :: "int \<Rightarrow> bool" where
  "i64_range k \<longleftrightarrow> - (2 ^ 63) \<le> k \<and> k < 2 ^ 63"

definition quot :: "int \<Rightarrow> int \<Rightarrow> int" where
  "quot a b = (if (a < 0) = (b < 0) then \<bar>a\<bar> div \<bar>b\<bar> else - (\<bar>a\<bar> div \<bar>b\<bar>))"

definition i64_div :: "int64 \<Rightarrow> int64 \<Rightarrow> int64 option" where
  "i64_div a b = (if b = 0 then None else Some (i64 (quot (sint a) (sint b))))"

definition i64_max :: "int64 \<Rightarrow> int64 \<Rightarrow> int64" where
  "i64_max a b = (if sint a < sint b then b else a)"

definition i64_min :: "int64 \<Rightarrow> int64 \<Rightarrow> int64" where
  "i64_min a b = (if sint b < sint a then b else a)"

text \<open>\<open>Int64\<close> and \<open>Uint64\<close> of the SDK's unbounded integers panic out of range.\<close>

definition Int_Int64 :: "int \<Rightarrow> int64 option" where
  "Int_Int64 n = (if i64_range n then Some (i64 n) else None)"

definition Int_Uint64 :: "int \<Rightarrow> uint64 option" where
  "Int_Uint64 n = (if 0 \<le> n \<and> n < 2 ^ 64 then Some (word_of_int n) else None)"

lemma sint_i64: "i64_range k \<Longrightarrow> sint (i64 k) = k"
  unfolding sint_sbintrunc' i64_range_def by (simp add: signed_take_bit_int_eq_self)

lemma sint_uint_small:
  assumes "uint (v :: int64) < 2 ^ 63"
  shows "sint v = uint v"
proof -
  have "i64_range (uint v)" unfolding i64_range_def using assms uint_ge_0 [of v] by linarith
  from sint_i64 [OF this] show ?thesis by simp
qed

lemma sint_in_range: "i64_range (sint (a :: int64))"
  unfolding i64_range_def using sint_greater_eq [of a] sint_less [of a] by simp

lemma sint_add_exact [i64_simps]:
  assumes "i64_range (sint a + sint b)"
  shows "sint (a + b :: int64) = sint a + sint b"
  using sint_i64 [OF assms] by simp

lemma sint_sub_exact [i64_simps]:
  assumes "i64_range (sint a - sint b)"
  shows "sint (a - b :: int64) = sint a - sint b"
  using sint_i64 [OF assms] by simp

lemma sint_mult_exact [i64_simps]:
  assumes "i64_range (sint a * sint b)"
  shows "sint (a * b :: int64) = sint a * sint b"
  using sint_i64 [OF assms] by simp

lemma sint_eq_0_iff [simp]: "sint (b :: int64) = 0 \<longleftrightarrow> b = 0"
  by (rule signed_eq_0_iff)

lemma quot_nonneg: "0 \<le> a \<Longrightarrow> 0 < b \<Longrightarrow> quot a b = a div b"
  by (simp add: quot_def)

lemma int_div_le_self:
  fixes a b :: int
  assumes "0 \<le> a" and "0 < b"
  shows "a div b \<le> a"
proof -
  have "a div b \<le> a div 1" using assms by (intro zdiv_mono2) auto
  then show ?thesis by simp
qed

lemma i64_div_nonneg [i64_simps]:
  assumes "0 \<le> sint a" and "0 < sint b"
  shows "i64_div a b = Some (i64 (sint a div sint b))" and "sint (i64 (sint a div sint b)) = sint a div sint b"
proof -
  have "b \<noteq> 0" using assms(2) by auto
  then show "i64_div a b = Some (i64 (sint a div sint b))"
    using assms by (simp add: i64_div_def quot_nonneg)
  have "0 \<le> sint a div sint b" "sint a div sint b \<le> sint a"
    using assms by (simp_all add: pos_imp_zdiv_nonneg_iff int_div_le_self)
  then show "sint (i64 (sint a div sint b)) = sint a div sint b"
    using sint_in_range [of a] by (intro sint_i64) (simp add: i64_range_def)
qed

lemma sint_max [simp]: "sint (i64_max a b) = max (sint a) (sint b)"
  by (simp add: i64_max_def max_def)

lemma sint_min [simp]: "sint (i64_min a b) = min (sint a) (sint b)"
  by (simp add: i64_min_def min_def)

end
