(* ===== verification/ValidatorSet.thy ===== *)
theory ValidatorSet
  imports GoInt FibreMsgs "HOL-Library.Multiset"
begin

text \<open>
  Validator sets of the fibre client and server (\<open>fibre/validator\<close>) and the quorum check of x/fibre
  (\<open>keeper/msg_server.go\<close>): collecting signatures up to a share of the voting power, assigning rows of
  a blob to validators in proportion to their stake, and verifying what a validator was sent. CometBFT's
  \<open>ValidatorSet\<close>, the staking keeper and Ed25519 are parameters; Go's shuffles are modelled, their
  random draws are a parameter.
\<close>

section \<open>Data\<close>

record cmt_validator =
  v_Address :: string
  v_PubKey :: bytes
  v_VotingPower :: int64

record fraction =
  Numerator :: uint64
  Denominator :: uint64

text \<open>A set holds the validators in the order CometBFT sorts them.\<close>

record val_set =
  vs_Validators :: "cmt_validator list"
  vs_Height :: uint64

record cometbft =
  NewValidatorSet :: "cmt_validator list \<Rightarrow> cmt_validator list option"
  TotalVotingPower :: "cmt_validator list \<Rightarrow> int64"
  ed25519_Verify :: "bytes \<Rightarrow> bytes \<Rightarrow> bytes \<Rightarrow> bool"

text \<open>
  CometBFT rejects duplicate addresses, powers that are not positive and totals above an eighth of the
  largest integer, and only reorders what it is given.
\<close>

definition cometbft_laws :: "cometbft \<Rightarrow> bool" where
  "cometbft_laws C \<longleftrightarrow>
     (\<forall>vs ws. NewValidatorSet C vs = Some ws \<longrightarrow>
        mset ws = mset vs \<and> distinct (map v_Address vs) \<and> (\<forall>v\<in>set vs. 0 < sint (v_VotingPower v)) \<and>
        (\<Sum>v\<leftarrow>vs. sint (v_VotingPower v)) \<le> (2 ^ 63 - 1) div 8 \<and>
        sint (TotalVotingPower C ws) = (\<Sum>v\<leftarrow>vs. sint (v_VotingPower v)))"

definition GetByAddress :: "val_set \<Rightarrow> string \<Rightarrow> cmt_validator option" where
  "GetByAddress s address = find (\<lambda>v. v_Address v = address) (vs_Validators s)"

section \<open>Signature sets\<close>

record signature_set =
  requiredBytesSigned :: bytes
  minRequiredVotingPower :: int64
  ss_validators :: "cmt_validator list"
  votingPower :: int64
  signatures :: "(string, bytes) kv"

datatype sig_err =
    InvalidSignature string
  | NotEnoughSignatures "bytes option list" int64 int64
  | ErrHistoricalInfo | ErrConsPubKey | ErrPubKeySize | ErrTokensOverflow | ErrSignatureIndex
  | SigPromise promise_err | SigPanic

definition NewSignatureSet ::
  "cometbft \<Rightarrow> val_set \<Rightarrow> fraction \<Rightarrow> bytes \<Rightarrow> signature_set option" where
  "NewSignatureSet C s target msg =
     (case i64_div (TotalVotingPower C (vs_Validators s) * Numerator target) (Denominator target) of
        None \<Rightarrow> None
      | Some required \<Rightarrow> Some \<lparr>requiredBytesSigned = msg, minRequiredVotingPower = required,
          ss_validators = vs_Validators s, votingPower = 0, signatures = []\<rparr>)"

definition SignatureSet_Add ::
  "cometbft \<Rightarrow> cmt_validator \<Rightarrow> bytes \<Rightarrow> signature_set \<Rightarrow> sig_err + bool \<times> signature_set" where
  "SignatureSet_Add C val sg ss =
     (if \<not> ed25519_Verify C (v_PubKey val) (requiredBytesSigned ss) sg
      then Inl (InvalidSignature (v_Address val))
      else case kv_get (signatures ss) (v_Address val) of
        Some _ \<Rightarrow> Inr (sint (minRequiredVotingPower ss) \<le> sint (votingPower ss), ss)
      | None \<Rightarrow>
          let ss' = ss\<lparr>votingPower := votingPower ss + v_VotingPower val,
                       signatures := kv_set (v_Address val) sg (signatures ss)\<rparr>
          in Inr (sint (minRequiredVotingPower ss') \<le> sint (votingPower ss'), ss'))"

definition SignatureSet_Signatures :: "signature_set \<Rightarrow> sig_err + bytes option list" where
  "SignatureSet_Signatures ss =
     (let ordered = map (\<lambda>v. kv_get (signatures ss) (v_Address v)) (ss_validators ss) in
      if sint (votingPower ss) < sint (minRequiredVotingPower ss)
      then Inl (NotEnoughSignatures ordered (votingPower ss) (minRequiredVotingPower ss))
      else Inr ordered)"

section \<open>The quorum check\<close>

text \<open>A validator of the staking module: its consensus key may fail to decode, its tokens may exceed a
  signed 64-bit integer (\<open>Int.Int64\<close> panics).\<close>

record staking_validator =
  sv_ConsPubKey :: "bytes option"
  sv_Tokens :: int

definition ed25519_PubKeySize :: nat where
  "ed25519_PubKeySize = 32"

fun cmt_validators ::
  "(bytes \<Rightarrow> string) \<Rightarrow> staking_validator list \<Rightarrow> sig_err + cmt_validator list" where
  "cmt_validators address_of [] = Inr []"
| "cmt_validators address_of (v # vs) =
     rbind (of_opt ErrConsPubKey (sv_ConsPubKey v)) (\<lambda>pubKey.
     rbind (require (length pubKey = ed25519_PubKeySize) ErrPubKeySize) (\<lambda>_.
     rbind (of_opt ErrTokensOverflow (Int_Int64 (sv_Tokens v))) (\<lambda>power.
     rbind (cmt_validators address_of vs) (\<lambda>rest.
     Inr (\<lparr>v_Address = address_of pubKey, v_PubKey = pubKey, v_VotingPower = power\<rparr> # rest)))))"

text \<open>The loop over the submitted signatures: \<open>Inr True\<close> is the early return on a quorum.\<close>

fun add_signatures ::
  "cometbft \<Rightarrow> cmt_validator list \<Rightarrow> nat \<Rightarrow> bytes list \<Rightarrow> signature_set \<Rightarrow>
   sig_err + bool \<times> signature_set" where
  "add_signatures C vals i [] ss = Inr (False, ss)"
| "add_signatures C vals i (sg # sgs) ss =
     (if sg = [] then add_signatures C vals (Suc i) sgs ss
      else if length vals \<le> i then Inl ErrSignatureIndex
      else rbind (SignatureSet_Add C (vals ! i) sg ss) (\<lambda>(enough, ss').
        if enough then Inr (True, ss') else add_signatures C vals (Suc i) sgs ss'))"

definition twoThirds :: fraction where
  "twoThirds = \<lparr>Numerator = 2, Denominator = 3\<rparr>"

definition validateValidatorSignatures ::
  "cometbft \<Rightarrow> (bytes \<Rightarrow> string) \<Rightarrow> (int64 \<Rightarrow> staking_validator list option) \<Rightarrow>
   bytes \<Rightarrow> int64 \<Rightarrow> bytes list \<Rightarrow> sig_err + unit" where
  "validateValidatorSignatures C address_of GetHistoricalInfo signBytes height sgs =
     rbind (of_opt ErrHistoricalInfo (GetHistoricalInfo height)) (\<lambda>valset.
     rbind (cmt_validators address_of valset) (\<lambda>vals.
     rbind (of_opt SigPanic (NewValidatorSet C vals)) (\<lambda>sorted_vals.
     rbind (of_opt SigPanic (NewSignatureSet C \<lparr>vs_Validators = sorted_vals, vs_Height = height\<rparr>
              twoThirds signBytes)) (\<lambda>sigSet.
     rbind (add_signatures C vals 0 sgs sigSet) (\<lambda>(enough, sigSet').
     if enough then Inr () else
     rbind (SignatureSet_Signatures sigSet') (\<lambda>_. Inr ()))))))"

definition sig_promise :: "promise_err + 'a \<Rightarrow> sig_err + 'a" where
  "sig_promise r = (case r of Inl e \<Rightarrow> Inl (SigPromise e) | Inr x \<Rightarrow> Inr x)"

definition ValidatePayForFibreSignatures ::
  "sdk \<Rightarrow> cometbft \<Rightarrow> (bytes \<Rightarrow> string) \<Rightarrow> (int64 \<Rightarrow> staking_validator list option) \<Rightarrow>
   msg_pay_for_fibre \<Rightarrow> sig_err + unit" where
  "ValidatePayForFibreSignatures E C address_of GetHistoricalInfo m =
     (let promise = pf_PaymentPromise m in
      rbind (sig_promise (FromProto E (Some promise))) (\<lambda>pp.
      rbind (sig_promise (Validate E pp)) (\<lambda>_.
      rbind (sig_promise (SignBytes E pp)) (\<lambda>signBytes.
      validateValidatorSignatures C address_of GetHistoricalInfo signBytes (pb_Height promise)
        (pf_ValidatorSignatures m)))))"

section \<open>Row assignment\<close>

definition AssignedRows ::
  "cometbft \<Rightarrow> val_set \<Rightarrow> cmt_validator \<Rightarrow> int64 \<Rightarrow> int64 \<Rightarrow> fraction \<Rightarrow> int64 option" where
  "AssignedRows C s val originalRows minRows lt =
     (let num = originalRows * v_VotingPower val * Denominator lt;
          den = TotalVotingPower C (vs_Validators s) * Numerator lt in
      case i64_div (num + den - 1) den of
        None \<Rightarrow> None
      | Some rows \<Rightarrow> Some (i64_min (i64_max rows minRows) originalRows))"

fun seq_opt :: "'a option list \<Rightarrow> 'a list option" where
  "seq_opt [] = Some []"
| "seq_opt (None # xs) = None"
| "seq_opt (Some x # xs) = (case seq_opt xs of None \<Rightarrow> None | Some ys \<Rightarrow> Some (x # ys))"

definition rowsPerValidator ::
  "cometbft \<Rightarrow> val_set \<Rightarrow> int64 \<Rightarrow> int64 \<Rightarrow> fraction \<Rightarrow> int64 list option" where
  "rowsPerValidator C s originalRows minRows lt =
     seq_opt (map (\<lambda>v. AssignedRows C s v originalRows minRows lt) (vs_Validators s))"

definition swap :: "nat \<Rightarrow> nat \<Rightarrow> 'a list \<Rightarrow> 'a list" where
  "swap i j xs = xs[i := xs ! j, j := xs ! i]"

text \<open>\<open>rand.Shuffle\<close>: Fisher-Yates from the last index down; \<open>draw i\<close> is the draw below \<open>i + 1\<close>.\<close>

fun Shuffle :: "(nat \<Rightarrow> nat) \<Rightarrow> nat \<Rightarrow> 'a list \<Rightarrow> 'a list" where
  "Shuffle draw 0 xs = xs"
| "Shuffle draw (Suc i) xs = Shuffle draw i (swap (Suc i) (draw (Suc i) mod Suc (Suc i)) xs)"

text \<open>The rows of each validator, in validator order; a shard map is keyed by position.\<close>

fun assign_rows :: "nat list \<Rightarrow> nat \<Rightarrow> nat \<Rightarrow> nat list \<Rightarrow> nat list list" where
  "assign_rows rowsIndices totalRows offset [] = []"
| "assign_rows rowsIndices totalRows offset (n # ns) =
     map (\<lambda>j. rowsIndices ! ((offset + j) mod totalRows)) [0..<n] #
     assign_rows rowsIndices totalRows (offset + n) ns"

type_synonym shard_map = "(cmt_validator \<times> nat list) list"

definition Assign ::
  "cometbft \<Rightarrow> (bytes \<Rightarrow> nat \<Rightarrow> nat) \<Rightarrow> val_set \<Rightarrow> bytes \<Rightarrow> nat \<Rightarrow> int64 \<Rightarrow> int64 \<Rightarrow> fraction \<Rightarrow>
   shard_map option" where
  "Assign C chacha8 s commitment totalRows originalRows minRows lt =
     (if vs_Validators s = [] \<or> totalRows = 0 \<or> minRows = 0 then Some []
      else case rowsPerValidator C s originalRows minRows lt of
        None \<Rightarrow> None
      | Some rpv \<Rightarrow>
          if list_ex (\<lambda>r. sint r < 0) rpv then None
          else let rowsIndices = Shuffle (chacha8 commitment) (totalRows - 1) [0..<totalRows]
               in Some (zip (vs_Validators s)
                    (assign_rows rowsIndices totalRows 0 (map (\<lambda>r. nat (sint r)) rpv))))"

datatype verify_err = NotInShardMap | RowCount nat nat | RowNotAssigned uint32 | DuplicateRow uint32

fun verify_rows :: "(uint32 \<Rightarrow> bool option) \<Rightarrow> uint32 list \<Rightarrow> verify_err + unit" where
  "verify_rows assigned [] = Inr ()"
| "verify_rows assigned (r # rs) =
     (case assigned r of
        None \<Rightarrow> Inl (RowNotAssigned r)
      | Some True \<Rightarrow> Inl (DuplicateRow r)
      | Some False \<Rightarrow> verify_rows (assigned(r := Some True)) rs)"

definition ShardMap_Verify :: "shard_map \<Rightarrow> cmt_validator \<Rightarrow> uint32 list \<Rightarrow> verify_err + unit" where
  "ShardMap_Verify sm val rowIndices =
     (case map_of sm val of
        None \<Rightarrow> Inl NotInShardMap
      | Some rows \<Rightarrow>
          if length rowIndices \<noteq> length rows then Inl (RowCount (length rows) (length rowIndices))
          else verify_rows (\<lambda>r. if r \<in> set (map of_nat rows) then Some False else None) rowIndices)"

section \<open>Download order\<close>

definition minStake_of :: "int64 \<Rightarrow> int64 \<Rightarrow> int64 \<Rightarrow> int64 option" where
  "minStake_of minRows totalStake distributed =
     i64_div (minRows * totalStake + distributed - 1) distributed"

fun split_idx :: "int64 \<Rightarrow> int64 \<Rightarrow> int64 \<Rightarrow> nat \<Rightarrow> cmt_validator list \<Rightarrow> nat option" where
  "split_idx minStake totalStake accumulated i [] = None"
| "split_idx minStake totalStake accumulated i (v # vs) =
     (let acc = accumulated + i64_max (v_VotingPower v) minStake in
      if sint totalStake < sint acc then Some i else split_idx minStake totalStake acc (Suc i) vs)"

text \<open>The position, from \<open>j\<close> on, at which the running sum of the weights passes the drawn point.\<close>

fun pick :: "int64 \<Rightarrow> int64 \<Rightarrow> nat \<Rightarrow> int64 list \<Rightarrow> nat option" where
  "pick point cumul j [] = None"
| "pick point cumul j (w # ws) =
     (if sint point < sint (cumul + w) then Some j else pick point (cumul + w) (Suc j) ws)"

fun shuffleByStake ::
  "(nat \<Rightarrow> int64 \<Rightarrow> int64 option) \<Rightarrow> nat \<Rightarrow> nat \<Rightarrow> (cmt_validator \<times> int64) list \<Rightarrow>
   (cmt_validator \<times> int64) list option" where
  "shuffleByStake Int64N i 0 sel = Some sel"
| "shuffleByStake Int64N i (Suc n) sel =
     (let ws = map (v_VotingPower \<circ> fst) (drop i sel) in
      case Int64N i (sum_list ws) of
        None \<Rightarrow> None
      | Some point \<Rightarrow>
          shuffleByStake Int64N (Suc i) n
            (case pick point 0 i ws of None \<Rightarrow> sel | Some j \<Rightarrow> swap i j sel))"

definition Select ::
  "cometbft \<Rightarrow> (nat \<Rightarrow> int64 \<Rightarrow> int64 option) \<Rightarrow> (nat \<Rightarrow> int64 \<Rightarrow> int64 option) \<Rightarrow>
   val_set \<Rightarrow> int64 \<Rightarrow> int64 \<Rightarrow> fraction \<Rightarrow> (cmt_validator \<times> int64) list option" where
  "Select C draw1 draw2 s originalRows minRows lt =
     (if vs_Validators s = [] then Some []
      else case rowsPerValidator C s originalRows minRows lt of None \<Rightarrow> None | Some rpv \<Rightarrow>
        let selected = zip (vs_Validators s) rpv;
            totalStake = TotalVotingPower C (vs_Validators s) in
        case i64_div (originalRows * Denominator lt) (Numerator lt) of None \<Rightarrow> None | Some distributed \<Rightarrow>
        case minStake_of minRows totalStake distributed of None \<Rightarrow> None | Some minStake \<Rightarrow>
        let k = (case split_idx minStake totalStake 0 0 (vs_Validators s) of
                   None \<Rightarrow> length selected | Some i \<Rightarrow> i) in
        case shuffleByStake draw1 0 (k - 1) (take k selected) of None \<Rightarrow> None | Some front \<Rightarrow>
        case shuffleByStake draw2 0 (length selected - k - 1) (drop k selected) of None \<Rightarrow> None
        | Some back \<Rightarrow> Some (front @ back))"

end
