(* ===== verification/ValidatorQuorum.thy ===== *)
theory ValidatorQuorum
  imports ValidatorSet
begin

text \<open>
  The quorum check of PayForFibre: what a set of accepted signatures proves about the voting power behind
  a promise, that valid signatures with enough power are accepted, and a concrete validator set on which the
  check runs.
\<close>

section \<open>Quorums\<close>

lemma cometbft_lawsD:
  assumes "cometbft_laws C" and "NewValidatorSet C vs = Some ws"
  shows "mset ws = mset vs" and "distinct (map v_Address vs)" and "v \<in> set vs \<Longrightarrow> 0 < sint (v_VotingPower v)"
    and "(\<Sum>v\<leftarrow>vs. sint (v_VotingPower v)) \<le> (2 ^ 63 - 1) div 8"
    and "sint (TotalVotingPower C ws) = (\<Sum>v\<leftarrow>vs. sint (v_VotingPower v))"
  using assms unfolding cometbft_laws_def by blast+

abbreviation power_of :: "cmt_validator list \<Rightarrow> nat \<Rightarrow> int" where
  "power_of vals i \<equiv> sint (v_VotingPower (vals ! i))"

text \<open>The state of the loop: a set of positions, each with a valid signature at its own index, whose
  power has been counted exactly once.\<close>

definition counted ::
  "cometbft \<Rightarrow> cmt_validator list \<Rightarrow> bytes list \<Rightarrow> nat \<Rightarrow> nat set \<Rightarrow> signature_set \<Rightarrow> bool" where
  "counted C vals sgs i I ss \<longleftrightarrow>
     I \<subseteq> {..<i} \<and> I \<subseteq> {..<length vals} \<and> I \<subseteq> {..<length sgs} \<and>
     (\<forall>j\<in>I. ed25519_Verify C (v_PubKey (vals ! j)) (requiredBytesSigned ss) (sgs ! j)) \<and>
     sint (votingPower ss) = (\<Sum>j\<in>I. power_of vals j) \<and> kv_ok (signatures ss) \<and>
     (\<forall>a. kv_get (signatures ss) a \<noteq> None \<longleftrightarrow> a \<in> (\<lambda>j. v_Address (vals ! j)) ` I)"

lemma power_bounds:
  assumes "\<forall>v\<in>set vals. 0 < sint (v_VotingPower v)"
    and "(\<Sum>v\<leftarrow>vals. sint (v_VotingPower v)) \<le> (2 ^ 63 - 1) div 8" and "I \<subseteq> {..<length vals}"
  shows "i64_range (\<Sum>j\<in>I. power_of vals j)"
proof -
  have nn: "0 \<le> power_of vals j" if "j < length vals" for j using assms(1) that by (simp add: order_less_imp_le)
  have "(\<Sum>j\<in>I. power_of vals j) \<le> (\<Sum>j<length vals. power_of vals j)"
    using assms(3) nn by (intro sum_mono2) auto
  also have "\<dots> = (\<Sum>v\<leftarrow>vals. sint (v_VotingPower v))"
    by (simp add: sum_list_sum_nth atLeast0LessThan)
  finally have "(\<Sum>j\<in>I. power_of vals j) \<le> (2 ^ 63 - 1) div 8" using assms(2) by linarith
  moreover have "0 \<le> (\<Sum>j\<in>I. power_of vals j)" using assms(3) nn by (intro sum_nonneg) auto
  ultimately show ?thesis by (simp add: i64_range_def)
qed

lemma counted_add:
  assumes cnt: "counted C vals sgs i I ss" and dist: "distinct (map v_Address vals)"
    and pos: "\<forall>v\<in>set vals. 0 < sint (v_VotingPower v)"
    and tot: "(\<Sum>v\<leftarrow>vals. sint (v_VotingPower v)) \<le> (2 ^ 63 - 1) div 8"
    and i: "i < length vals" "i < length sgs"
    and add: "SignatureSet_Add C (vals ! i) (sgs ! i) ss = Inr (enough, ss')"
  shows "counted C vals sgs (Suc i) (insert i I) ss'"
    and "minRequiredVotingPower ss' = minRequiredVotingPower ss"
    and "requiredBytesSigned ss' = requiredBytesSigned ss"
    and "enough \<longleftrightarrow> sint (minRequiredVotingPower ss') \<le> sint (votingPower ss')"
proof -
  have I: "I \<subseteq> {..<i}" "I \<subseteq> {..<length vals}" "finite I" "i \<notin> I"
    using cnt finite_subset [of I "{..<i}"] by (auto simp: counted_def)
  have "v_Address (vals ! j) \<noteq> v_Address (vals ! i)" if "j \<in> I" for j
  proof -
    have "j < length vals" "j \<noteq> i" using I that by auto
    then show ?thesis using dist i(1) nth_eq_iff_index_eq [OF dist, of j i] by simp
  qed
  then have new: "kv_get (signatures ss) (v_Address (vals ! i)) = None"
    using cnt unfolding counted_def by (metis (no_types, lifting) imageE)
  have ok: "ed25519_Verify C (v_PubKey (vals ! i)) (requiredBytesSigned ss) (sgs ! i)"
    and ss': "ss' = ss\<lparr>votingPower := votingPower ss + v_VotingPower (vals ! i),
        signatures := kv_set (v_Address (vals ! i)) (sgs ! i) (signatures ss)\<rparr>"
    and en: "enough \<longleftrightarrow> sint (minRequiredVotingPower ss') \<le> sint (votingPower ss')"
    using add new unfolding SignatureSet_Add_def by (auto simp: Let_def split: if_splits)
  have sum: "(\<Sum>j\<in>insert i I. power_of vals j) = sint (votingPower ss) + power_of vals i"
    using I(3,4) cnt by (simp add: counted_def)
  have "i64_range (\<Sum>j\<in>insert i I. power_of vals j)" using power_bounds [OF pos tot] I(2) i(1) by simp
  then have "sint (votingPower ss') = (\<Sum>j\<in>insert i I. power_of vals j)"
    unfolding sum ss' by (simp add: sint_add_exact)
  then show "counted C vals sgs (Suc i) (insert i I) ss'"
    using cnt ok i I(1) unfolding counted_def ss' by (auto split: if_splits)
  show "minRequiredVotingPower ss' = minRequiredVotingPower ss"
    "requiredBytesSigned ss' = requiredBytesSigned ss" by (simp_all add: ss')
  show "enough \<longleftrightarrow> sint (minRequiredVotingPower ss') \<le> sint (votingPower ss')" by (rule en)
qed

lemma counted_Suc: "counted C vals sgs i I ss \<Longrightarrow> counted C vals sgs (Suc i) I ss"
  by (auto simp: counted_def)

lemma add_signatures_counted:
  assumes dist: "distinct (map v_Address vals)" and pos: "\<forall>v\<in>set vals. 0 < sint (v_VotingPower v)"
    and tot: "(\<Sum>v\<leftarrow>vals. sint (v_VotingPower v)) \<le> (2 ^ 63 - 1) div 8"
  shows "add_signatures C vals i (drop i sgs) ss = Inr (enough, ss') \<Longrightarrow> counted C vals sgs i I ss \<Longrightarrow>
    \<exists>J n. counted C vals sgs n J ss' \<and> minRequiredVotingPower ss' = minRequiredVotingPower ss \<and>
      requiredBytesSigned ss' = requiredBytesSigned ss \<and>
      (enough \<longrightarrow> sint (minRequiredVotingPower ss') \<le> sint (votingPower ss'))"
proof (induction "drop i sgs" arbitrary: i I ss)
  case Nil
  then show ?case by (metis add_signatures.simps(1) Inr_inject Pair_inject)
next
  case (Cons sg rest)
  have i: "i < length sgs" and sg: "sg = sgs ! i" and rest: "rest = drop (Suc i) sgs"
    using Cons.hyps(2) by (metis drop_eq_Nil list.distinct(1) not_le,
        metis Cons_nth_drop_Suc drop_eq_Nil list.distinct(1) list.inject not_le,
        metis drop_Suc list.sel(3) tl_drop)
  have run: "add_signatures C vals i (sg # rest) ss = Inr (enough, ss')"
    using Cons.prems(1) Cons.hyps(2) by simp
  show ?case
  proof (cases "sg = []")
    case True
    then show ?thesis using Cons.hyps(1) [OF rest _ counted_Suc [OF Cons.prems(2)]] run rest by auto
  next
    case False
    then obtain en ss1 where iv: "i < length vals" and add: "SignatureSet_Add C (vals ! i) (sgs ! i) ss = Inr (en, ss1)"
      and more: "(if en then Inr (True, ss1) else add_signatures C vals (Suc i) rest ss1) = Inr (enough, ss')"
      using run sg by (auto split: if_splits)
    note A = counted_add [OF Cons.prems(2) dist pos tot iv i add]
    show ?thesis
    proof (cases en)
      case True
      then show ?thesis using A more by auto
    next
      case False
      then show ?thesis using Cons.hyps(1) [OF rest _ A(1)] more rest A(2,3) by auto
    qed
  qed
qed

lemma two_thirds_required:
  assumes laws: "cometbft_laws C" and ws: "NewValidatorSet C vals = Some ws"
  obtains ss where "NewSignatureSet C \<lparr>vs_Validators = ws, vs_Height = height\<rparr> twoThirds msg = Some ss"
    and "sint (minRequiredVotingPower ss) = 2 * (\<Sum>v\<leftarrow>vals. sint (v_VotingPower v)) div 3"
    and "votingPower ss = 0" and "signatures ss = []" and "requiredBytesSigned ss = msg"
proof -
  note L = cometbft_lawsD [OF laws ws]
  let ?T = "\<Sum>v\<leftarrow>vals. sint (v_VotingPower v)"
  have T: "0 \<le> ?T" using L(3) by (intro sum_list_nonneg) (auto simp: order_less_imp_le)
  have "sint (TotalVotingPower C ws * 2) = sint (TotalVotingPower C ws) * sint (2 :: int64)"
    using L(4,5) T by (intro sint_mult_exact) (simp add: i64_range_def)
  then have "map_option sint (i64_div (TotalVotingPower C ws * 2) 3) = Some (2 * ?T div 3)"
    using i64_div_nonneg [of "TotalVotingPower C ws * 2" 3] L(5) T by (simp add: mult.commute)
  then show thesis using that by (auto simp: NewSignatureSet_def twoThirds_def)
qed

text \<open>C20: A PayForFibre whose signatures are accepted carries a quorum: there is a set of positions,
  each with a valid signature of the promise's sign bytes by the validator at that position, whose
  voting power is counted once each and reaches two thirds of the total, rounded down.\<close>

theorem accepted_signatures_form_quorum:
  assumes laws: "cometbft_laws C" and vs: "GetHistoricalInfo height = Some valset"
    and vals: "cmt_validators address_of valset = Inr vals"
    and run: "validateValidatorSignatures C address_of GetHistoricalInfo msg height sgs = Inr ()"
  shows "\<exists>I \<subseteq> {..<length vals}. (\<forall>i\<in>I. i < length sgs \<and> ed25519_Verify C (v_PubKey (vals ! i)) msg (sgs ! i)) \<and>
    2 * (\<Sum>v\<leftarrow>vals. sint (v_VotingPower v)) div 3 \<le> (\<Sum>i\<in>I. sint (v_VotingPower (vals ! i)))"
proof -
  obtain ws ss enough ss' where ws: "NewValidatorSet C vals = Some ws"
    and ss: "NewSignatureSet C \<lparr>vs_Validators = ws, vs_Height = height\<rparr> twoThirds msg = Some ss"
    and add: "add_signatures C vals 0 sgs ss = Inr (enough, ss')"
    and fin: "enough \<or> (\<exists>r. SignatureSet_Signatures ss' = Inr r)"
    using run vs vals by (auto simp: validateValidatorSignatures_def split: if_splits)
  note L = cometbft_lawsD [OF laws ws]
  have pos: "\<forall>v\<in>set vals. 0 < sint (v_VotingPower v)" using L(3) by blast
  have req: "sint (minRequiredVotingPower ss) = 2 * (\<Sum>v\<leftarrow>vals. sint (v_VotingPower v)) div 3"
    and zero: "votingPower ss = 0" "signatures ss = []" "requiredBytesSigned ss = msg"
    using two_thirds_required [OF laws ws, of height msg] ss by (metis option.inject)+
  have "counted C vals sgs 0 {} ss" by (simp add: counted_def zero)
  from add_signatures_counted [OF L(2) pos L(4) _ this, of enough ss'] add
  obtain J n where J: "counted C vals sgs n J ss'" "minRequiredVotingPower ss' = minRequiredVotingPower ss"
    "requiredBytesSigned ss' = requiredBytesSigned ss"
    "enough \<longrightarrow> sint (minRequiredVotingPower ss') \<le> sint (votingPower ss')" by auto
  have "sint (minRequiredVotingPower ss') \<le> sint (votingPower ss')"
    using fin J(4) by (auto simp: SignatureSet_Signatures_def Let_def split: if_splits)
  then show ?thesis using J req zero(3) unfolding counted_def by (intro exI [of _ J]) auto
qed

section \<open>Quorums are enough\<close>

definition signed_at :: "bytes list \<Rightarrow> nat set" where
  "signed_at sgs = {i. i < length sgs \<and> sgs ! i \<noteq> []}"

lemma add_signatures_complete:
  assumes dist: "distinct (map v_Address vals)" and pos: "\<forall>v\<in>set vals. 0 < sint (v_VotingPower v)"
    and tot: "(\<Sum>v\<leftarrow>vals. sint (v_VotingPower v)) \<le> (2 ^ 63 - 1) div 8"
    and valid: "\<forall>i\<in>signed_at sgs. i < length vals \<and> ed25519_Verify C (v_PubKey (vals ! i)) msg (sgs ! i)"
  shows "i \<le> length sgs \<Longrightarrow> requiredBytesSigned ss = msg \<Longrightarrow> counted C vals sgs i (signed_at sgs \<inter> {..<i}) ss \<Longrightarrow>
    \<exists>enough ss' J n. add_signatures C vals i (drop i sgs) ss = Inr (enough, ss') \<and> counted C vals sgs n J ss' \<and>
      J \<subseteq> signed_at sgs \<and> minRequiredVotingPower ss' = minRequiredVotingPower ss \<and>
      (if enough then sint (minRequiredVotingPower ss) \<le> sint (votingPower ss') else J = signed_at sgs)"
proof (induction "length sgs - i" arbitrary: i ss)
  case 0
  then have "signed_at sgs \<inter> {..<i} = signed_at sgs" by (auto simp: signed_at_def)
  then show ?case using 0 by auto
next
  case (Suc k)
  then have i: "i < length sgs" by simp
  then have drop: "drop i sgs = sgs ! i # drop (Suc i) sgs" by (simp add: Cons_nth_drop_Suc)
  show ?case
  proof (cases "sgs ! i = []")
    case True
    then have "signed_at sgs \<inter> {..<Suc i} = signed_at sgs \<inter> {..<i}" by (auto simp: signed_at_def less_Suc_eq)
    then show ?thesis
      using Suc.hyps(1) [of "Suc i" ss] Suc.hyps(2) Suc.prems counted_Suc [OF Suc.prems(3)] i True drop by simp
  next
    case False
    then have s: "signed_at sgs \<inter> {..<Suc i} = insert i (signed_at sgs \<inter> {..<i})" and mem: "i \<in> signed_at sgs"
      using i by (auto simp: signed_at_def less_Suc_eq)
    then have iv: "i < length vals" and ver: "ed25519_Verify C (v_PubKey (vals ! i)) (requiredBytesSigned ss) (sgs ! i)"
      using valid Suc.prems(2) by auto
    then obtain en ss1 where add: "SignatureSet_Add C (vals ! i) (sgs ! i) ss = Inr (en, ss1)"
      by (cases "kv_get (signatures ss) (v_Address (vals ! i))") (auto simp: SignatureSet_Add_def Let_def)
    note A = counted_add [OF Suc.prems(3) dist pos tot iv i add]
    have run: "add_signatures C vals i (drop i sgs) ss =
        (if en then Inr (True, ss1) else add_signatures C vals (Suc i) (drop (Suc i) sgs) ss1)"
      using False iv add drop by simp
    show ?thesis
    proof (cases en)
      case True
      then show ?thesis using A run mem by (intro exI [of _ True] exI [of _ ss1]) auto
    next
      case False
      have "\<exists>enough ss' J n. add_signatures C vals (Suc i) (drop (Suc i) sgs) ss1 = Inr (enough, ss') \<and>
          counted C vals sgs n J ss' \<and> J \<subseteq> signed_at sgs \<and> minRequiredVotingPower ss' = minRequiredVotingPower ss1 \<and>
          (if enough then sint (minRequiredVotingPower ss1) \<le> sint (votingPower ss') else J = signed_at sgs)"
        using Suc.hyps(2) i A(1,3) Suc.prems(2) s by (intro Suc.hyps(1)) simp_all
      then show ?thesis using False by (simp only: run A(2) if_False)
    qed
  qed
qed

text \<open>C21: Valid signatures are accepted exactly by their power: if every signature that a promise carries is a valid
  signature of the validator at its position, the check succeeds exactly if the power of these validators reaches
  two thirds of the total, rounded down; so no promise with a quorum of signatures is refused.\<close>

theorem valid_signatures_decide_quorum:
  assumes laws: "cometbft_laws C" and vs: "GetHistoricalInfo height = Some valset"
    and vals: "cmt_validators address_of valset = Inr vals" and new: "NewValidatorSet C vals = Some ws"
    and valid: "\<forall>i\<in>signed_at sgs. i < length vals \<and> ed25519_Verify C (v_PubKey (vals ! i)) msg (sgs ! i)"
  shows "validateValidatorSignatures C address_of GetHistoricalInfo msg height sgs = Inr () \<longleftrightarrow>
    2 * (\<Sum>v\<leftarrow>vals. sint (v_VotingPower v)) div 3 \<le> (\<Sum>i\<in>signed_at sgs. sint (v_VotingPower (vals ! i)))"
proof -
  note L = cometbft_lawsD [OF laws new]
  have pos: "\<forall>v\<in>set vals. 0 < sint (v_VotingPower v)" using L(3) by blast
  obtain ss where ss: "NewSignatureSet C \<lparr>vs_Validators = ws, vs_Height = height\<rparr> twoThirds msg = Some ss"
    and req: "sint (minRequiredVotingPower ss) = 2 * (\<Sum>v\<leftarrow>vals. sint (v_VotingPower v)) div 3"
    and zero: "votingPower ss = 0" "signatures ss = []" "requiredBytesSigned ss = msg"
    by (rule two_thirds_required [OF laws new])
  have "counted C vals sgs 0 (signed_at sgs \<inter> {..<0}) ss" by (simp add: counted_def zero)
  from add_signatures_complete [OF L(2) pos L(4) valid _ zero(3) this]
  obtain enough ss' J n where run: "add_signatures C vals 0 sgs ss = Inr (enough, ss')"
    and J: "counted C vals sgs n J ss'" "J \<subseteq> signed_at sgs" "minRequiredVotingPower ss' = minRequiredVotingPower ss"
    and fin: "if enough then sint (minRequiredVotingPower ss) \<le> sint (votingPower ss') else J = signed_at sgs" by auto
  have "(\<Sum>i\<in>J. power_of vals i) \<le> (\<Sum>i\<in>signed_at sgs. power_of vals i)"
    using J(2) valid pos by (intro sum_mono2) (auto simp: signed_at_def order_less_imp_le)
  moreover have "sint (votingPower ss') = (\<Sum>i\<in>J. power_of vals i)" using J(1) by (simp add: counted_def)
  ultimately show ?thesis
    using vs vals new ss run fin req J(3)
    by (auto simp: validateValidatorSignatures_def SignatureSet_Signatures_def Let_def)
qed

section \<open>A concrete validator set\<close>

definition ref_comet :: cometbft where
  "ref_comet = \<lparr>
     NewValidatorSet = (\<lambda>vs. if distinct (map v_Address vs) \<and> (\<forall>v\<in>set vs. 0 < sint (v_VotingPower v)) \<and>
         (\<Sum>v\<leftarrow>vs. sint (v_VotingPower v)) \<le> (2 ^ 63 - 1) div 8 then Some vs else None),
     TotalVotingPower = (\<lambda>vs. i64 (\<Sum>v\<leftarrow>vs. sint (v_VotingPower v))),
     ed25519_Verify = (\<lambda>pk msg sg. sg = pk)\<rparr>"

lemma ref_comet_laws: "cometbft_laws ref_comet"
  unfolding cometbft_laws_def
proof (intro allI impI)
  fix vs ws assume "NewValidatorSet ref_comet vs = Some ws"
  then have vs: "ws = vs" "distinct (map v_Address vs)" "\<forall>v\<in>set vs. 0 < sint (v_VotingPower v)"
    "(\<Sum>v\<leftarrow>vs. sint (v_VotingPower v)) \<le> (2 ^ 63 - 1) div 8"
    by (auto simp: ref_comet_def split: if_splits)
  have "0 \<le> (\<Sum>v\<leftarrow>vs. sint (v_VotingPower v))"
    using vs(3) by (intro sum_list_nonneg) (auto simp: order_less_imp_le)
  then have "i64_range (\<Sum>v\<leftarrow>vs. sint (v_VotingPower v))" using vs(4) by (simp add: i64_range_def)
  then have "sint (TotalVotingPower ref_comet ws) = (\<Sum>v\<leftarrow>vs. sint (v_VotingPower v))"
    using sint_i64 vs(1) by (simp add: ref_comet_def)
  with vs show "mset ws = mset vs \<and> distinct (map v_Address vs) \<and>
      (\<forall>v\<in>set vs. 0 < sint (v_VotingPower v)) \<and> (\<Sum>v\<leftarrow>vs. sint (v_VotingPower v)) \<le> (2 ^ 63 - 1) div 8 \<and>
      sint (TotalVotingPower ref_comet ws) = (\<Sum>v\<leftarrow>vs. sint (v_VotingPower v))" by simp
qed

definition ref_key :: "8 word \<Rightarrow> bytes" where
  "ref_key k = replicate 32 k"

definition ref_valset :: "staking_validator list" where
  "ref_valset = map (\<lambda>k. \<lparr>sv_ConsPubKey = Some (ref_key k), sv_Tokens = 1\<rparr>) [1, 2, 3, 4]"

definition ref_vals :: "cmt_validator list" where
  "ref_vals = [\<lparr>v_Address = ''a'', v_PubKey = ref_key 1, v_VotingPower = 1\<rparr>,
     \<lparr>v_Address = ''aa'', v_PubKey = ref_key 2, v_VotingPower = 1\<rparr>,
     \<lparr>v_Address = ''aaa'', v_PubKey = ref_key 3, v_VotingPower = 1\<rparr>,
     \<lparr>v_Address = ''aaaa'', v_PubKey = ref_key 4, v_VotingPower = 1\<rparr>]"

definition ref_address_of :: "bytes \<Rightarrow> string" where
  "ref_address_of pk = (if hd pk = 1 then ''a'' else if hd pk = 2 then ''aa'' else if hd pk = 3 then ''aaa'' else ''aaaa'')"

definition ref_history :: "int64 \<Rightarrow> staking_validator list option" where
  "ref_history h = Some ref_valset"

lemma ref_cmt_validators: "cmt_validators ref_address_of ref_valset = Inr ref_vals"
  by (simp add: ref_valset_def ref_vals_def ref_key_def ref_address_of_def ed25519_PubKeySize_def
      Int_Int64_def i64_range_def)

lemma ref_quorum:
  "validateValidatorSignatures ref_comet ref_address_of ref_history [7] 5 [ref_key 1, ref_key 2] = Inr ()"
proof -
  have vs: "NewValidatorSet ref_comet ref_vals = Some ref_vals"
    by (simp add: ref_comet_def ref_vals_def)
  have ss: "NewSignatureSet ref_comet \<lparr>vs_Validators = ref_vals, vs_Height = 5\<rparr> twoThirds [7] =
      Some \<lparr>requiredBytesSigned = [7], minRequiredVotingPower = 2, ss_validators = ref_vals,
        votingPower = 0, signatures = []\<rparr>"
    by (simp add: NewSignatureSet_def ref_comet_def ref_vals_def twoThirds_def i64_div_def quot_def)
  have ver: "ed25519_Verify ref_comet pk m sg \<longleftrightarrow> sg = pk" for pk m sg by (simp add: ref_comet_def)
  have key: "ref_key k \<noteq> []" for k by (simp add: ref_key_def)
  have nth: "ref_vals ! 0 = \<lparr>v_Address = ''a'', v_PubKey = ref_key 1, v_VotingPower = 1\<rparr>"
    "ref_vals ! Suc 0 = \<lparr>v_Address = ''aa'', v_PubKey = ref_key 2, v_VotingPower = 1\<rparr>"
    "length ref_vals = 4" by (simp_all add: ref_vals_def)
  obtain ss where add: "add_signatures ref_comet ref_vals 0 [ref_key 1, ref_key 2]
      \<lparr>requiredBytesSigned = [7], minRequiredVotingPower = 2, ss_validators = ref_vals,
        votingPower = 0, signatures = []\<rparr> = Inr (True, ss)"
    using ver key nth by (simp add: SignatureSet_Add_def Let_def)
  show ?thesis
    by (simp only: validateValidatorSignatures_def ref_history_def of_opt_simps rbind.simps
        ref_cmt_validators vs ss add prod.case if_True)
qed

theorem accepted_signatures_form_quorum_witness:
  "\<exists>I \<subseteq> {..<4}. (\<forall>i\<in>I. i < 2) \<and> 2 \<le> (\<Sum>i\<in>I. sint (v_VotingPower (ref_vals ! i)))"
proof -
  have len: "length ref_vals = 4" and tot: "(\<Sum>v\<leftarrow>ref_vals. sint (v_VotingPower v)) = 4"
    by (simp_all add: ref_vals_def)
  have "ref_history 5 = Some ref_valset" by (simp add: ref_history_def)
  from accepted_signatures_form_quorum [OF ref_comet_laws this ref_cmt_validators ref_quorum]
  obtain I where I: "I \<subseteq> {..<4}" "\<forall>i\<in>I. i < length [ref_key 1, ref_key 2]"
    "2 * 4 div 3 \<le> (\<Sum>i\<in>I. sint (v_VotingPower (ref_vals ! i)))"
    unfolding len tot by blast
  show ?thesis by (rule exI [of _ I]) (use I in \<open>simp add: numeral_2_eq_2\<close>)
qed

theorem valid_signatures_decide_quorum_witness:
  "validateValidatorSignatures ref_comet ref_address_of ref_history [7] 5 [[], ref_key 2, [], ref_key 4] = Inr () \<and>
   validateValidatorSignatures ref_comet ref_address_of ref_history [7] 5 [[], [], ref_key 3] \<noteq> Inr ()"
proof -
  have h: "ref_history 5 = Some ref_valset" by (simp add: ref_history_def)
  have new: "NewValidatorSet ref_comet ref_vals = Some ref_vals" by (simp add: ref_comet_def ref_vals_def)
  have key: "ref_key k \<noteq> []" for k by (simp add: ref_key_def)
  have tot: "(\<Sum>v\<leftarrow>ref_vals. sint (v_VotingPower v)) = 4" by (simp add: ref_vals_def)
  have pk: "ed25519_Verify ref_comet (v_PubKey (ref_vals ! Suc 0)) [7] (ref_key 2)"
    "ed25519_Verify ref_comet (v_PubKey (ref_vals ! 2)) [7] (ref_key 3)"
    "ed25519_Verify ref_comet (v_PubKey (ref_vals ! 3)) [7] (ref_key 4)" by (simp_all add: ref_comet_def ref_vals_def)
  have len: "length ref_vals = 4" and pow: "sint (v_VotingPower (ref_vals ! Suc 0)) = 1" "sint (v_VotingPower (ref_vals ! 2)) = 1"
    "sint (v_VotingPower (ref_vals ! 3)) = 1" by (simp_all add: ref_vals_def)
  have two: "signed_at [[], ref_key 2, [], ref_key 4] = {1, 3}" and one: "signed_at [[], [], ref_key 3] = {2}"
    using key by (auto simp: signed_at_def less_Suc_eq nth_Cons' split: if_splits)
  note d = valid_signatures_decide_quorum [where GetHistoricalInfo = ref_history and height = 5,
      OF ref_comet_laws h ref_cmt_validators new, unfolded tot]
  show ?thesis using d [where sgs = "[[], ref_key 2, [], ref_key 4]" and msg = "[7]"] d [where sgs = "[[], [], ref_key 3]" and msg = "[7]"]
    by (simp add: two one pk len pow)
qed

end
