(* ===== verification/ValidatorShards.thy ===== *)
theory ValidatorShards
  imports ValidatorQuorum
begin

text \<open>
  Shards: the shuffle permutes the rows, every validator is assigned distinct rows, an upload is accepted
  exactly when it carries them, and a group of validators with the liveness share of the stake holds
  enough different rows to reconstruct a blob.
\<close>

section \<open>Verifying a shard\<close>

lemma verify_rows_iff:
  "verify_rows f rs = Inr () \<longleftrightarrow> distinct rs \<and> (\<forall>r\<in>set rs. f r = Some False)"
proof (induction rs arbitrary: f)
  case (Cons r rs)
  show ?case
  proof (cases "f r = Some False")
    case True
    then have "verify_rows f (r # rs) = verify_rows (f(r \<mapsto> True)) rs" by simp
    also have "\<dots> = Inr () \<longleftrightarrow> distinct rs \<and> (\<forall>q\<in>set rs. (f(r \<mapsto> True)) q = Some False)" by (rule Cons)
    finally show ?thesis using True by (auto simp: fun_upd_apply)
  qed (auto split: option.splits bool.splits)
qed simp

lemma distinct_same_set_mset:
  assumes "distinct xs" and "distinct ys" and "length xs = length ys" and "set xs \<subseteq> set ys"
  shows "mset xs = mset ys"
proof -
  have "card (set xs) = card (set ys)" using assms(1-3) by (simp add: distinct_card)
  then have "set xs = set ys" using assms(4) by (simp add: card_subset_eq)
  then show ?thesis using assms(1,2) by (simp add: set_eq_iff_mset_eq_distinct)
qed

lemma shard_verify_permutation:
  assumes rows: "map_of sm val = Some rows" "distinct rows" "\<forall>r\<in>set rows. r < 2 ^ 32"
  shows "ShardMap_Verify sm val idx = Inr () \<longleftrightarrow> mset idx = mset (map of_nat rows)"
proof -
  have inj: "inj_on (of_nat :: nat \<Rightarrow> uint32) (set rows)"
  proof (rule inj_onI)
    fix x y :: nat assume "x \<in> set rows" "y \<in> set rows" "(of_nat x :: uint32) = of_nat y"
    then show "x = y" using rows(3) by (auto simp: word_of_nat_eq_iff take_bit_eq_mod)
  qed
  then have dist: "distinct (map (of_nat :: nat \<Rightarrow> uint32) rows)" using rows(2) by (simp add: distinct_map)
  show ?thesis
  proof
    assume "ShardMap_Verify sm val idx = Inr ()"
    then have "length idx = length rows" "distinct idx" "set idx \<subseteq> set (map of_nat rows)"
      using rows(1) by (auto simp: ShardMap_Verify_def verify_rows_iff split: if_splits)
    then show "mset idx = mset (map of_nat rows)" using dist by (intro distinct_same_set_mset) simp_all
  next
    assume m: "mset idx = mset (map of_nat rows :: uint32 list)"
    then have "length idx = length rows" "distinct idx" "set idx = set (map of_nat rows)"
      using dist mset_eq_length [OF m] mset_eq_imp_distinct_iff [OF m] mset_eq_setD [OF m] by simp_all
    then show "ShardMap_Verify sm val idx = Inr ()"
      using rows(1) by (simp add: ShardMap_Verify_def verify_rows_iff)
  qed
qed

section \<open>Shuffling and assigning\<close>

lemma mset_swap_list: "i < length xs \<Longrightarrow> j < length xs \<Longrightarrow> mset (swap i j xs) = mset xs"
  by (simp add: swap_def mset_swap)

lemma length_swap [simp]: "length (swap i j xs) = length xs"
  by (simp add: swap_def)

lemma mset_Shuffle: "i < length xs \<Longrightarrow> mset (Shuffle draw i xs) = mset xs"
proof (induction i arbitrary: xs)
  case (Suc i)
  let ?j = "draw (Suc i) mod Suc (Suc i)"
  have "?j < length xs" using Suc.prems mod_less_divisor [of "Suc (Suc i)" "draw (Suc i)"] by linarith
  then show ?case using Suc.IH [of "swap (Suc i) ?j xs"] Suc.prems by (simp add: mset_swap_list)
qed simp

lemma length_assign_rows [simp]: "length (assign_rows ri t off ns) = length ns"
  by (induction ns arbitrary: off) simp_all

lemma nth_assign_rows:
  "k < length ns \<Longrightarrow> assign_rows ri t off ns ! k =
     map (\<lambda>j. ri ! ((off + sum_list (take k ns) + j) mod t)) [0..<ns ! k]"
proof (induction ns arbitrary: off k)
  case (Cons n ns)
  show ?case
  proof (cases k)
    case (Suc k')
    then show ?thesis using Cons.IH [of k' "off + n"] Cons.prems by (simp add: add.assoc)
  qed simp
qed simp

lemma length_assign_total:
  "length vs = length ns \<Longrightarrow> (\<Sum>(v, rows)\<leftarrow>zip vs (assign_rows ri t off ns). length rows) = sum_list ns"
  by (induction vs ns arbitrary: off rule: list_induct2) simp_all

lemma int_total_rows: "(\<Sum>(v, rows)\<leftarrow>sm. int (length rows)) = int (\<Sum>(v, rows)\<leftarrow>sm. length rows)"
  by (induction sm) auto

lemma mod_window_inj:
  fixes t :: nat
  assumes "(a + i) mod t = (a + j) mod t" and "i < t" and "j < t"
  shows "i = j"
  using assms
proof (induction i j rule: linorder_wlog)
  case (le i j)
  then have "t dvd (a + j) - (a + i)" by (metis mod_eq_dvd_iff_nat add_le_mono1 add.commute)
  then have "t dvd j - i" by simp
  moreover have "j - i < t" using le by simp
  ultimately have "j - i = 0" using nat_dvd_not_less by blast
  then show ?case using le by simp
qed (metis)

lemma assign_rows_distinct:
  assumes "distinct ri" and "length ri = t" and "0 < t" and "k < length ns" and "ns ! k \<le> t"
  shows "distinct (assign_rows ri t off ns ! k)"
    and "set (assign_rows ri t off ns ! k) \<subseteq> set ri"
    and "length (assign_rows ri t off ns ! k) = ns ! k"
proof -
  have inj: "inj_on (\<lambda>j. ri ! ((off + sum_list (take k ns) + j) mod t)) {0..<ns ! k}"
  proof (rule inj_onI)
    fix x y assume xy: "x \<in> {0..<ns ! k}" "y \<in> {0..<ns ! k}"
      and eq: "ri ! ((off + sum_list (take k ns) + x) mod t) = ri ! ((off + sum_list (take k ns) + y) mod t)"
    have "(off + sum_list (take k ns) + x) mod t = (off + sum_list (take k ns) + y) mod t"
      using nth_eq_iff_index_eq [OF assms(1), THEN iffD1, OF _ _ eq] assms(2,3) by simp
    then show "x = y" by (rule mod_window_inj) (use xy assms(5) in simp_all)
  qed
  then show "distinct (assign_rows ri t off ns ! k)"
    using assms(4) by (simp add: nth_assign_rows distinct_map)
  show "set (assign_rows ri t off ns ! k) \<subseteq> set ri"
    using assms(2-4) by (auto simp: nth_assign_rows)
  show "length (assign_rows ri t off ns ! k) = ns ! k"
    using assms(4) by (simp add: nth_assign_rows)
qed

lemma seq_opt_SomeD: "seq_opt xs = Some ys \<Longrightarrow> xs = map Some ys"
  by (induction xs arbitrary: ys rule: seq_opt.induct) (auto split: option.splits)

lemma rowsPerValidator_Some:
  assumes "rowsPerValidator C s orig m lt = Some rpv"
  shows "length rpv = length (vs_Validators s)"
    and "i < length rpv \<Longrightarrow> AssignedRows C s (vs_Validators s ! i) orig m lt = Some (rpv ! i)"
proof -
  have eq: "map (\<lambda>v. AssignedRows C s v orig m lt) (vs_Validators s) = map Some rpv"
    using assms unfolding rowsPerValidator_def by (rule seq_opt_SomeD)
  then show len: "length rpv = length (vs_Validators s)" by (metis length_map)
  show "AssignedRows C s (vs_Validators s ! i) orig m lt = Some (rpv ! i)" if "i < length rpv"
    using that len arg_cong [OF eq, of "\<lambda>l. l ! i"] by simp
qed

lemma AssignedRows_le: "AssignedRows C s v orig m lt = Some r \<Longrightarrow> sint r \<le> sint orig"
  by (auto simp: AssignedRows_def Let_def i64_min_def split: option.splits if_splits)

lemma Shuffle_upt:
  assumes "0 < t"
  shows "distinct (Shuffle d (t - 1) [0..<t])" and "length (Shuffle d (t - 1) [0..<t]) = t"
    and "set (Shuffle d (t - 1) [0..<t]) = {..<t}"
proof -
  have m: "mset (Shuffle d (t - 1) [0..<t]) = mset [0..<t]" using assms by (intro mset_Shuffle) simp
  show "distinct (Shuffle d (t - 1) [0..<t])" using mset_eq_imp_distinct_iff [OF m] by simp
  show "length (Shuffle d (t - 1) [0..<t]) = t" using mset_eq_length [OF m] by simp
  show "set (Shuffle d (t - 1) [0..<t]) = {..<t}" using mset_eq_setD [OF m] by (simp add: lessThan_atLeast0)
qed

lemma Assign_cases:
  assumes "Assign C chacha8 s commitment totalRows originalRows minRows lt = Some sm"
  shows "sm = [] \<or> (\<exists>rpv. rowsPerValidator C s originalRows minRows lt = Some rpv \<and> 0 < totalRows \<and>
     \<not> list_ex (\<lambda>r. sint r < 0) rpv \<and>
     sm = zip (vs_Validators s) (assign_rows (Shuffle (chacha8 commitment) (totalRows - 1) [0..<totalRows])
            totalRows 0 (map (\<lambda>r. nat (sint r)) rpv)))"
proof (cases "vs_Validators s = [] \<or> totalRows = 0 \<or> minRows = 0")
  case False
  show ?thesis
  proof (cases "rowsPerValidator C s originalRows minRows lt")
    case None
    then have "Assign C chacha8 s commitment totalRows originalRows minRows lt = None"
      using False unfolding Assign_def by simp
    then have False using assms by simp
    then show ?thesis ..
  next
    case (Some rpv)
    then have A: "(if list_ex (\<lambda>r. sint r < 0) rpv then None
       else Some (zip (vs_Validators s) (assign_rows (Shuffle (chacha8 commitment) (totalRows - 1) [0..<totalRows])
            totalRows 0 (map (\<lambda>r. nat (sint r)) rpv)))) = Some sm"
      using assms False unfolding Assign_def Let_def by (simp only: if_False option.case)
    then have "\<not> list_ex (\<lambda>r. sint r < 0) rpv" by (rule contrapos_pn) simp
    then show ?thesis using A Some False by (intro disjI2 exI [of _ rpv]) simp
  qed
qed (use assms in \<open>simp add: Assign_def\<close>)

lemma assigned_shard:
  assumes A: "Assign C chacha8 s commitment totalRows originalRows minRows lt = Some sm"
    and caps: "sint originalRows \<le> int totalRows"
    and v: "map_of sm v = Some rows"
  shows "distinct rows \<and> set rows \<subseteq> {..<totalRows}"
    and "v \<in> set (vs_Validators s)"
    and "map_option (nat \<circ> sint) (AssignedRows C s v originalRows minRows lt) = Some (length rows)"
proof -
  let ?ri = "Shuffle (chacha8 commitment) (totalRows - 1) [0..<totalRows]"
  have ne: "sm \<noteq> []" using v by auto
  obtain rpv where rpv: "rowsPerValidator C s originalRows minRows lt = Some rpv" and t: "0 < totalRows"
    and nn: "\<not> list_ex (\<lambda>r. sint r < 0) rpv"
    and sm: "sm = zip (vs_Validators s) (assign_rows ?ri totalRows 0 (map (\<lambda>r. nat (sint r)) rpv))"
    using Assign_cases [OF A] ne by blast
  note ri_d = Shuffle_upt [OF t, of "chacha8 commitment"]
  have len: "length rpv = length (vs_Validators s)" using rpv by (rule rowsPerValidator_Some)
  obtain k where k: "k < length rpv" "v = vs_Validators s ! k"
    "rows = assign_rows ?ri totalRows 0 (map (\<lambda>r. nat (sint r)) rpv) ! k"
    using map_of_SomeD [OF v] len unfolding sm set_zip by auto
  have ar: "AssignedRows C s v originalRows minRows lt = Some (rpv ! k)"
    using rowsPerValidator_Some(2) [OF rpv k(1)] k(2) by simp
  have "map (\<lambda>r. nat (sint r)) rpv ! k \<le> totalRows"
    using AssignedRows_le [OF ar] caps k(1) by simp
  note d = assign_rows_distinct [OF ri_d(1,2) t, of k "map (\<lambda>r. nat (sint r)) rpv", OF _ this]
  show "distinct rows \<and> set rows \<subseteq> {..<totalRows}" using d(1,2) k ri_d(3) by simp
  show "v \<in> set (vs_Validators s)" using k len by simp
  show "map_option (nat \<circ> sint) (AssignedRows C s v originalRows minRows lt) = Some (length rows)"
    using d(3) k ar by simp
qed

text \<open>C22: A server accepts the row indices of an upload for a validator exactly when they are, in some order, the rows
  that the shard assignment gives to that validator: no row missing, none repeated, none foreign.\<close>

theorem shard_verify_exact:
  assumes "Assign C chacha8 s commitment totalRows originalRows minRows lt = Some sm"
    and "sint originalRows \<le> int totalRows" and "totalRows < 2 ^ 32"
    and "map_of sm v = Some rows"
  shows "ShardMap_Verify sm v idx = Inr () \<longleftrightarrow> mset idx = mset (map of_nat rows)"
proof (rule shard_verify_permutation [OF assms(4)])
  note d = assigned_shard(1) [OF assms(1,2,4)]
  show "distinct rows" using d ..
  show "\<forall>r\<in>set rows. r < 2 ^ 32" using d less_trans [OF _ assms(3)] by blast
qed

section \<open>How many rows a group of validators holds\<close>

lemma ceil_div_mult:
  fixes d n :: int
  assumes "0 < d"
  shows "n \<le> (n + d - 1) div d * d"
proof -
  have "(n + d - 1) div d * d + (n + d - 1) mod d = n + d - 1" by (rule div_mult_mod_eq)
  moreover have "(n + d - 1) mod d < d" using assms by (rule pos_mod_bound)
  ultimately show ?thesis by linarith
qed

text \<open>With operands small enough, the machine arithmetic of \<open>AssignedRows\<close> is exact.\<close>

lemma AssignedRows_exact:
  fixes s :: val_set and C :: cometbft
  defines "T \<equiv> sint (TotalVotingPower C (vs_Validators s))"
  assumes p: "0 \<le> sint (v_VotingPower v)" "sint (v_VotingPower v) \<le> T" and orig: "0 \<le> sint orig"
    and nd: "0 < sint (Numerator lt)" "0 < sint (Denominator lt)" and T: "0 < T"
    and small: "sint orig * T * sint (Denominator lt) + T * sint (Numerator lt) < 2 ^ 63"
  shows "map_option sint (AssignedRows C s v orig m lt) =
    Some (min (max ((sint orig * sint (v_VotingPower v) * sint (Denominator lt) + T * sint (Numerator lt) - 1)
      div (T * sint (Numerator lt))) (sint m)) (sint orig))"
proof -
  define O' p' d n where eqs: "O' = sint orig" "p' = sint (v_VotingPower v)" "d = sint (Denominator lt)"
    "n = sint (Numerator lt)"
  note p = p [folded eqs] and orig = orig [folded eqs] and nd = nd [folded eqs] and small = small [folded eqs]
  have op: "0 \<le> O' * p'" "O' * p' \<le> O' * T" using p orig by (simp_all add: mult_left_mono)
  then have opd: "0 \<le> O' * p' * d" "O' * p' \<le> O' * p' * d" "O' * p' * d \<le> O' * T * d"
    using nd by (simp_all add: mult_right_mono mult_le_cancel_left1)
  have tn: "0 < T * n" using T nd by simp
  have num1: "sint (orig * v_VotingPower v) = O' * p'"
    unfolding eqs using op opd small tn by (intro sint_mult_exact) (simp add: i64_range_def eqs)
  have num: "sint (orig * v_VotingPower v * Denominator lt) = O' * p' * d"
    using num1 opd small tn by (subst sint_mult_exact) (simp_all add: i64_range_def eqs)
  have den: "sint (TotalVotingPower C (vs_Validators s) * Numerator lt) = T * n"
    using opd small tn by (subst sint_mult_exact) (simp_all add: i64_range_def eqs T_def)
  have sum: "sint (orig * v_VotingPower v * Denominator lt + TotalVotingPower C (vs_Validators s) * Numerator lt)
      = O' * p' * d + T * n"
    using num den opd small tn by (subst sint_add_exact) (simp_all add: i64_range_def)
  have all: "sint (orig * v_VotingPower v * Denominator lt + TotalVotingPower C (vs_Validators s) * Numerator lt - 1)
      = O' * p' * d + T * n - 1"
    using sum opd small tn by (subst sint_sub_exact) (simp_all add: i64_range_def)
  show ?thesis
    unfolding AssignedRows_def Let_def eqs [symmetric]
    using i64_div_nonneg [of "orig * v_VotingPower v * Denominator lt +
        TotalVotingPower C (vs_Validators s) * Numerator lt - 1" "TotalVotingPower C (vs_Validators s) * Numerator lt"]
      all den opd(1) tn by (simp add: eqs)
qed

lemma sum_capped_ge:
  fixes f :: "'a \<Rightarrow> int"
  assumes "finite I" and "\<And>i. i \<in> I \<Longrightarrow> 0 \<le> f i" and "M \<le> sum f I" and "0 \<le> M"
  shows "M \<le> (\<Sum>i\<in>I. min (f i) M)"
proof (cases "\<exists>i\<in>I. M \<le> f i")
  case True
  then obtain i where i: "i \<in> I" "M \<le> f i" by blast
  have "(\<Sum>i\<in>I. min (f i) M) = M + (\<Sum>i\<in>I - {i}. min (f i) M)"
    using i assms(1) by (subst sum.remove [of _ i]) simp_all
  moreover have "0 \<le> (\<Sum>i\<in>I - {i}. min (f i) M)" using assms(2,4) by (intro sum_nonneg) simp
  ultimately show ?thesis by linarith
next
  case False
  then have "(\<Sum>i\<in>I. min (f i) M) = sum f I" by (intro sum.cong) auto
  then show ?thesis using assms(3) by simp
qed

lemma group_rows:
  fixes p :: "'a \<Rightarrow> int"
  assumes I: "finite I" and p: "\<And>i. i \<in> I \<Longrightarrow> 0 \<le> p i" and T: "0 < T" and nd: "0 < n" "0 < d" and O': "0 \<le> O'"
    and share: "T * n \<le> d * sum p I"
  shows "O' \<le> (\<Sum>i\<in>I. min (max ((O' * p i * d + T * n - 1) div (T * n)) m) O')"
proof (rule sum_capped_ge [OF I])
  let ?c = "\<lambda>i. (O' * p i * d + T * n - 1) div (T * n)"
  have tn: "0 < T * n" using T nd by simp
  have c: "0 \<le> ?c i" if "i \<in> I" for i
  proof -
    have "0 \<le> O' * p i * d" using p [OF that] nd O' by simp
    then show ?thesis using tn by (simp add: pos_imp_zdiv_nonneg_iff)
  qed
  show "0 \<le> max (?c i) m" if "i \<in> I" for i using c [OF that] by simp
  have "O' * (T * n) \<le> O' * (d * sum p I)" using share O' by (rule mult_left_mono)
  also have "\<dots> = (\<Sum>i\<in>I. O' * p i * d)" by (simp add: sum_distrib_left mult.commute mult.left_commute)
  also have "\<dots> \<le> (\<Sum>i\<in>I. ?c i * (T * n))" by (intro sum_mono ceil_div_mult tn)
  also have "\<dots> = (\<Sum>i\<in>I. ?c i) * (T * n)" by (simp add: sum_distrib_right)
  finally have "O' \<le> (\<Sum>i\<in>I. ?c i)" using tn by (rule mult_right_le_imp_le)
  also have "\<dots> \<le> (\<Sum>i\<in>I. max (?c i) m)" by (intro sum_mono) simp
  finally show "O' \<le> (\<Sum>i\<in>I. max (?c i) m)" .
qed (rule O')

lemma group_row_counts:
  fixes s :: val_set and C :: cometbft
  defines "T \<equiv> sint (TotalVotingPower C (vs_Validators s))"
  assumes laws: "cometbft_laws C" and vs: "NewValidatorSet C vs = Some (vs_Validators s)"
    and rpv: "rowsPerValidator C s originalRows minRows lt = Some rpv"
    and orig: "0 \<le> sint originalRows" and nd: "0 < sint (Numerator lt)" "0 < sint (Denominator lt)" and T: "0 < T"
    and small: "sint originalRows * T * sint (Denominator lt) + T * sint (Numerator lt) < 2 ^ 63"
    and I: "I \<subseteq> {..<length (vs_Validators s)}"
    and share: "T * sint (Numerator lt) \<le>
      sint (Denominator lt) * (\<Sum>i\<in>I. sint (v_VotingPower (vs_Validators s ! i)))"
  shows "sint originalRows \<le> (\<Sum>i\<in>I. sint (rpv ! i))"
proof -
  let ?ws = "vs_Validators s"
  note L = cometbft_lawsD [OF laws vs]
  note R = rowsPerValidator_Some [OF rpv]
  have pos: "0 < sint (v_VotingPower (?ws ! i))" if "i < length ?ws" for i
    using L(3) that mset_eq_setD [OF L(1)] by (metis nth_mem)
  have Tsum: "T = (\<Sum>i<length ?ws. sint (v_VotingPower (?ws ! i)))"
    using L(1,5) unfolding T_def
    by (metis (no_types, lifting) mset_map sum_mset_sum_list sum_list_sum_nth length_map atLeast0LessThan lessThan_iff
        nth_map sum.cong)
  have le: "sint (v_VotingPower (?ws ! i)) \<le> T" if "i < length ?ws" for i
    unfolding Tsum using that pos by (intro member_le_sum) (auto simp: order_less_imp_le)
  have row: "sint (rpv ! i) = min (max ((sint originalRows * sint (v_VotingPower (?ws ! i)) * sint (Denominator lt)
      + T * sint (Numerator lt) - 1) div (T * sint (Numerator lt))) (sint minRows)) (sint originalRows)"
    if "i \<in> I" for i
  proof -
    have i: "i < length ?ws" using that I by auto
    show ?thesis
      using AssignedRows_exact [OF order_less_imp_le [OF pos [OF i]] le [OF i, unfolded T_def] orig nd
          T [unfolded T_def] small [unfolded T_def], of minRows] R(2) [of i] R(1) i
      by (simp add: T_def)
  qed
  have "sint originalRows \<le> (\<Sum>i\<in>I. min (max ((sint originalRows * sint (v_VotingPower (?ws ! i)) *
      sint (Denominator lt) + T * sint (Numerator lt) - 1) div (T * sint (Numerator lt))) (sint minRows))
      (sint originalRows))"
    using I pos by (intro group_rows finite_subset [OF I] T nd orig share) (auto simp: order_less_imp_le)
  also have "\<dots> = (\<Sum>i\<in>I. sint (rpv ! i))" using row by (intro sum.cong refl) simp
  finally show ?thesis .
qed

lemma sum_list_take_mono: "i \<le> j \<Longrightarrow> sum_list (take i ns) \<le> sum_list (take j (ns :: nat list))"
  by (metis le_add1 le_add_diff_inverse sum_list_append take_add)

text \<open>Every validator gets a window of the positions; those before the end of the table carry different rows.\<close>

lemma assign_rows_cover:
  assumes ri: "distinct ri" "length ri = t" and t: "0 < t" and I: "I \<subseteq> {..<length ns}"
  shows "(\<Sum>i\<in>I. ns ! i) \<le> card (\<Union>i\<in>I. set (assign_rows ri t 0 ns ! i)) + (sum_list ns - t)"
proof -
  define P where "P i = {sum_list (take i ns)..<sum_list (take i ns) + ns ! i}" for i
  let ?P = "\<Union>i\<in>I. P i" and ?R = "\<Union>i\<in>I. set (assign_rows ri t 0 ns ! i)"
  have fin: "finite I" using I finite_subset by blast
  have step: "sum_list (take i ns) + ns ! i = sum_list (take (Suc i) ns)" if "i < length ns" for i
    using that by (simp add: take_Suc_conv_app_nth)
  have lt: "P i \<inter> P j = {}" if "i < j" "i < length ns" for i j
    using sum_list_take_mono [of "Suc i" j ns] that step by (auto simp: P_def)
  have disj: "P i \<inter> P j = {}" if ij: "i \<in> I" "j \<in> I" "i \<noteq> j" for i j
  proof -
    have "i < length ns" "j < length ns" using I ij by auto
    then show ?thesis using lt [of i j] lt [of j i] ij(3) by (metis Int_commute linorder_neqE_nat)
  qed
  have "card ?P = (\<Sum>i\<in>I. card (P i))"
    by (rule card_UN_disjoint) (use fin disj in \<open>auto simp: P_def\<close>)
  then have total: "card ?P = (\<Sum>i\<in>I. ns ! i)" by (simp add: P_def)
  have "P i \<subseteq> {..<sum_list ns}" if "i \<in> I" for i
  proof -
    have "i < length ns" using I that by auto
    then have "sum_list (take i ns) + ns ! i \<le> sum_list ns"
      using step [of i] sum_list_take_mono [of "Suc i" "length ns" ns] by simp
    then show ?thesis by (auto simp: P_def)
  qed
  then have "?P - {..<t} \<subseteq> {t..<sum_list ns}" by fastforce
  then have wrap: "card (?P - {..<t}) \<le> sum_list ns - t" using card_mono [of "{t..<sum_list ns}"] by fastforce
  have inj: "inj_on ((!) ri) (?P \<inter> {..<t})"
    using ri by (auto simp: inj_on_def nth_eq_iff_index_eq)
  have "(!) ri ` (?P \<inter> {..<t}) \<subseteq> ?R"
  proof
    fix r assume "r \<in> (!) ri ` (?P \<inter> {..<t})"
    then obtain i p where p: "i \<in> I" "p \<in> P i" "p < t" "r = ri ! p" by auto
    have "i < length ns" using I p(1) by auto
    have "p - sum_list (take i ns) \<in> set [0..<ns ! i]" using p(2) by (auto simp: P_def)
    moreover have "r = ri ! ((sum_list (take i ns) + (p - sum_list (take i ns))) mod t)"
      using p(2-4) by (simp add: P_def)
    ultimately have "r \<in> set (assign_rows ri t 0 ns ! i)"
      using \<open>i < length ns\<close> by (auto simp: nth_assign_rows)
    then show "r \<in> ?R" using p(1) by blast
  qed
  then have "card (?P \<inter> {..<t}) \<le> card ?R"
    using inj fin by (metis (no_types, lifting) card_image card_mono finite_UN finite_set)
  moreover have "card ?P = card (?P \<inter> {..<t}) + card (?P - {..<t})"
    by (rule card_Int_Diff) (use fin in \<open>simp add: P_def\<close>)
  ultimately show ?thesis using total wrap by linarith
qed

text \<open>C23: Any group of validators whose share of the voting power reaches the liveness threshold is assigned at least as many
  different rows as a blob has original rows, so together they can reconstruct it, as long as the assignment does not
  wrap around the table of rows; if it does (rows raised to the minimum per validator), they lack at most as many rows as
  were assigned beyond the end of the table.\<close>

theorem liveness_share_reconstructs:
  fixes s :: val_set and C :: cometbft
  defines "T \<equiv> sint (TotalVotingPower C (vs_Validators s))"
  assumes laws: "cometbft_laws C" and vs: "NewValidatorSet C vs = Some (vs_Validators s)"
    and assign: "Assign C chacha8 s commitment totalRows originalRows minRows lt = Some sm"
    and rows: "0 < totalRows" "minRows \<noteq> 0"
    and orig: "0 \<le> sint originalRows" and nd: "0 < sint (Numerator lt)" "0 < sint (Denominator lt)" and T: "0 < T"
    and small: "sint originalRows * T * sint (Denominator lt) + T * sint (Numerator lt) < 2 ^ 63"
    and I: "I \<subseteq> {..<length (vs_Validators s)}"
    and share: "T * sint (Numerator lt) \<le>
      sint (Denominator lt) * (\<Sum>i\<in>I. sint (v_VotingPower (vs_Validators s ! i)))"
  shows "sint originalRows \<le>
    int (card (\<Union>i\<in>I. set (snd (sm ! i)))) + max 0 ((\<Sum>(v, rows)\<leftarrow>sm. int (length rows)) - int totalRows)"
proof -
  let ?ri = "Shuffle (chacha8 commitment) (totalRows - 1) [0..<totalRows]"
  have "I \<noteq> {}" using share mult_pos_pos [OF T nd(1)] by auto
  then have ne: "vs_Validators s \<noteq> []" using I by auto
  obtain rpv where rpv: "rowsPerValidator C s originalRows minRows lt = Some rpv"
    and nn: "\<not> list_ex (\<lambda>r. sint r < 0) rpv"
    and sm: "sm = zip (vs_Validators s) (assign_rows ?ri totalRows 0 (map (\<lambda>r. nat (sint r)) rpv))"
    using Assign_cases [OF assign] assign ne rows by (auto simp: Assign_def split: option.splits if_splits)
  let ?ns = "map (\<lambda>r. nat (sint r)) rpv"
  have len: "length rpv = length (vs_Validators s)" using rpv by (rule rowsPerValidator_Some)
  have "sint originalRows \<le> (\<Sum>i\<in>I. sint (rpv ! i))"
    by (rule group_row_counts [OF laws vs rpv orig nd T [unfolded T_def] small [unfolded T_def] I share [unfolded T_def]])
  also have "\<dots> = (\<Sum>i\<in>I. int (?ns ! i))"
    using I len nn by (intro sum.cong refl) (auto simp: list_ex_iff not_less subset_iff)
  also have "\<dots> = int (\<Sum>i\<in>I. ?ns ! i)" by simp
  also have "\<dots> \<le> int (card (\<Union>i\<in>I. set (assign_rows ?ri totalRows 0 ?ns ! i)) + (sum_list ?ns - totalRows))"
    using assign_rows_cover [OF Shuffle_upt(1,2) [OF rows(1)] rows(1), of I ?ns "chacha8 commitment"] I len
    by (simp only: of_nat_le_iff length_map)
  also have "(\<Union>i\<in>I. set (assign_rows ?ri totalRows 0 ?ns ! i)) = (\<Union>i\<in>I. set (snd (sm ! i)))"
    using I len unfolding sm by (intro SUP_cong refl) auto
  also have "sum_list ?ns = (\<Sum>(v, rows)\<leftarrow>sm. length rows)"
    using length_assign_total [of "vs_Validators s" ?ns ?ri totalRows 0] len unfolding sm by simp
  finally show ?thesis by (simp add: int_total_rows)
qed

definition ref_set :: val_set where
  "ref_set = \<lparr>vs_Validators = ref_vals, vs_Height = 5\<rparr>"

definition oneThird :: fraction where
  "oneThird = \<lparr>Numerator = 1, Denominator = 3\<rparr>"

lemma ref_total: "TotalVotingPower ref_comet ref_vals = 4"
  by (simp add: ref_comet_def ref_vals_def)

lemma ref_new_set: "NewValidatorSet ref_comet ref_vals = Some (vs_Validators ref_set)"
  by (simp add: ref_comet_def ref_vals_def ref_set_def)

lemma ref_assign_two: "\<exists>sm. Assign ref_comet (\<lambda>_ i. i) ref_set c 8 2 1 oneThird = Some sm \<and>
    (\<Sum>(v, rows)\<leftarrow>sm. int (length rows)) = 8"
proof -
  have "rowsPerValidator ref_comet ref_set 2 1 oneThird = Some [2, 2, 2, 2]"
    unfolding rowsPerValidator_def AssignedRows_def ref_set_def
    by (simp add: ref_total) (simp add: ref_vals_def oneThird_def i64_div_def quot_def i64_max_def i64_min_def)
  moreover have "vs_Validators ref_set = ref_vals" "ref_vals \<noteq> []" by (simp_all add: ref_set_def ref_vals_def)
  ultimately show ?thesis
    unfolding Assign_def Let_def by (simp add: ref_vals_def del: upt.simps Shuffle.simps)
qed

theorem liveness_share_reconstructs_witness:
  "\<exists>sm. Assign ref_comet (\<lambda>_ i. i) ref_set [7] 8 2 1 oneThird = Some sm \<and> 2 \<le> card (\<Union>i\<in>{0, 1}. set (snd (sm ! i)))"
proof -
  obtain sm where sm: "Assign ref_comet (\<lambda>_ i. i) ref_set [7] 8 2 1 oneThird = Some sm"
    "(\<Sum>(v, rows)\<leftarrow>sm. int (length rows)) = 8" using ref_assign_two by blast
  have T: "sint (TotalVotingPower ref_comet (vs_Validators ref_set)) = 4" by (simp add: ref_total ref_set_def)
  have len: "length (vs_Validators ref_set) = 4" by (simp add: ref_set_def ref_vals_def)
  have share: "(\<Sum>i\<in>{0, 1}. sint (v_VotingPower (vs_Validators ref_set ! i))) = 2"
    by (simp add: ref_set_def ref_vals_def)
  have lt: "sint (Numerator oneThird) = 1" "sint (Denominator oneThird) = 3" by (simp_all add: oneThird_def)
  have "2 \<le> int (card (\<Union>i\<in>{0, 1}. set (snd (sm ! i))))"
    using liveness_share_reconstructs [OF ref_comet_laws ref_new_set sm(1), of "{0, 1}"]
    unfolding T lt len share sm(2) by simp
  then show ?thesis using sm(1) by (intro exI [of _ sm]) simp
qed

lemma ref_assign:
  "Assign ref_comet (\<lambda>_ i. i) ref_set c 4 1 1 oneThird = Some (zip ref_vals [[0], [1], [2], [3]])"
proof -
  have "rowsPerValidator ref_comet ref_set 1 1 oneThird = Some [1, 1, 1, 1]"
    unfolding rowsPerValidator_def AssignedRows_def ref_set_def
    by (simp add: ref_total) (simp add: ref_vals_def oneThird_def i64_div_def quot_def i64_max_def i64_min_def)
  moreover have "Shuffle (\<lambda>i. i) (4 - 1) [0..<4] = [0, 1, 2, 3]" by code_simp
  moreover have "assign_rows [0, 1, 2, 3] 4 0 [1, 1, 1, 1] = [[0], [1], [2], [3]]" by code_simp
  moreover have "vs_Validators ref_set = ref_vals" "ref_vals \<noteq> []" by (simp_all add: ref_set_def ref_vals_def)
  ultimately show ?thesis unfolding Assign_def Let_def by (simp del: upt.simps Shuffle.simps assign_rows.simps)
qed

theorem shard_verify_exact_witness:
  "ShardMap_Verify (zip ref_vals [[0], [1], [2], [3]]) (hd ref_vals) [0] = Inr ()"
proof -
  have v: "map_of (zip ref_vals [[0], [1], [2], [3 :: nat]]) (hd ref_vals) = Some [0]" by (simp add: ref_vals_def)
  show ?thesis using shard_verify_exact [OF ref_assign _ _ v, of "[0]"] by simp
qed

end
