(* ===== verification/LegacyDec.thy ===== *)
theory LegacyDec
  imports GoInt
begin

text \<open>
  The SDK's fixed-point decimals (\<open>cosmossdk.io/math.LegacyDec\<close>), a third-party type: a decimal is an
  integer number of units of ten to the minus eighteen, its operations are a parameter, and \<open>dec_laws\<close>
  is what the modules rely on: exact where the result is representable, otherwise rounded to a nearest
  unit; an operation that panics is \<open>None\<close>.
\<close>

type_synonym dec = int

abbreviation (input) dec_one :: dec where
  "dec_one \<equiv> 1000000000000000000"

record dec_ops =
  LegacyNewDec :: "int \<Rightarrow> dec"
  LegacyNewDecWithPrec :: "int \<Rightarrow> nat \<Rightarrow> dec"
  dec_Mul :: "dec \<Rightarrow> dec \<Rightarrow> dec option"
  dec_Quo :: "dec \<Rightarrow> dec \<Rightarrow> dec option"
  dec_MulInt :: "dec \<Rightarrow> int \<Rightarrow> dec option"
  dec_Sub :: "dec \<Rightarrow> dec \<Rightarrow> dec option"
  dec_Power :: "dec \<Rightarrow> nat \<Rightarrow> dec option"
  dec_Ceil :: "dec \<Rightarrow> dec"
  dec_TruncateInt :: "dec \<Rightarrow> int"

definition dec_fits :: "int \<Rightarrow> bool" where
  "dec_fits x \<longleftrightarrow> \<bar>x\<bar> < 2 ^ 255"

definition dec_laws :: "dec_ops \<Rightarrow> bool" where
  "dec_laws D \<longleftrightarrow>
     (\<forall>n. LegacyNewDec D n = n * dec_one) \<and>
     (\<forall>n p. p \<le> 18 \<longrightarrow> LegacyNewDecWithPrec D n p = n * 10 ^ (18 - p)) \<and>
     (\<forall>a b. dec_fits (a * b) \<longrightarrow> (\<exists>r. dec_Mul D a b = Some r \<and> 2 * \<bar>r * dec_one - a * b\<bar> \<le> dec_one)) \<and>
     (\<forall>a b. b \<noteq> 0 \<longrightarrow> dec_fits (a * dec_one) \<longrightarrow>
        (\<exists>r. dec_Quo D a b = Some r \<and> 2 * \<bar>r * b - a * dec_one\<bar> \<le> \<bar>b\<bar>)) \<and>
     (\<forall>a n. dec_fits (a * n) \<longrightarrow> dec_MulInt D a n = Some (a * n)) \<and>
     (\<forall>a b. dec_fits (a - b) \<longrightarrow> dec_Sub D a b = Some (a - b)) \<and>
     (\<forall>a. dec_Power D a 0 = Some dec_one) \<and>
     (\<forall>a n. 0 \<le> a \<longrightarrow> a \<le> dec_one \<longrightarrow>
        (\<exists>r. dec_Power D a (Suc n) = Some r \<and> 0 \<le> r \<and> r \<le> dec_one \<and>
           \<bar>r * dec_one ^ n - a ^ Suc n\<bar> \<le> int n * dec_one ^ n)) \<and>
     (\<forall>a. dec_Ceil D a = - ((- a) div dec_one) * dec_one) \<and>
     (\<forall>a. dec_TruncateInt D a = quot a dec_one)"

lemma dec_exact [simp]:
  assumes "dec_laws D"
  shows "LegacyNewDec D n = n * dec_one"
    and "p \<le> 18 \<Longrightarrow> LegacyNewDecWithPrec D n p = n * 10 ^ (18 - p)"
    and "dec_fits (a * n) \<Longrightarrow> dec_MulInt D a n = Some (a * n)"
    and "dec_fits (a - b) \<Longrightarrow> dec_Sub D a b = Some (a - b)"
    and "dec_Power D a 0 = Some dec_one"
    and "dec_Ceil D a = - ((- a) div dec_one) * dec_one"
    and "dec_TruncateInt D a = quot a dec_one"
  using assms unfolding dec_laws_def by blast+

lemma dec_MulD:
  assumes "dec_laws D" and "dec_fits (a * b)"
  obtains r where "dec_Mul D a b = Some r" and "2 * \<bar>r * dec_one - a * b\<bar> \<le> dec_one"
  using assms unfolding dec_laws_def by blast

lemma dec_QuoD:
  assumes "dec_laws D" and "b \<noteq> 0" and "dec_fits (a * dec_one)"
  obtains r where "dec_Quo D a b = Some r" and "2 * \<bar>r * b - a * dec_one\<bar> \<le> \<bar>b\<bar>"
  using assms unfolding dec_laws_def by blast

lemma dec_PowerD:
  assumes "dec_laws D" and "0 \<le> a" and "a \<le> dec_one"
  obtains r where "dec_Power D a (Suc n) = Some r" and "0 \<le> r" and "r \<le> dec_one"
    and "\<bar>r * dec_one ^ n - a ^ Suc n\<bar> \<le> int n * dec_one ^ n"
  using assms unfolding dec_laws_def by blast

lemma ceil_to_int:
  fixes a :: int
  assumes "0 \<le> a"
  shows "quot (- ((- a) div dec_one) * dec_one) dec_one = - ((- a) div dec_one)"
proof -
  have "0 \<le> - ((- a) div dec_one)" using assms by simp
  then show ?thesis by (simp add: quot_def)
qed

lemma ceil_to_int_bounds:
  fixes a :: int
  shows "a \<le> - ((- a) div dec_one) * dec_one" and "- ((- a) div dec_one) * dec_one < a + dec_one"
proof -
  have "(- a) div dec_one * dec_one + (- a) mod dec_one = - a" by (rule div_mult_mod_eq)
  moreover have "0 \<le> (- a) mod dec_one" "(- a) mod dec_one < dec_one" by simp_all
  ultimately show "a \<le> - ((- a) div dec_one) * dec_one" "- ((- a) div dec_one) * dec_one < a + dec_one"
    by linarith+
qed

section \<open>A concrete instance\<close>

definition ref_round :: "int \<Rightarrow> int \<Rightarrow> int" where
  "ref_round a b = (2 * a + \<bar>b\<bar>) div (2 * \<bar>b\<bar>) * sgn b"

fun ref_power :: "dec \<Rightarrow> nat \<Rightarrow> dec" where
  "ref_power a 0 = dec_one"
| "ref_power a (Suc 0) = a"
| "ref_power a (Suc n) = ref_round (ref_power a n * a) dec_one"

definition ref_dec :: dec_ops where
  "ref_dec = \<lparr>
     LegacyNewDec = (\<lambda>n. n * dec_one),
     LegacyNewDecWithPrec = (\<lambda>n p. n * 10 ^ (18 - p)),
     dec_Mul = (\<lambda>a b. Some (ref_round (a * b) dec_one)),
     dec_Quo = (\<lambda>a b. if b = 0 then None else Some (ref_round (a * dec_one) b)),
     dec_MulInt = (\<lambda>a n. Some (a * n)),
     dec_Sub = (\<lambda>a b. Some (a - b)),
     dec_Power = (\<lambda>a n. Some (ref_power a n)),
     dec_Ceil = (\<lambda>a. - ((- a) div dec_one) * dec_one),
     dec_TruncateInt = (\<lambda>a. quot a dec_one)\<rparr>"

lemma half_round:
  fixes q r a b :: int
  assumes "q * (2 * b) + r = 2 * a + b" and "0 \<le> r" and "r < 2 * b"
  shows "2 * \<bar>q * b - a\<bar> \<le> b"
proof -
  define x where "x = q * b"
  have "2 * x + r = 2 * a + b" using assms(1) by (simp add: x_def)
  then show ?thesis using assms(2,3) unfolding x_def [symmetric] by arith
qed

lemma ref_round_near:
  assumes "b \<noteq> 0"
  shows "2 * \<bar>ref_round a b * b - a\<bar> \<le> \<bar>b\<bar>"
proof -
  let ?q = "(2 * a + \<bar>b\<bar>) div (2 * \<bar>b\<bar>)"
  have "2 * \<bar>?q * \<bar>b\<bar> - a\<bar> \<le> \<bar>b\<bar>"
    using assms by (intro half_round [OF div_mult_mod_eq]) simp_all
  moreover have "ref_round a b * b = ?q * \<bar>b\<bar>"
    by (simp add: ref_round_def mult.assoc sgn_mult_abs abs_sgn mult.commute [of "sgn b"])
  ultimately show ?thesis by simp
qed

lemma ref_round_unit:
  fixes x :: int
  assumes "0 \<le> x" and "x \<le> dec_one * dec_one"
  shows "0 \<le> ref_round x dec_one" and "ref_round x dec_one \<le> dec_one"
  using ref_round_near [of dec_one x] assms by simp_all

lemma ref_power_Suc: "ref_power a (Suc (Suc n)) = ref_round (ref_power a (Suc n) * a) dec_one"
  by simp

lemma ref_power_near:
  assumes "0 \<le> a" and "a \<le> dec_one"
  shows "0 \<le> ref_power a (Suc n) \<and> ref_power a (Suc n) \<le> dec_one \<and>
    \<bar>ref_power a (Suc n) * dec_one ^ n - a ^ Suc n\<bar> \<le> int n * dec_one ^ n"
proof (induction n)
  case 0
  then show ?case using assms by simp
next
  case (Suc n)
  let ?p = "ref_power a (Suc n)" and ?q = "ref_power a (Suc (Suc n))"
  have q: "?q = ref_round (?p * a) dec_one" by (rule ref_power_Suc)
  have pa: "0 \<le> ?p * a" "?p * a \<le> dec_one * dec_one" using Suc assms by (simp, intro mult_mono) auto
  have near: "2 * \<bar>?q * dec_one - ?p * a\<bar> \<le> dec_one" unfolding q using ref_round_near [of dec_one] by simp
  have "?q * dec_one ^ Suc n - a ^ Suc (Suc n) =
      (?q * dec_one - ?p * a) * dec_one ^ n + (?p * dec_one ^ n - a ^ Suc n) * a"
    by (simp add: algebra_simps)
  then have "\<bar>?q * dec_one ^ Suc n - a ^ Suc (Suc n)\<bar> \<le>
      \<bar>?q * dec_one - ?p * a\<bar> * dec_one ^ n + \<bar>?p * dec_one ^ n - a ^ Suc n\<bar> * a"
    using assms by (simp add: abs_mult order_trans [OF abs_triangle_ineq])
  also have "\<dots> \<le> dec_one * dec_one ^ n + int n * dec_one ^ n * dec_one"
    using near Suc assms by (intro add_mono mult_mono) auto
  also have "\<dots> = int (Suc n) * dec_one ^ Suc n" by (simp add: algebra_simps)
  finally show ?case using ref_round_unit [OF pa] unfolding q by blast
qed

lemma ref_dec_laws: "dec_laws ref_dec"
  unfolding dec_laws_def
proof (intro conjI allI impI)
  fix a b :: int
  show "\<exists>r. dec_Mul ref_dec a b = Some r \<and> 2 * \<bar>r * dec_one - a * b\<bar> \<le> dec_one"
    using ref_round_near [of dec_one "a * b"] by (simp add: ref_dec_def)
  show "\<exists>r. dec_Quo ref_dec a b = Some r \<and> 2 * \<bar>r * b - a * dec_one\<bar> \<le> \<bar>b\<bar>" if "b \<noteq> 0"
    using ref_round_near [OF that, of "a * dec_one"] that by (simp add: ref_dec_def)
next
  fix a :: int and n assume "0 \<le> a" "a \<le> dec_one"
  then show "\<exists>r. dec_Power ref_dec a (Suc n) = Some r \<and> 0 \<le> r \<and> r \<le> dec_one \<and>
      \<bar>r * dec_one ^ n - a ^ Suc n\<bar> \<le> int n * dec_one ^ n"
    using ref_power_near [of a n] by (simp add: ref_dec_def del: ref_power.simps)
qed (simp_all add: ref_dec_def)

end
