(* ===== verification/Signal.thy ===== *)
theory Signal
  imports LegacyDec Sdk
begin

text \<open>
  Network upgrades (\<open>x/signal/keeper.go\<close>, the end of \<open>EndBlocker\<close> in \<open>app/app.go\<close>): validators signal for
  an application version, anyone may ask for a tally, and a version with five sixths of the bonded voting
  power is scheduled and takes effect a fixed number of blocks later. The staking keeper, the upgrade
  keeper and the protobuf codec are parameters.
\<close>

section \<open>Data\<close>

record upgrade =
  AppVersion :: uint64
  UpgradeHeight :: int64

record signal_validator =
  val_IsBonded :: bool
  val_GetOperator :: string
  val_GetMoniker :: string

datatype staking_lookup = NoValidatorFound | StakingError | FoundValidator signal_validator

record staking_view =
  GetLastValidatorPower :: "bytes \<Rightarrow> int64 option"
  GetLastTotalPower :: "int option"
  GetValidator :: "bytes \<Rightarrow> staking_lookup"
  IterateValidators :: "signal_validator list option"

record signal_env =
  ValAddressFromBech32 :: "string \<Rightarrow> bytes option"
  marshal_Upgrade :: "upgrade \<Rightarrow> bytes"
  unmarshal_Upgrade :: "bytes \<Rightarrow> upgrade option"

datatype signal_err =
    ErrUpgradePending | ErrInvalidSignalVersion | ErrInvalidUpgradeVersion
  | ErrValAddress | ErrGetValidator | ErrStakingKeeper | ErrScheduleUpgrade | ErrDumpUpgradeInfo | SignalPanic

record msg_signal_version =
  sv_ValidatorAddress :: string
  sv_Version :: uint64

datatype signal_event = EvSignalVersion string | EvTryUpgrade string

type_synonym signal_store = "(bytes, bytes) kv"

definition UpgradeKey :: bytes where
  "UpgradeKey = [0]"

definition FirstSignalKey :: bytes where
  "FirstSignalKey = [0]"

section \<open>Constants\<close>

definition GetUpgradeHeightDelay :: "string \<Rightarrow> int64" where
  "GetUpgradeHeightDelay chainID =
     (if chainID = ''test'' then 3
      else if chainID = ''corto-1'' then 33231
      else if chainID = ''mocha-5'' then 66462
      else 232616)"

definition defaultSignalThreshold :: "dec_ops \<Rightarrow> dec option" where
  "defaultSignalThreshold D = dec_Quo D (LegacyNewDec D 5) (LegacyNewDec D 6)"

definition Threshold :: "dec_ops \<Rightarrow> uint64 \<Rightarrow> dec option" where
  "Threshold D _ = defaultSignalThreshold D"

section \<open>The store\<close>

definition VersionToBytes :: "uint64 \<Rightarrow> bytes" where
  "VersionToBytes version = be_bytes 8 (unat version)"

definition VersionFromBytes :: "bytes \<Rightarrow> uint64" where
  "VersionFromBytes version = (if length version \<noteq> 8 then 0 else of_nat (be_nat version))"

definition SetValidatorVersion :: "signal_store \<Rightarrow> bytes \<Rightarrow> uint64 \<Rightarrow> signal_store" where
  "SetValidatorVersion s valAddress version = kv_set valAddress (VersionToBytes version) s"

definition DeleteValidatorVersion :: "signal_store \<Rightarrow> bytes \<Rightarrow> signal_store" where
  "DeleteValidatorVersion s valAddress = kv_del valAddress s"

definition getUpgrade :: "signal_env \<Rightarrow> signal_store \<Rightarrow> signal_err + upgrade option" where
  "getUpgrade S s =
     (case kv_get s UpgradeKey of
        None \<Rightarrow> Inr None
      | Some bz \<Rightarrow> rbind (of_opt SignalPanic (unmarshal_Upgrade S bz)) (\<lambda>u. Inr (Some u)))"

definition setUpgrade :: "signal_env \<Rightarrow> signal_store \<Rightarrow> upgrade \<Rightarrow> signal_store" where
  "setUpgrade S s u = kv_set UpgradeKey (marshal_Upgrade S u) s"

definition IsUpgradePending :: "signal_env \<Rightarrow> signal_store \<Rightarrow> signal_err + bool" where
  "IsUpgradePending S s = rbind (getUpgrade S s) (\<lambda>u. Inr (u \<noteq> None))"

definition GetUpgrade :: "signal_env \<Rightarrow> signal_store \<Rightarrow> signal_err + upgrade option" where
  "GetUpgrade S s = getUpgrade S s"

definition ShouldUpgrade :: "signal_env \<Rightarrow> ctx \<Rightarrow> signal_store \<Rightarrow> signal_err + upgrade option" where
  "ShouldUpgrade S c s =
     rbind (getUpgrade S s) (\<lambda>u.
     case u of
       None \<Rightarrow> Inr None
     | Some u \<Rightarrow> Inr (if sint (UpgradeHeight u) \<le> sint (BlockHeight c) then Some u else None))"

definition ResetTally :: "signal_store \<Rightarrow> signal_store" where
  "ResetTally s = fold kv_del (map fst s) s"

text \<open>\<open>store.Iterator(FirstSignalKey, nil)\<close>: the entries at or after the start key.\<close>

definition signal_entries :: "signal_store \<Rightarrow> (bytes \<times> bytes) list" where
  "signal_entries s = filter (\<lambda>p. FirstSignalKey \<le> fst p) s"

section \<open>Tallies\<close>

definition GetVotingPowerThreshold :: "dec_ops \<Rightarrow> staking_view \<Rightarrow> uint64 \<Rightarrow> signal_err + int" where
  "GetVotingPowerThreshold D V app =
     rbind (of_opt ErrStakingKeeper (GetLastTotalPower V)) (\<lambda>totalVotingPower.
     rbind (of_opt SignalPanic (Threshold D app)) (\<lambda>thresholdFraction.
     rbind (of_opt SignalPanic (dec_MulInt D thresholdFraction totalVotingPower)) (\<lambda>p.
     Inr (dec_TruncateInt D (dec_Ceil D p)))))"

fun tally_power ::
  "staking_view \<Rightarrow> int64 \<Rightarrow> (bytes \<times> bytes) list \<Rightarrow> (uint64 \<Rightarrow> int64 option) \<Rightarrow> signal_store \<Rightarrow>
   signal_err + (bool \<times> uint64) \<times> signal_store" where
  "tally_power V threshold [] versionToPower s = Inr ((False, 0), s)"
| "tally_power V threshold ((valAddress, vote) # es) versionToPower s =
     (if valAddress = UpgradeKey then tally_power V threshold es versionToPower s
      else case GetValidator V valAddress of
        StakingError \<Rightarrow> Inl ErrGetValidator
      | NoValidatorFound \<Rightarrow>
          tally_power V threshold es versionToPower (DeleteValidatorVersion s valAddress)
      | FoundValidator val \<Rightarrow>
          if \<not> val_IsBonded val then tally_power V threshold es versionToPower s
          else rbind (of_opt ErrStakingKeeper (GetLastValidatorPower V valAddress)) (\<lambda>power.
            let version = VersionFromBytes vote;
                new = (case versionToPower version of None \<Rightarrow> power | Some p \<Rightarrow> p + power) in
            if sint threshold \<le> sint new then Inr ((True, version), s)
            else tally_power V threshold es (versionToPower(version \<mapsto> new)) s))"

definition TallyVotingPower ::
  "staking_view \<Rightarrow> signal_store \<Rightarrow> int64 \<Rightarrow> signal_err + (bool \<times> uint64) \<times> signal_store" where
  "TallyVotingPower V s threshold = tally_power V threshold (signal_entries s) Map.empty s"

section \<open>Messages and queries\<close>

definition SignalVersion ::
  "signal_env \<Rightarrow> staking_view \<Rightarrow> uint64 \<Rightarrow> msg_signal_version \<Rightarrow> signal_store \<Rightarrow>
   signal_err + signal_store \<times> signal_event list" where
  "SignalVersion S V currentVersion m s =
     rbind (IsUpgradePending S s) (\<lambda>pending.
     rbind (require (\<not> pending) ErrUpgradePending) (\<lambda>_.
     rbind (of_opt ErrValAddress (ValAddressFromBech32 S (sv_ValidatorAddress m))) (\<lambda>valAddr.
     rbind (require (currentVersion \<le> sv_Version m) ErrInvalidSignalVersion) (\<lambda>_.
     rbind (case GetValidator V valAddr of FoundValidator _ \<Rightarrow> Inr () | _ \<Rightarrow> Inl ErrGetValidator) (\<lambda>_.
     Inr (SetValidatorVersion s valAddr (sv_Version m), [EvSignalVersion (sv_ValidatorAddress m)]))))))"

definition TryUpgrade ::
  "signal_env \<Rightarrow> dec_ops \<Rightarrow> staking_view \<Rightarrow> ctx \<Rightarrow> uint64 \<Rightarrow> string \<Rightarrow> signal_store \<Rightarrow>
   signal_err + signal_store \<times> signal_event list" where
  "TryUpgrade S D V c appVersion signer s =
     rbind (IsUpgradePending S s) (\<lambda>pending.
     rbind (require (\<not> pending) ErrUpgradePending) (\<lambda>_.
     rbind (GetVotingPowerThreshold D V appVersion) (\<lambda>threshold.
     rbind (of_opt SignalPanic (Int_Int64 threshold)) (\<lambda>threshold64.
     rbind (TallyVotingPower V s threshold64) (\<lambda>((hasQuorum, version), s1).
     if hasQuorum then
       rbind (require (appVersion < version) ErrInvalidUpgradeVersion) (\<lambda>_.
       Inr (setUpgrade S s1 \<lparr>AppVersion = version,
              UpgradeHeight = BlockHeight c + GetUpgradeHeightDelay (ChainID c)\<rparr>, [EvTryUpgrade signer]))
     else Inr (s1, [EvTryUpgrade signer]))))))"

record version_tally =
  vt_VotingPower :: uint64
  vt_ThresholdPower :: uint64
  vt_TotalVotingPower :: uint64

fun version_power ::
  "staking_view \<Rightarrow> uint64 \<Rightarrow> (bytes \<times> bytes) list \<Rightarrow> int \<Rightarrow> signal_err + int" where
  "version_power V version [] acc = Inr acc"
| "version_power V version ((valAddress, vote) # es) acc =
     (if valAddress = UpgradeKey then version_power V version es acc
      else rbind (of_opt ErrStakingKeeper (GetLastValidatorPower V valAddress)) (\<lambda>power.
        version_power V version es (if VersionFromBytes vote = version then acc + sint power else acc)))"

definition VersionTally ::
  "dec_ops \<Rightarrow> staking_view \<Rightarrow> uint64 \<Rightarrow> uint64 \<Rightarrow> signal_store \<Rightarrow> signal_err + version_tally" where
  "VersionTally D V app version s =
     rbind (of_opt ErrStakingKeeper (GetLastTotalPower V)) (\<lambda>total.
     rbind (version_power V version (signal_entries s) 0) (\<lambda>current.
     rbind (GetVotingPowerThreshold D V app) (\<lambda>threshold.
     rbind (of_opt SignalPanic (Int_Uint64 current)) (\<lambda>current64.
     rbind (of_opt SignalPanic (Int_Uint64 threshold)) (\<lambda>threshold64.
     rbind (of_opt SignalPanic (Int_Uint64 total)) (\<lambda>total64.
     Inr \<lparr>vt_VotingPower = current64, vt_ThresholdPower = threshold64, vt_TotalVotingPower = total64\<rparr>))))))"

text \<open>The callback of the iteration, for one validator: its moniker, if it is missing.\<close>

definition missing_moniker ::
  "signal_env \<Rightarrow> staking_view \<Rightarrow> uint64 \<Rightarrow> signal_store \<Rightarrow> signal_validator \<Rightarrow> string list" where
  "missing_moniker S V version s v =
     (case ValAddressFromBech32 S (val_GetOperator v) of
        None \<Rightarrow> []
      | Some valAddr \<Rightarrow>
          (case GetLastValidatorPower V valAddr of
             None \<Rightarrow> []
           | Some pw \<Rightarrow>
               if sint pw \<le> 0 then []
               else case kv_get s valAddr of
                 None \<Rightarrow> [val_GetMoniker v]
               | Some bz \<Rightarrow> if VersionFromBytes bz \<noteq> version then [val_GetMoniker v] else []))"

definition GetMissingValidators ::
  "signal_env \<Rightarrow> staking_view \<Rightarrow> uint64 \<Rightarrow> signal_store \<Rightarrow> signal_err + string list" where
  "GetMissingValidators S V version s =
     rbind (of_opt ErrStakingKeeper (IterateValidators V)) (\<lambda>vs.
     Inr (concat (map (missing_moniker S V version s) vs)))"

definition MsgSignalVersion_ValidateBasic :: "signal_env \<Rightarrow> msg_signal_version \<Rightarrow> signal_err + unit" where
  "MsgSignalVersion_ValidateBasic S m =
     rbind (of_opt ErrValAddress (ValAddressFromBech32 S (sv_ValidatorAddress m))) (\<lambda>_. Inr ())"

definition MsgTryUpgrade_ValidateBasic :: "sdk \<Rightarrow> string \<Rightarrow> signal_err + unit" where
  "MsgTryUpgrade_ValidateBasic E signer =
     rbind (of_opt ErrValAddress (AccAddressFromBech32 E signer)) (\<lambda>_. Inr ())"

section \<open>The end of a block\<close>

record plan =
  plan_Name :: string
  plan_Height :: int64

record upgrade_keeper =
  ScheduleUpgrade :: "ctx \<Rightarrow> plan \<Rightarrow> bool"
  DumpUpgradeInfoToDisk :: "int64 \<Rightarrow> plan \<Rightarrow> bool"

record signal_sys =
  sy_Version :: uint64
  sy_Store :: signal_store
  sy_Plan :: "plan option"

text \<open>Go's \<open>%d\<close>.\<close>

fun decimal :: "nat \<Rightarrow> string" where
  "decimal n = (if n < 10 then [char_of (48 + n)] else decimal (n div 10) @ [char_of (48 + n mod 10)])"

declare decimal.simps [simp del]

definition EndBlocker_upgrade ::
  "signal_env \<Rightarrow> upgrade_keeper \<Rightarrow> ctx \<Rightarrow> signal_sys \<Rightarrow> signal_err + signal_sys" where
  "EndBlocker_upgrade S U c y =
     rbind (ShouldUpgrade S c (sy_Store y)) (\<lambda>shouldUpgrade.
     case shouldUpgrade of
       None \<Rightarrow> Inr y
     | Some u \<Rightarrow>
         if sy_Version y < AppVersion u then
           let upgradeHeight = UpgradeHeight u + 1;
               plan = \<lparr>plan_Name = ''v'' @ decimal (unat (AppVersion u)), plan_Height = upgradeHeight\<rparr> in
           rbind (require (ScheduleUpgrade U c plan) ErrScheduleUpgrade) (\<lambda>_.
           rbind (require (DumpUpgradeInfoToDisk U upgradeHeight plan) ErrDumpUpgradeInfo) (\<lambda>_.
           Inr \<lparr>sy_Version = AppVersion u, sy_Store = ResetTally (sy_Store y), sy_Plan = Some plan\<rparr>))
         else Inr y)"

section \<open>The system\<close>

text \<open>One step of the chain, as far as upgrades are concerned: a delivered message or the end of a block. The
  staking state is whatever it is at that moment.\<close>

inductive signal_step ::
  "signal_env \<Rightarrow> dec_ops \<Rightarrow> upgrade_keeper \<Rightarrow> (staking_view \<Rightarrow> bool) \<Rightarrow> signal_sys \<Rightarrow> signal_sys \<Rightarrow> bool"
  for S D U good where
  signal: "good V \<Longrightarrow> SignalVersion S V (sy_Version y) m (sy_Store y) = Inr (s', ev) \<Longrightarrow>
    signal_step S D U good y (y\<lparr>sy_Store := s'\<rparr>)"
| try_upgrade: "good V \<Longrightarrow> TryUpgrade S D V c (sy_Version y) signer (sy_Store y) = Inr (s', ev) \<Longrightarrow>
    signal_step S D U good y (y\<lparr>sy_Store := s'\<rparr>)"
| end_block: "EndBlocker_upgrade S U c y = Inr y' \<Longrightarrow> signal_step S D U good y y'"

inductive_cases signal_stepE: "signal_step S D U good y y'"

end
