(* ===== verification/SignalQuorum.thy ===== *)
theory SignalQuorum
  imports Signal
begin

text \<open>
  Upgrades by quorum: a tally counts the bonded power behind a version, an upgrade is scheduled exactly when five
  sixths of the power ask for it, and a scheduled upgrade cannot be changed.
\<close>

section \<open>Tallies count bonded power\<close>

text \<open>The power a store entry counts for, and the power signalled for a version.\<close>

definition entry_power :: "staking_view \<Rightarrow> bytes \<Rightarrow> int" where
  "entry_power V a =
     (if a = UpgradeKey then 0
      else case GetValidator V a of
        FoundValidator val \<Rightarrow>
          if val_IsBonded val then (case GetLastValidatorPower V a of Some p \<Rightarrow> sint p | None \<Rightarrow> 0) else 0
      | _ \<Rightarrow> 0)"

definition votes :: "staking_view \<Rightarrow> (bytes \<times> bytes) list \<Rightarrow> uint64 \<Rightarrow> int" where
  "votes V es v = (\<Sum>e\<leftarrow>es. if VersionFromBytes (snd e) = v then entry_power V (fst e) else 0)"

definition signalled_power :: "staking_view \<Rightarrow> signal_store \<Rightarrow> uint64 \<Rightarrow> int" where
  "signalled_power V s v = votes V (signal_entries s) v"

text \<open>CometBFT bounds the powers: they are not negative, and their sum fits a signed 64-bit integer.\<close>

definition powers_ok :: "staking_view \<Rightarrow> (bytes \<times> bytes) list \<Rightarrow> bool" where
  "powers_ok V es \<longleftrightarrow> (\<forall>e\<in>set es. 0 \<le> entry_power V (fst e)) \<and> (\<Sum>e\<leftarrow>es. entry_power V (fst e)) < 2 ^ 63"

definition tallied :: "(uint64 \<Rightarrow> int64 option) \<Rightarrow> uint64 \<Rightarrow> int" where
  "tallied m v = (case m v of None \<Rightarrow> 0 | Some p \<Rightarrow> sint p)"

lemma votes_Cons: "votes V ((a, b) # es) v = (if VersionFromBytes b = v then entry_power V a else 0) + votes V es v"
  by (simp add: votes_def)

lemma votes_nonneg: "\<forall>e\<in>set es. 0 \<le> entry_power V (fst e) \<Longrightarrow> 0 \<le> votes V es v"
  unfolding votes_def by (rule sum_list_nonneg) auto

lemma votes_two_versions:
  assumes "\<forall>e\<in>set es. 0 \<le> entry_power V (fst e)" and "v \<noteq> w"
  shows "votes V es v + votes V es w \<le> (\<Sum>e\<leftarrow>es. entry_power V (fst e))"
  using assms by (induction es) (auto simp: votes_def)

lemma tallied_add:
  assumes "0 \<le> tallied m v" and "tallied m v + sint p < 2 ^ 63" and "0 \<le> sint p"
  shows "sint (case m v of None \<Rightarrow> p | Some q \<Rightarrow> q + p) = tallied m v + sint p"
proof (cases "m v")
  case (Some q)
  then show ?thesis using assms by (simp add: tallied_def sint_add_exact i64_range_def)
qed (simp add: tallied_def)

lemma tally_power_votes:
  assumes "tally_power V t es m s = Inr ((q, v), s')"
    and "\<forall>e\<in>set es. 0 \<le> entry_power V (fst e)"
    and "\<And>w. 0 \<le> tallied m w \<and> tallied m w + (\<Sum>e\<leftarrow>es. entry_power V (fst e)) < 2 ^ 63"
  shows "(q \<longrightarrow> sint t \<le> tallied m v + votes V es v) \<and>
    (\<not> q \<longrightarrow> (\<forall>w. tallied m w < sint t) \<longrightarrow> (\<forall>w. tallied m w + votes V es w < sint t))"
  using assms
proof (induction V t es m s rule: tally_power.induct)
  case (1 V t m s)
  then show ?case by (simp add: votes_def)
next
  case (2 V t a b es m s)
  let ?rest = "\<Sum>e\<leftarrow>es. entry_power V (fst e)"
  have nn: "0 \<le> entry_power V a" "\<forall>e\<in>set es. 0 \<le> entry_power V (fst e)" using "2.prems"(2) by auto
  have rest: "0 \<le> ?rest" using nn(2) by (intro sum_list_nonneg) auto
  have bound: "0 \<le> tallied m w" "tallied m w + (entry_power V a + ?rest) < 2 ^ 63" for w
    using "2.prems"(3) [of w] by simp_all
  have skip: "0 \<le> tallied m w \<and> tallied m w + ?rest < 2 ^ 63" for w
    using bound [of w] nn(1) by linarith
  show ?case
  proof (cases "a \<noteq> UpgradeKey \<and> (\<exists>val. GetValidator V a = FoundValidator val \<and> val_IsBonded val)")
    case False
    then have zero: "entry_power V a = 0" by (auto simp: entry_power_def split: staking_lookup.splits)
    have "\<exists>s0. tally_power V t es m s0 = Inr ((q, v), s')"
      using "2.prems"(1) False by (auto split: if_splits staking_lookup.splits)
    then show ?thesis
      using "2.IH"(1,2,3) "2.prems"(1) False nn(2) skip zero
      by (auto simp: votes_Cons split: if_splits staking_lookup.splits)
  next
    case True
    then obtain val where val: "a \<noteq> UpgradeKey" "GetValidator V a = FoundValidator val" "val_IsBonded val" by blast
    then obtain p where p: "GetLastValidatorPower V a = Some p"
      using "2.prems"(1) by (cases "GetLastValidatorPower V a") auto
    have ep: "entry_power V a = sint p" using val p by (simp add: entry_power_def)
    define ver where "ver = VersionFromBytes b"
    define new where "new = (case m ver of None \<Rightarrow> p | Some q \<Rightarrow> q + p)"
    have run: "(if sint t \<le> sint new then Inr ((True, ver), s)
        else tally_power V t es (m(ver \<mapsto> new)) s) = Inr ((q, v), s')"
      using "2.prems"(1) val p unfolding ver_def new_def by (simp add: Let_def split del: if_split)
    have new: "sint new = tallied m ver + sint p"
      unfolding new_def using bound [of ver] nn(1) rest ep by (intro tallied_add) linarith+
    have upd: "tallied (m(ver \<mapsto> new)) w = (if w = ver then tallied m ver + sint p else tallied m w)" for w
      using new by (simp add: tallied_def)
    show ?thesis
    proof (cases "sint t \<le> sint new")
      case True
      then have "q" "v = ver" using run by auto
      then show ?thesis
        using True new ep votes_nonneg [OF nn(2), of ver] by (simp add: votes_Cons ver_def)
    next
      case False
      then have "tally_power V t es (m(ver \<mapsto> new)) s = Inr ((q, v), s')" using run by simp
      moreover have "0 \<le> tallied (m(ver \<mapsto> new)) w \<and> tallied (m(ver \<mapsto> new)) w + ?rest < 2 ^ 63" for w
        using bound [of w] bound [of ver] skip [of w] nn(1) ep upd [of w] by simp
      ultimately have IH: "(q \<longrightarrow> sint t \<le> tallied (m(ver \<mapsto> new)) v + votes V es v) \<and>
          (\<not> q \<longrightarrow> (\<forall>w. tallied (m(ver \<mapsto> new)) w < sint t) \<longrightarrow>
            (\<forall>w. tallied (m(ver \<mapsto> new)) w + votes V es w < sint t))"
        using "2.IH"(4) [OF val(1,2) _ ver_def new_def] val(3) False nn(2) by blast
      show ?thesis
        using IH False new ep unfolding upd by (auto simp: votes_Cons ver_def split: if_splits)
    qed
  qed
qed

section \<open>The threshold\<close>

lemma five_sixths:
  assumes "dec_laws D"
  shows "Threshold D app = Some 833333333333333333"
proof -
  obtain r where r: "dec_Quo D (5 * dec_one) (6 * dec_one) = Some r"
    "2 * \<bar>r * (6 * dec_one) - 5 * dec_one * dec_one\<bar> \<le> \<bar>6 * dec_one\<bar>"
    by (rule dec_QuoD [OF assms, of "6 * dec_one" "5 * dec_one"]) (simp_all add: dec_fits_def)
  have "r = 833333333333333333" using r(2) by simp
  then show ?thesis using r(1) assms by (simp add: Threshold_def defaultSignalThreshold_def)
qed

lemma threshold_exact:
  assumes D: "dec_laws D" and P: "GetLastTotalPower V = Some P" "0 \<le> P" "P < 5 * 10 ^ 17"
  shows "GetVotingPowerThreshold D V app = Inr ((5 * P + 5) div 6)"
proof -
  let ?r = "833333333333333333 :: int" and ?c = "(5 * P + 5) div 6"
  have "dec_fits (?r * P)" using P(2,3) by (simp add: dec_fits_def abs_mult)
  then have mul: "dec_MulInt D ?r P = Some (?r * P)" using D by simp
  have c: "5 * P \<le> 6 * ?c" "6 * ?c \<le> 5 * P + 5" by linarith+
  have "- ((- (?r * P)) div dec_one) = ?c"
    using ceil_to_int_bounds [of "?r * P"] c P(2,3) by simp
  then have "dec_TruncateInt D (dec_Ceil D (?r * P)) = ?c"
    using ceil_to_int [of "?r * P"] D P(2) by simp
  then show ?thesis
    using five_sixths [OF D] P(1) mul by (simp add: GetVotingPowerThreshold_def)
qed

section \<open>What a tally does to the store\<close>

lemma tally_power_store:
  assumes "tally_power V t es m s = Inr (r, s')" and "kv_ok s"
  shows "kv_ok s' \<and> kv_get s' UpgradeKey = kv_get s UpgradeKey"
  using assms
  by (induction V t es m s rule: tally_power.induct)
    (auto simp: Let_def DeleteValidatorVersion_def split: if_splits staking_lookup.splits option.splits)

definition codec_laws :: "signal_env \<Rightarrow> bool" where
  "codec_laws S \<longleftrightarrow> (\<forall>u. unmarshal_Upgrade S (marshal_Upgrade S u) = Some u)"

lemma getUpgrade_set [simp]:
  "codec_laws S \<Longrightarrow> kv_ok s \<Longrightarrow> getUpgrade S (setUpgrade S s u) = Inr (Some u)"
  by (simp add: getUpgrade_def setUpgrade_def codec_laws_def)

lemma getUpgrade_cong: "kv_get s' UpgradeKey = kv_get s UpgradeKey \<Longrightarrow> getUpgrade S s' = getUpgrade S s"
  by (simp add: getUpgrade_def)

lemma IsUpgradePending_iff:
  "IsUpgradePending S s = Inr False \<longleftrightarrow> getUpgrade S s = Inr None"
  "IsUpgradePending S s = Inr True \<longleftrightarrow> (\<exists>u. getUpgrade S s = Inr (Some u))"
  by (auto simp: IsUpgradePending_def)

lemma TryUpgrade_Inr:
  assumes "TryUpgrade S D V c app signer s = Inr (s', ev)"
  obtains threshold t64 q v s1 where "getUpgrade S s = Inr None"
    and "GetVotingPowerThreshold D V app = Inr threshold" and "Int_Int64 threshold = Some t64"
    and "TallyVotingPower V s t64 = Inr ((q, v), s1)"
    and "q \<Longrightarrow> app < v \<and> s' = setUpgrade S s1 \<lparr>AppVersion = v,
           UpgradeHeight = BlockHeight c + GetUpgradeHeightDelay (ChainID c)\<rparr>"
    and "\<not> q \<Longrightarrow> s' = s1"
proof -
  obtain threshold t64 q v s1 where *: "getUpgrade S s = Inr None"
    "GetVotingPowerThreshold D V app = Inr threshold" "Int_Int64 threshold = Some t64"
    "TallyVotingPower V s t64 = Inr ((q, v), s1)"
    "(if q then rbind (require (app < v) ErrInvalidUpgradeVersion) (\<lambda>_. Inr (setUpgrade S s1 \<lparr>AppVersion = v,
        UpgradeHeight = BlockHeight c + GetUpgradeHeightDelay (ChainID c)\<rparr>, [EvTryUpgrade signer]))
      else Inr (s1, [EvTryUpgrade signer])) = Inr (s', ev)"
    using assms unfolding TryUpgrade_def by (auto simp: IsUpgradePending_iff split del: if_split)
  show thesis by (rule that [OF *(1-4)]) (use *(5) in auto)
qed

lemma Int_Int64_Some: "Int_Int64 n = Some w \<Longrightarrow> sint w = n"
  by (auto simp: Int_Int64_def sint_i64 split: if_splits)

text \<open>C24: A successful TryUpgrade schedules an upgrade exactly when some version was signalled by five sixths of the
  total voting power, counting bonded validators only: the scheduled version is newer than the current one and
  has that share, its height is the current one plus the network's delay; when nothing is scheduled, no version
  has the share. The exact integer comparison holds although the code computes with 18-digit decimals.\<close>

theorem try_upgrade_five_sixths:
  assumes D: "dec_laws D" and S: "codec_laws S" and s: "kv_ok s"
    and P: "GetLastTotalPower V = Some P" "0 < P" "P < 5 * 10 ^ 17"
    and pw: "powers_ok V (signal_entries s)"
    and run: "TryUpgrade S D V c app signer s = Inr (s', ev)"
  shows "case getUpgrade S s' of
      Inl e \<Rightarrow> False
    | Inr None \<Rightarrow> \<forall>v. 6 * signalled_power V s v < 5 * P
    | Inr (Some u) \<Rightarrow> app < AppVersion u \<and> 5 * P \<le> 6 * signalled_power V s (AppVersion u) \<and>
        UpgradeHeight u = BlockHeight c + GetUpgradeHeightDelay (ChainID c)"
proof -
  have "0 \<le> P" using P(2) by simp
  note thr = threshold_exact [OF D P(1) this P(3), of app]
  obtain t64 q v s1 where none: "getUpgrade S s = Inr None" and t: "Int_Int64 ((5 * P + 5) div 6) = Some t64"
    and tally: "TallyVotingPower V s t64 = Inr ((q, v), s1)"
    and yes: "q \<Longrightarrow> app < v \<and> s' = setUpgrade S s1 \<lparr>AppVersion = v,
           UpgradeHeight = BlockHeight c + GetUpgradeHeightDelay (ChainID c)\<rparr>"
    and no: "\<not> q \<Longrightarrow> s' = s1"
    using run thr by (elim TryUpgrade_Inr) auto
  have t64: "sint t64 = (5 * P + 5) div 6" using t by (rule Int_Int64_Some)
  have run': "tally_power V t64 (signal_entries s) Map.empty s = Inr ((q, v), s1)"
    using tally by (simp add: TallyVotingPower_def)
  have V: "(q \<longrightarrow> sint t64 \<le> votes V (signal_entries s) v) \<and>
      (\<not> q \<longrightarrow> (\<forall>w. votes V (signal_entries s) w < sint t64))"
    using tally_power_votes [OF run'] pw P(2) t64 by (simp add: powers_ok_def tallied_def)
  have s1: "kv_ok s1" "getUpgrade S s1 = Inr None"
    using tally_power_store [OF run' s] getUpgrade_cong none by metis+
  show ?thesis
  proof (cases q)
    case True
    have "5 * P \<le> 6 * signalled_power V s v" using V True t64 unfolding signalled_power_def by simp
    then show ?thesis using yes [OF True] S s1(1) by simp
  next
    case False
    have "6 * signalled_power V s w < 5 * P" for w
    proof -
      have "signalled_power V s w < (5 * P + 5) div 6" using V False t64 by (simp add: signalled_power_def)
      then show ?thesis by linarith
    qed
    then show ?thesis using no [OF False] s1(2) by simp
  qed
qed

section \<open>A quorum is always found\<close>

definition lookups_ok :: "staking_view \<Rightarrow> (bytes \<times> bytes) list \<Rightarrow> bool" where
  "lookups_ok V es \<longleftrightarrow> (\<forall>e\<in>set es. GetValidator V (fst e) \<noteq> StakingError \<and> GetLastValidatorPower V (fst e) \<noteq> None)"

lemma tally_power_returns:
  assumes "lookups_ok V es"
  shows "\<exists>q v s'. tally_power V t es m s = Inr ((q, v), s')"
  using assms
proof (induction es arbitrary: m s)
  case (Cons e es)
  obtain a b where e: "e = (a, b)" by force
  have IH: "\<exists>q v s'. tally_power V t es m s = Inr ((q, v), s')" for m s
    using Cons by (simp add: lookups_ok_def)
  obtain p where "GetLastValidatorPower V a = Some p" "GetValidator V a \<noteq> StakingError"
    using Cons.prems e by (auto simp: lookups_ok_def)
  then show ?case using IH unfolding e by (cases "GetValidator V a") (auto simp: Let_def simp del: rbind_Inr_iff)
qed auto

lemma quorum_schedules:
  assumes D: "dec_laws D" and S: "codec_laws S" and s: "kv_ok s"
    and P: "GetLastTotalPower V = Some P" "0 < P" "P < 5 * 10 ^ 17"
    and pw: "powers_ok V (signal_entries s)" and total: "(\<Sum>e\<leftarrow>signal_entries s. entry_power V (fst e)) \<le> P"
    and look: "lookups_ok V (signal_entries s)" and none: "getUpgrade S s = Inr None"
    and v: "app < v" "5 * P \<le> 6 * signalled_power V s v"
  shows "\<exists>s' ev. TryUpgrade S D V c app signer s = Inr (s', ev) \<and>
    getUpgrade S s' = Inr (Some \<lparr>AppVersion = v, UpgradeHeight = BlockHeight c + GetUpgradeHeightDelay (ChainID c)\<rparr>)"
proof -
  have "0 \<le> P" using P(2) by simp
  note thr = threshold_exact [OF D P(1) this P(3), of app]
  let ?t = "(5 * P + 5) div 6"
  have "0 \<le> ?t" "?t \<le> 5 * P + 5" using P(2) int_div_le_self [of "5 * P + 5" 6] by simp_all
  then have "i64_range ?t" using P(2,3) by (simp add: i64_range_def)
  then obtain t64 where t64: "Int_Int64 ?t = Some t64" "sint t64 = ?t" by (simp add: Int_Int64_def sint_i64)
  obtain q w s1 where run: "tally_power V t64 (signal_entries s) Map.empty s = Inr ((q, w), s1)"
    using tally_power_returns [OF look] by blast
  have nn: "\<forall>e\<in>set (signal_entries s). 0 \<le> entry_power V (fst e)" using pw by (simp add: powers_ok_def)
  have V: "(q \<longrightarrow> ?t \<le> votes V (signal_entries s) w) \<and> (\<not> q \<longrightarrow> (\<forall>w. votes V (signal_entries s) w < ?t))"
    using tally_power_votes [OF run nn] pw P(2) t64(2) by (simp add: powers_ok_def tallied_def)
  have vt: "?t \<le> votes V (signal_entries s) v" using v(2) unfolding signalled_power_def by linarith
  then have q: q using V by (meson not_le)
  then have wt: "?t \<le> votes V (signal_entries s) w" using V by simp
  have "w = v"
  proof (rule ccontr)
    assume "w \<noteq> v"
    then have "votes V (signal_entries s) w + votes V (signal_entries s) v \<le> P"
      using votes_two_versions [OF nn] total by (meson order_trans)
    then show False using vt wt P(2) by linarith
  qed
  have pend: "IsUpgradePending S s = Inr False" using none by (simp add: IsUpgradePending_iff)
  have "TryUpgrade S D V c app signer s = Inr (setUpgrade S s1 \<lparr>AppVersion = v,
      UpgradeHeight = BlockHeight c + GetUpgradeHeightDelay (ChainID c)\<rparr>, [EvTryUpgrade signer])"
    using pend thr t64(1) run q \<open>w = v\<close> v(1) by (simp add: TryUpgrade_def TallyVotingPower_def)
  moreover have "kv_ok s1" using tally_power_store [OF run s] by simp
  ultimately show ?thesis using S by simp
qed

text \<open>C25: When a newer version has been signalled by five sixths of the power and no upgrade is pending, TryUpgrade
  succeeds and schedules that version, whatever else has been signalled.\<close>

theorem quorum_schedules_upgrade:
  assumes D: "dec_laws D" and S: "codec_laws S" and s: "kv_ok s"
    and P: "GetLastTotalPower V = Some P" "0 < P" "P < 5 * 10 ^ 17"
    and pw: "powers_ok V (signal_entries s)" and total: "(\<Sum>e\<leftarrow>signal_entries s. entry_power V (fst e)) \<le> P"
    and look: "lookups_ok V (signal_entries s)" and none: "getUpgrade S s = Inr None"
    and v: "app < v" "5 * P \<le> 6 * signalled_power V s v"
  shows "\<exists>s' ev. TryUpgrade S D V c app signer s = Inr (s', ev) \<and>
    getUpgrade S s' = Inr (Some \<lparr>AppVersion = v, UpgradeHeight = BlockHeight c + GetUpgradeHeightDelay (ChainID c)\<rparr>)"
  by (rule quorum_schedules [OF assms])

section \<open>Versions along a run\<close>

lemma fold_del_get: "kv_get (fold kv_del ks s) k = (if k \<in> set ks then None else kv_get s k)"
  by (induction ks arbitrary: s) auto

lemma ResetTally_empty [simp]: "ResetTally s = []"
proof -
  have "kv_get (ResetTally s) k = None" for k
    by (simp add: ResetTally_def fold_del_get map_of_eq_None_iff)
  then show ?thesis by (cases "ResetTally s") (auto, metis map_of_Cons_code(2) option.distinct(1) surj_pair)
qed

text \<open>Staking keys its validators by 20-byte addresses.\<close>

definition staking_ok :: "staking_view \<Rightarrow> bool" where
  "staking_ok V \<longleftrightarrow> (\<forall>a val. GetValidator V a = FoundValidator val \<longrightarrow> length a = 20)"

definition signal_inv :: "signal_env \<Rightarrow> signal_sys \<Rightarrow> bool" where
  "signal_inv S y \<longleftrightarrow> kv_ok (sy_Store y) \<and>
     (case getUpgrade S (sy_Store y) of
        Inl _ \<Rightarrow> False | Inr None \<Rightarrow> True | Inr (Some u) \<Rightarrow> sy_Version y < AppVersion u)"

definition signal_init :: "signal_sys \<Rightarrow> bool" where
  "signal_init y \<longleftrightarrow> sy_Store y = [] \<and> sy_Plan y = None"

lemma SignalVersion_Inr:
  assumes "SignalVersion S V app m s = Inr (s', ev)"
  obtains a val where "getUpgrade S s = Inr None" and "GetValidator V a = FoundValidator val" and "app \<le> sv_Version m"
    and "ValAddressFromBech32 S (sv_ValidatorAddress m) = Some a" and "s' = SetValidatorVersion s a (sv_Version m)"
proof -
  obtain a where *: "getUpgrade S s = Inr None" "ValAddressFromBech32 S (sv_ValidatorAddress m) = Some a"
    "app \<le> sv_Version m" "s' = SetValidatorVersion s a (sv_Version m)"
    "(case GetValidator V a of FoundValidator _ \<Rightarrow> Inr () | _ \<Rightarrow> Inl ErrGetValidator) = Inr ()"
    using assms unfolding SignalVersion_def by (auto simp: IsUpgradePending_iff)
  then obtain val where "GetValidator V a = FoundValidator val" by (cases "GetValidator V a") auto
  then show thesis by (rule that [OF *(1) _ *(3,2,4)])
qed

lemma getUpgrade_signal:
  assumes "length a = 20" and "kv_ok s"
  shows "getUpgrade S (SetValidatorVersion s a v) = getUpgrade S s" and "kv_ok (SetValidatorVersion s a v)"
  using assms by (auto simp: SetValidatorVersion_def getUpgrade_def UpgradeKey_def)

lemma EndBlocker_Inr:
  assumes "EndBlocker_upgrade S U c y = Inr y'"
  shows "y' = y \<or> (\<exists>u. getUpgrade S (sy_Store y) = Inr (Some u) \<and> sint (UpgradeHeight u) \<le> sint (BlockHeight c) \<and>
    sy_Version y < AppVersion u \<and> sy_Version y' = AppVersion u \<and> sy_Store y' = [])"
proof (cases "getUpgrade S (sy_Store y)")
  case (Inl e)
  then show ?thesis using assms by (simp add: EndBlocker_upgrade_def ShouldUpgrade_def)
next
  case (Inr w)
  show ?thesis
  proof (cases w)
    case None
    then show ?thesis using assms Inr by (simp add: EndBlocker_upgrade_def ShouldUpgrade_def)
  next
    case (Some u)
    then show ?thesis
      using assms Inr by (auto simp: EndBlocker_upgrade_def ShouldUpgrade_def Let_def split: if_splits)
  qed
qed

lemma signal_step_inv:
  assumes step: "signal_step S D U staking_ok y y'" and S: "codec_laws S" and inv: "signal_inv S y"
  shows "signal_inv S y'"
  using step
proof (cases rule: signal_step.cases)
  case (signal V m s' ev)
  then obtain a val where "getUpgrade S (sy_Store y) = Inr None" "length a = 20"
    "s' = SetValidatorVersion (sy_Store y) a (sv_Version m)"
    by (elim SignalVersion_Inr) (auto simp: staking_ok_def)
  then show ?thesis using inv signal(1) by (simp add: signal_inv_def getUpgrade_signal)
next
  case (try_upgrade V c signer s' ev)
  show ?thesis
  proof (rule TryUpgrade_Inr [OF try_upgrade(3)])
    fix threshold t64 q v s1
    assume none: "getUpgrade S (sy_Store y) = Inr None" and tally: "TallyVotingPower V (sy_Store y) t64 = Inr ((q, v), s1)"
      and yes: "q \<Longrightarrow> sy_Version y < v \<and> s' = setUpgrade S s1 \<lparr>AppVersion = v,
           UpgradeHeight = BlockHeight c + GetUpgradeHeightDelay (ChainID c)\<rparr>"
      and no: "\<not> q \<Longrightarrow> s' = s1"
    have s1: "kv_ok s1" "getUpgrade S s1 = Inr None"
      using tally_power_store [OF tally [unfolded TallyVotingPower_def]] getUpgrade_cong none inv
      by (auto simp: signal_inv_def getUpgrade_def)
    then show ?thesis
    proof (cases q)
      case True
      then show ?thesis using yes [OF True] s1 S try_upgrade(1) by (simp add: signal_inv_def setUpgrade_def) (simp add: getUpgrade_def codec_laws_def)
    next
      case False
      then show ?thesis using no [OF False] s1 try_upgrade(1) by (simp add: signal_inv_def)
    qed
  qed
next
  case (end_block c)
  then show ?thesis using EndBlocker_Inr [OF end_block] inv by (auto simp: signal_inv_def getUpgrade_def)
qed

interpretation signal_chain: step_invariant signal_init "signal_step S D U staking_ok"
  "\<lambda>y. codec_laws S \<longrightarrow> signal_inv S y" for S D U
proof unfold_locales
  show "codec_laws S \<longrightarrow> signal_inv S y" if "signal_init y" for y
    using that by (simp add: signal_init_def signal_inv_def getUpgrade_def)
  show "codec_laws S \<longrightarrow> signal_inv S y'"
    if "signal_step S D U staking_ok y y'" "codec_laws S \<longrightarrow> signal_inv S y" for y y'
    using that signal_step_inv by blast
qed

text \<open>C26: In every reachable state the stored upgrade, if any, decodes and is newer than the running version; and a
  pending upgrade freezes the module: signalling and tallying are refused, and the end of a block either leaves the
  state alone or, from the scheduled height on, installs exactly the scheduled version and clears all signals.\<close>

theorem pending_upgrade_is_final:
  assumes reach: "reach signal_init (signal_step S D U staking_ok) y" and S: "codec_laws S"
    and u: "getUpgrade S (sy_Store y) = Inr (Some u)"
  shows "sy_Version y < AppVersion u \<and>
    SignalVersion S V app m (sy_Store y) = Inl ErrUpgradePending \<and>
    TryUpgrade S D V c app signer (sy_Store y) = Inl ErrUpgradePending \<and>
    (sint (BlockHeight c) < sint (UpgradeHeight u) \<longrightarrow> EndBlocker_upgrade S U c y = Inr y) \<and>
    (sint (UpgradeHeight u) \<le> sint (BlockHeight c) \<longrightarrow>
       (\<forall>y'. EndBlocker_upgrade S U c y = Inr y' \<longrightarrow> sy_Version y' = AppVersion u \<and> sy_Store y' = []))"
proof (intro conjI impI allI)
  have inv: "signal_inv S y" using signal_chain.reach_inv [OF reach] S by simp
  show v: "sy_Version y < AppVersion u" using inv u by (simp add: signal_inv_def)
  have pend: "IsUpgradePending S (sy_Store y) = Inr True" using u by (simp add: IsUpgradePending_iff)
  show "SignalVersion S V app m (sy_Store y) = Inl ErrUpgradePending" by (simp add: SignalVersion_def pend)
  show "TryUpgrade S D V c app signer (sy_Store y) = Inl ErrUpgradePending" by (simp add: TryUpgrade_def pend)
  show "EndBlocker_upgrade S U c y = Inr y" if "sint (BlockHeight c) < sint (UpgradeHeight u)"
    using that u by (simp add: EndBlocker_upgrade_def ShouldUpgrade_def)
  fix y' assume h: "sint (UpgradeHeight u) \<le> sint (BlockHeight c)" and "EndBlocker_upgrade S U c y = Inr y'"
  then show "sy_Version y' = AppVersion u" "sy_Store y' = []"
    using u v by (auto simp: EndBlocker_upgrade_def ShouldUpgrade_def Let_def)
qed

lemma VersionFromBytes_ToBytes: "VersionFromBytes (VersionToBytes v) = v"
proof -
  have "unat v < 2 ^ 64" using unsigned_less [of v, where ?'a = nat] by simp
  then show ?thesis by (simp add: VersionFromBytes_def VersionToBytes_def be_nat_be_bytes)
qed

section \<open>A concrete run\<close>

definition ref_signal :: signal_env where
  "ref_signal = \<lparr>
     ValAddressFromBech32 = (\<lambda>s. if length s = 20 then Some (chars_bytes s) else None),
     marshal_Upgrade = (\<lambda>u. be_bytes 8 (unat (AppVersion u)) @ be_bytes 8 (unat (UpgradeHeight u))),
     unmarshal_Upgrade = (\<lambda>bz. Some \<lparr>AppVersion = of_nat (be_nat (take 8 bz)),
        UpgradeHeight = of_nat (be_nat (drop 8 bz))\<rparr>)\<rparr>"

lemma ref_signal_codec: "codec_laws ref_signal"
proof -
  have "unat v < 2 ^ 64" for v :: uint64 using unsigned_less [of v, where ?'a = nat] by simp
  then show ?thesis by (simp add: codec_laws_def ref_signal_def be_nat_be_bytes)
qed

definition ref_val_addr :: bytes where
  "ref_val_addr = replicate 20 97"

definition ref_staking :: staking_view where
  "ref_staking = \<lparr>
     GetLastValidatorPower = (\<lambda>a. Some (if a = ref_val_addr then 6 else 0)),
     GetLastTotalPower = Some 6,
     GetValidator = (\<lambda>a. if a = ref_val_addr
        then FoundValidator \<lparr>val_IsBonded = True, val_GetOperator = replicate 20 CHR ''a'', val_GetMoniker = ''m''\<rparr>
        else NoValidatorFound),
     IterateValidators = Some []\<rparr>"

definition ref_signals :: signal_store where
  "ref_signals = [(ref_val_addr, VersionToBytes 11)]"

definition ref_up_ctx :: ctx where
  "ref_up_ctx = \<lparr>ChainID = ''test'', BlockTime = 0, BlockHeight = 5\<rparr>"

lemma ref_addr_key: "ref_val_addr \<noteq> UpgradeKey" "FirstSignalKey \<le> ref_val_addr" "length ref_val_addr = 20"
  by (simp_all add: ref_val_addr_def UpgradeKey_def FirstSignalKey_def numeral_eq_Suc)

lemma ref_entries [simp]: "signal_entries ref_signals = ref_signals"
  using ref_addr_key by (simp add: signal_entries_def ref_signals_def)

lemma ref_entry_power [simp]: "entry_power ref_staking ref_val_addr = 6"
  using ref_addr_key by (simp add: entry_power_def ref_staking_def)

lemma ref_signalled [simp]: "signalled_power ref_staking ref_signals 11 = 6"
  by (simp add: signalled_power_def votes_def) (simp add: ref_signals_def VersionFromBytes_ToBytes)

lemma ref_signal_facts:
  "kv_ok ref_signals" "GetLastTotalPower ref_staking = Some 6" "powers_ok ref_staking (signal_entries ref_signals)"
  "(\<Sum>e\<leftarrow>signal_entries ref_signals. entry_power ref_staking (fst e)) \<le> 6"
  "lookups_ok ref_staking (signal_entries ref_signals)" "getUpgrade ref_signal ref_signals = Inr None"
proof -
  show "kv_ok ref_signals" by (simp add: ref_signals_def kv_ok_def)
  show "GetLastTotalPower ref_staking = Some 6" by (simp add: ref_staking_def)
  show "powers_ok ref_staking (signal_entries ref_signals)" unfolding ref_entries by (simp add: powers_ok_def ref_signals_def)
  show "(\<Sum>e\<leftarrow>signal_entries ref_signals. entry_power ref_staking (fst e)) \<le> 6" unfolding ref_entries by (simp add: ref_signals_def)
  show "lookups_ok ref_staking (signal_entries ref_signals)"
    unfolding ref_entries by (simp add: lookups_ok_def ref_signals_def ref_staking_def)
  show "getUpgrade ref_signal ref_signals = Inr None" using ref_addr_key by (simp add: getUpgrade_def ref_signals_def)
qed

lemma ref_upgrade:
  "\<exists>s' ev. TryUpgrade ref_signal ref_dec ref_staking ref_up_ctx 10 ''x'' ref_signals = Inr (s', ev) \<and>
    getUpgrade ref_signal s' = Inr (Some \<lparr>AppVersion = 11, UpgradeHeight = 8\<rparr>)"
  using quorum_schedules [OF ref_dec_laws ref_signal_codec ref_signal_facts(1,2) _ _ ref_signal_facts(3-6),
      of 10 11 ref_up_ctx "''x''"]
  by (simp add: ref_up_ctx_def GetUpgradeHeightDelay_def)

theorem quorum_schedules_upgrade_witness:
  "\<exists>s' ev. TryUpgrade ref_signal ref_dec ref_staking ref_up_ctx 10 ''x'' ref_signals = Inr (s', ev) \<and>
    getUpgrade ref_signal s' = Inr (Some \<lparr>AppVersion = 11, UpgradeHeight = 8\<rparr>)"
  using quorum_schedules_upgrade [OF ref_dec_laws ref_signal_codec ref_signal_facts(1,2) _ _ ref_signal_facts(3-6),
      of 10 11 ref_up_ctx "''x''"]
  by (simp add: ref_up_ctx_def GetUpgradeHeightDelay_def)

theorem try_upgrade_five_sixths_witness:
  "\<exists>s' ev u. TryUpgrade ref_signal ref_dec ref_staking ref_up_ctx 10 ''x'' ref_signals = Inr (s', ev) \<and>
    getUpgrade ref_signal s' = Inr (Some u) \<and> 10 < AppVersion u \<and>
    30 \<le> 6 * signalled_power ref_staking ref_signals (AppVersion u)"
proof -
  obtain s' ev where run: "TryUpgrade ref_signal ref_dec ref_staking ref_up_ctx 10 ''x'' ref_signals = Inr (s', ev)"
    and u: "getUpgrade ref_signal s' = Inr (Some \<lparr>AppVersion = 11, UpgradeHeight = 8\<rparr>)"
    using ref_upgrade by blast
  show ?thesis
    using try_upgrade_five_sixths [OF ref_dec_laws ref_signal_codec ref_signal_facts(1,2) _ _ ref_signal_facts(3) run]
      run u by auto
qed

definition ref_upgrade_keeper :: upgrade_keeper where
  "ref_upgrade_keeper = \<lparr>ScheduleUpgrade = (\<lambda>_ _. True), DumpUpgradeInfoToDisk = (\<lambda>_ _. True)\<rparr>"

lemma ref_staking_ok: "staking_ok ref_staking"
  using ref_addr_key by (simp add: staking_ok_def ref_staking_def)

lemma ref_signal_reach:
  "reach signal_init (signal_step ref_signal ref_dec ref_upgrade_keeper staking_ok)
    \<lparr>sy_Version = 10, sy_Store = ref_signals, sy_Plan = None\<rparr>"
proof (rule reach_step)
  show "reach signal_init (signal_step ref_signal ref_dec ref_upgrade_keeper staking_ok)
      \<lparr>sy_Version = 10, sy_Store = [], sy_Plan = None\<rparr>"
    by (rule reach_init) (simp add: signal_init_def)
  have "SignalVersion ref_signal ref_staking 10 \<lparr>sv_ValidatorAddress = replicate 20 CHR ''a'', sv_Version = 11\<rparr> [] =
      Inr (ref_signals, [EvSignalVersion (replicate 20 CHR ''a'')])"
    by (simp add: SignalVersion_def IsUpgradePending_def getUpgrade_def ref_signal_def ref_staking_def ref_signals_def
        ref_val_addr_def SetValidatorVersion_def chars_bytes_def)
  then show "signal_step ref_signal ref_dec ref_upgrade_keeper staking_ok
      \<lparr>sy_Version = 10, sy_Store = [], sy_Plan = None\<rparr> \<lparr>sy_Version = 10, sy_Store = ref_signals, sy_Plan = None\<rparr>"
    using signal_step.signal [of staking_ok ref_staking ref_signal "\<lparr>sy_Version = 10, sy_Store = [], sy_Plan = None\<rparr>"]
      ref_staking_ok by simp
qed

theorem pending_upgrade_is_final_witness:
  "\<exists>(y :: signal_sys) u. getUpgrade ref_signal (sy_Store y) = Inr (Some u) \<and> sy_Version y < AppVersion u \<and>
    SignalVersion ref_signal ref_staking 10 \<lparr>sv_ValidatorAddress = ''x'', sv_Version = 11\<rparr> (sy_Store y) =
      Inl ErrUpgradePending"
proof -
  let ?y = "\<lparr>sy_Version = 10, sy_Store = ref_signals, sy_Plan = None\<rparr>"
  obtain s' ev where run: "TryUpgrade ref_signal ref_dec ref_staking ref_up_ctx 10 ''x'' ref_signals = Inr (s', ev)"
    and u: "getUpgrade ref_signal s' = Inr (Some \<lparr>AppVersion = 11, UpgradeHeight = 8\<rparr>)"
    using ref_upgrade by blast
  have "signal_step ref_signal ref_dec ref_upgrade_keeper staking_ok ?y (?y\<lparr>sy_Store := s'\<rparr>)"
    using run by (intro signal_step.try_upgrade [of staking_ok ref_staking] ref_staking_ok) simp
  then have R: "reach signal_init (signal_step ref_signal ref_dec ref_upgrade_keeper staking_ok) (?y\<lparr>sy_Store := s'\<rparr>)"
    using ref_signal_reach by (rule reach_step [rotated])
  have u': "getUpgrade ref_signal (sy_Store (?y\<lparr>sy_Store := s'\<rparr>)) = Inr (Some \<lparr>AppVersion = 11, UpgradeHeight = 8\<rparr>)"
    using u by simp
  note F = pending_upgrade_is_final [OF R ref_signal_codec u', of ref_staking 10
        "\<lparr>sv_ValidatorAddress = ''x'', sv_Version = 11\<rparr>" ref_up_ctx "''x''"]
  show ?thesis
    by (rule exI [of _ "?y\<lparr>sy_Store := s'\<rparr>"], rule exI [of _ "\<lparr>AppVersion = 11, UpgradeHeight = 8\<rparr>"])
      (use F u' in simp)
qed

end
