(* ===== verification/Blob.thy ===== *)
theory Blob
  imports Sdk GoInt
begin

text \<open>
  x/blob: the message that pays for blobs, its stateless checks, its gas (\<open>types/payforblob.go\<close>), the
  checks that tie a blob transaction to its message (\<open>types/blob_tx.go\<close>), the module's parameters and
  its keeper. Shares, namespaces and commitments belong to go-square and are a parameter; so is the gas meter
  of the SDK.
\<close>

section \<open>Data\<close>

record blob =
  bl_Namespace :: bytes
  bl_Data :: bytes
  bl_ShareVersion :: "8 word"
  bl_Signer :: bytes

record msg_pay_for_blobs =
  pfb_Signer :: string
  pfb_Namespaces :: "bytes list"
  pfb_BlobSizes :: "uint32 list"
  pfb_ShareCommitments :: "bytes list"
  pfb_ShareVersions :: "uint32 list"

record gosquare =
  SparseSharesNeeded :: "uint32 \<Rightarrow> bool \<Rightarrow> int64"
  CompactSharesNeeded :: "uint32 \<Rightarrow> int64"
  ShareSize :: uint64
  ns_IsReserved :: "bytes \<Rightarrow> bool"
  ns_Version :: "bytes \<Rightarrow> 8 word"
  SupportedBlobNamespaceVersions :: "8 word list"
  CreateCommitments :: "blob list \<Rightarrow> int \<Rightarrow> bytes list option"
  CreateParallelCommitments :: "blob list \<Rightarrow> int \<Rightarrow> bytes list option"
  NewV0Blob_share :: "bytes \<Rightarrow> bytes \<Rightarrow> blob option"
  NewV1Blob_share :: "bytes \<Rightarrow> bytes \<Rightarrow> bytes \<Rightarrow> blob option"
  IsPowerOfTwo :: "uint64 \<Rightarrow> bool"

datatype blob_err =
    ErrReservedNamespace | ErrInvalidNamespaceLen | ErrInvalidDataSize | ErrBlobSizeMismatch
  | ErrCommittedSquareSizeNotPowOf2 | ErrCalculateCommitment | ErrInvalidShareCommitment | ErrParitySharesNamespace
  | ErrTailPaddingNamespace | ErrTxNamespace | ErrInvalidShareCommitments | ErrUnsupportedShareVersion
  | ErrZeroBlobSize | ErrMismatchedNumberOfPFBorBlob | ErrNoPFB | ErrNamespaceMismatch | ErrProtoParsing
  | ErrMultipleMsgsInBlobTx | ErrMismatchedNumberOfPFBComponent | ErrNoBlobs | ErrNoNamespaces | ErrNoShareVersions
  | ErrNoBlobSizes | ErrNoShareCommitments | ErrInvalidNamespace | ErrInvalidNamespaceVersion
  | ErrTotalBlobSizeTooLarge | ErrBlobsTooLarge | ErrInvalidBlobSigner | ErrShareVersionMismatch | ErrBlobAddress | ErrBlobTxDecode | ErrNewBlob
  | ErrCreateCommitments | ErrBlobUnauthorized | ErrBlobParams | BlobOutOfGas | BlobPanic

definition ShareVersionZero :: nat where
  "ShareVersionZero = 0"

definition ShareVersionOne :: nat where
  "ShareVersionOne = 1"

definition HashLength :: nat where
  "HashLength = 32"

definition SubtreeRootThreshold :: int where
  "SubtreeRootThreshold = 64"

definition GasPerBlobByte :: uint32 where
  "GasPerBlobByte = 8"

definition TxSizeCostPerByte :: uint64 where
  "TxSizeCostPerByte = 10"

definition PFBGasFixedCost :: uint64 where
  "PFBGasFixedCost = 75000"

definition BytesPerBlobInfo :: uint64 where
  "BytesPerBlobInfo = 70"

definition SquareSizeUpperBound :: int64 where
  "SquareSizeUpperBound = 512"

definition GetSquareSizeUpperBound :: "string \<Rightarrow> int64" where
  "GetSquareSizeUpperBound _ = SquareSizeUpperBound"

section \<open>Stateless checks\<close>

fun check_each :: "('a \<Rightarrow> 'e + unit) \<Rightarrow> 'a list \<Rightarrow> 'e + unit" where
  "check_each f [] = Inr ()"
| "check_each f (x # xs) = rbind (f x) (\<lambda>_. check_each f xs)"

definition ValidateBlobNamespace :: "gosquare \<Rightarrow> bytes \<Rightarrow> blob_err + unit" where
  "ValidateBlobNamespace G ns =
     rbind (require (\<not> ns_IsReserved G ns) ErrReservedNamespace) (\<lambda>_.
     require (ns_Version G ns \<in> set (SupportedBlobNamespaceVersions G)) ErrInvalidNamespaceVersion)"

definition MsgPayForBlobs_ValidateBasic :: "sdk \<Rightarrow> gosquare \<Rightarrow> msg_pay_for_blobs \<Rightarrow> blob_err + unit" where
  "MsgPayForBlobs_ValidateBasic E G m =
     rbind (require (pfb_Namespaces m \<noteq> []) ErrNoNamespaces) (\<lambda>_.
     rbind (require (pfb_ShareVersions m \<noteq> []) ErrNoShareVersions) (\<lambda>_.
     rbind (require (pfb_BlobSizes m \<noteq> []) ErrNoBlobSizes) (\<lambda>_.
     rbind (require (pfb_ShareCommitments m \<noteq> []) ErrNoShareCommitments) (\<lambda>_.
     rbind (require (length (pfb_Namespaces m) = length (pfb_ShareVersions m) \<and>
              length (pfb_Namespaces m) = length (pfb_BlobSizes m) \<and>
              length (pfb_Namespaces m) = length (pfb_ShareCommitments m)) ErrMismatchedNumberOfPFBComponent) (\<lambda>_.
     rbind (check_each (\<lambda>ns. rbind (of_opt ErrInvalidNamespace (NewNamespaceFromBytes E ns))
              (ValidateBlobNamespace G)) (pfb_Namespaces m)) (\<lambda>_.
     rbind (check_each (\<lambda>v. require (unat v = ShareVersionZero \<or> unat v = ShareVersionOne) ErrUnsupportedShareVersion)
              (pfb_ShareVersions m)) (\<lambda>_.
     rbind (of_opt ErrBlobAddress (AccAddressFromBech32 E (pfb_Signer m))) (\<lambda>_.
     check_each (\<lambda>c. require (length c = HashLength) ErrInvalidShareCommitment) (pfb_ShareCommitments m)))))))))"

definition ValidateBlobs :: "gosquare \<Rightarrow> blob list \<Rightarrow> blob_err + unit" where
  "ValidateBlobs G blobs =
     rbind (require (blobs \<noteq> []) ErrNoBlobs) (\<lambda>_.
     check_each (\<lambda>b. rbind (require (bl_Data b \<noteq> []) ErrZeroBlobSize) (\<lambda>_.
       ValidateBlobNamespace G (bl_Namespace b))) blobs)"

text \<open>The signer is the decoded address; a decoded address is never nil.\<close>

definition ValidateBlobShareVersion :: "bytes option \<Rightarrow> blob list \<Rightarrow> blob_err + unit" where
  "ValidateBlobShareVersion signer blobs =
     check_each (\<lambda>b.
       if unat (bl_ShareVersion b) = ShareVersionOne then
         (case signer of
            None \<Rightarrow> Inl ErrInvalidBlobSigner
          | Some a \<Rightarrow> require (bl_Signer b = a) ErrInvalidBlobSigner)
       else Inr ()) blobs"

definition ExtractBlobComponents :: "blob list \<Rightarrow> bytes list \<times> uint32 list \<times> uint32 list" where
  "ExtractBlobComponents bs =
     (map bl_Namespace bs, map (\<lambda>b. of_nat (length (bl_Data b))) bs, map (\<lambda>b. ucast (bl_ShareVersion b)) bs)"

definition namespacesToBytes :: "bytes list \<Rightarrow> bytes list" where
  "namespacesToBytes namespaces = namespaces"

definition NewMsgPayForBlobs :: "sdk \<Rightarrow> gosquare \<Rightarrow> string \<Rightarrow> blob list \<Rightarrow> blob_err + msg_pay_for_blobs" where
  "NewMsgPayForBlobs E G signerAddress blobs =
     rbind (ValidateBlobs G blobs) (\<lambda>_.
     rbind (of_opt ErrBlobAddress (AccAddressFromBech32 E signerAddress)) (\<lambda>signerBytes.
     rbind (ValidateBlobShareVersion (Some signerBytes) blobs) (\<lambda>_.
     rbind (of_opt ErrCreateCommitments (CreateCommitments G blobs SubtreeRootThreshold)) (\<lambda>commitments.
     let (namespaces, sizes, shareVersions) = ExtractBlobComponents blobs;
         msg = \<lparr>pfb_Signer = signerAddress, pfb_Namespaces = namespacesToBytes namespaces, pfb_BlobSizes = sizes,
                pfb_ShareCommitments = commitments, pfb_ShareVersions = shareVersions\<rparr>
     in rbind (MsgPayForBlobs_ValidateBasic E G msg) (\<lambda>_. Inr msg)))))"

definition NewV0Blob :: "gosquare \<Rightarrow> bytes \<Rightarrow> bytes \<Rightarrow> blob_err + blob" where
  "NewV0Blob G ns data =
     rbind (ValidateBlobNamespace G ns) (\<lambda>_. of_opt ErrNewBlob (NewV0Blob_share G ns data))"

definition NewV1Blob :: "gosquare \<Rightarrow> bytes \<Rightarrow> bytes \<Rightarrow> bytes \<Rightarrow> blob_err + blob" where
  "NewV1Blob G ns data signer =
     rbind (ValidateBlobNamespace G ns) (\<lambda>_. of_opt ErrNewBlob (NewV1Blob_share G ns data signer))"

section \<open>Gas\<close>

text \<open>The loops index the share versions by the position of the size; out of range they panic.\<close>

fun shares_used :: "gosquare \<Rightarrow> uint32 list \<Rightarrow> uint32 list \<Rightarrow> uint64 \<Rightarrow> uint64 option" where
  "shares_used G [] versions used = Some used"
| "shares_used G (sz # szs) [] used = None"
| "shares_used G (sz # szs) (v # versions) used =
     shares_used G szs versions (used + SparseSharesNeeded G sz (unat v = ShareVersionOne))"

definition GasToConsume :: "gosquare \<Rightarrow> msg_pay_for_blobs \<Rightarrow> uint32 \<Rightarrow> uint64 option" where
  "GasToConsume G m gasPerByte =
     map_option (\<lambda>used. used * ShareSize G * ucast gasPerByte)
       (shares_used G (pfb_BlobSizes m) (pfb_ShareVersions m) 0)"

definition MsgPayForBlobs_Gas :: "gosquare \<Rightarrow> msg_pay_for_blobs \<Rightarrow> uint32 \<Rightarrow> uint64 option" where
  "MsgPayForBlobs_Gas G m gasPerByte = GasToConsume G m gasPerByte"

definition EstimateGas :: "gosquare \<Rightarrow> msg_pay_for_blobs \<Rightarrow> uint32 \<Rightarrow> uint64 \<Rightarrow> uint64 option" where
  "EstimateGas G m gasPerByte txSizeCost =
     map_option (\<lambda>g. g + txSizeCost * BytesPerBlobInfo * of_nat (length (pfb_BlobSizes m)) + PFBGasFixedCost)
       (GasToConsume G m gasPerByte)"

definition DefaultEstimateGas :: "gosquare \<Rightarrow> msg_pay_for_blobs \<Rightarrow> uint64 option" where
  "DefaultEstimateGas G m = EstimateGas G m GasPerBlobByte TxSizeCostPerByte"

section \<open>Transactions\<close>

text \<open>
  The messages a transaction of this chain can carry, as far as the repository looks at them. A container whose
  messages do not unpack is \<open>None\<close>.
\<close>

record bank_update = bu_SendEnabled :: nat  bu_DefaultSendEnabled :: bool
record staking_update = su_BondDenom :: string  su_UnbondingTime :: duration

record evidence_params =
  ev_MaxAgeNumBlocks :: int64
  ev_MaxAgeDuration :: duration
  ev_MaxBytes :: int64

text \<open>The validator key types and the evidence parameters of a consensus update, if it converts.\<close>

record consensus_update = cu_ToProto :: "(string list \<times> evidence_params) option"

datatype 'pff sdk_msg =
    PayForBlobsMsg msg_pay_for_blobs
  | PayForFibreMsg 'pff
  | MsgExec "'pff sdk_msg list option"
  | MsgSubmitProposal "'pff sdk_msg list option"
  | BankUpdateParams bank_update
  | StakingUpdateParams staking_update
  | ConsensusUpdateParams consensus_update
  | OtherMsg string

record blob_tx =
  btx_Tx :: bytes
  btx_Blobs :: "blob list"

fun check_indexed :: "(nat \<Rightarrow> 'a \<Rightarrow> 'e + unit) \<Rightarrow> nat \<Rightarrow> 'a list \<Rightarrow> 'e + unit" where
  "check_indexed f i [] = Inr ()"
| "check_indexed f i (x # xs) = rbind (f i x) (\<lambda>_. check_indexed f (Suc i) xs)"

definition at_index :: "'e \<Rightarrow> 'a list \<Rightarrow> nat \<Rightarrow> 'e + 'a" where
  "at_index e xs i = (if i < length xs then Inr (xs ! i) else Inl e)"

definition ValidateBlobTxSkipCommitment ::
  "sdk \<Rightarrow> gosquare \<Rightarrow> (bytes \<Rightarrow> 'pff sdk_msg list option) \<Rightarrow> blob_tx option \<Rightarrow> blob_err + msg_pay_for_blobs" where
  "ValidateBlobTxSkipCommitment E G TxDecoder bTx =
     rbind (of_opt ErrNoBlobs bTx) (\<lambda>bTx.
     rbind (of_opt ErrBlobTxDecode (TxDecoder (btx_Tx bTx))) (\<lambda>msgs.
     rbind (require (length msgs = 1) ErrMultipleMsgsInBlobTx) (\<lambda>_.
     rbind (case hd msgs of PayForBlobsMsg m \<Rightarrow> Inr m | _ \<Rightarrow> Inl ErrNoPFB) (\<lambda>msgPFB.
     rbind (MsgPayForBlobs_ValidateBasic E G msgPFB) (\<lambda>_.
     let blobs = btx_Blobs bTx;
         sizes = map (\<lambda>b. of_nat (length (bl_Data b))) blobs in
     rbind (ValidateBlobs G blobs) (\<lambda>_.
     rbind (of_opt ErrBlobAddress (AccAddressFromBech32 E (pfb_Signer msgPFB))) (\<lambda>signer.
     rbind (check_each (\<lambda>b.
              if unat (bl_ShareVersion b) = ShareVersionOne then require (bl_Signer b = signer) ErrInvalidBlobSigner
              else Inr ()) blobs) (\<lambda>_.
     rbind (require (sizes = pfb_BlobSizes msgPFB) ErrBlobSizeMismatch) (\<lambda>_.
     rbind (check_indexed (\<lambda>i ns.
              rbind (of_opt ErrInvalidNamespace (NewNamespaceFromBytes E ns)) (\<lambda>msgPFBNamespace.
              rbind (at_index BlobPanic blobs i) (\<lambda>b.
              require (bl_Namespace b = msgPFBNamespace) ErrNamespaceMismatch))) 0 (pfb_Namespaces msgPFB)) (\<lambda>_.
     rbind (check_indexed (\<lambda>i b.
              rbind (at_index BlobPanic (pfb_ShareVersions msgPFB) i) (\<lambda>v.
              require (v = ucast (bl_ShareVersion b)) ErrShareVersionMismatch)) 0 blobs) (\<lambda>_.
     Inr msgPFB)))))))))))"

definition ValidateBlobTx ::
  "sdk \<Rightarrow> gosquare \<Rightarrow> (bytes \<Rightarrow> 'pff sdk_msg list option) \<Rightarrow> blob_tx option \<Rightarrow> int \<Rightarrow> blob_err + unit" where
  "ValidateBlobTx E G TxDecoder bTx subtreeRootThreshold =
     rbind (ValidateBlobTxSkipCommitment E G TxDecoder bTx) (\<lambda>msgPFB.
     rbind (of_opt ErrNoBlobs bTx) (\<lambda>bTx.
     rbind (of_opt ErrCalculateCommitment
              (CreateParallelCommitments G (btx_Blobs bTx) subtreeRootThreshold)) (\<lambda>calculatedCommitments.
     check_indexed (\<lambda>i commitment.
       rbind (at_index BlobPanic calculatedCommitments i) (\<lambda>c.
       require (c = commitment) ErrInvalidShareCommitment)) 0 (pfb_ShareCommitments msgPFB))))"

section \<open>Parameters and keeper\<close>

record blob_params =
  bp_GasPerBlobByte :: uint32
  bp_GovMaxSquareSize :: uint64

definition validateGasPerBlobByte :: "uint32 \<Rightarrow> blob_err + unit" where
  "validateGasPerBlobByte v = require (v \<noteq> 0) ErrBlobParams"

definition validateGovMaxSquareSize :: "gosquare \<Rightarrow> uint64 \<Rightarrow> blob_err + unit" where
  "validateGovMaxSquareSize G v =
     rbind (require (v \<noteq> 0) ErrBlobParams) (\<lambda>_.
     rbind (require (IsPowerOfTwo G v) ErrBlobParams) (\<lambda>_.
     require (v \<le> SquareSizeUpperBound) ErrBlobParams))"

definition blob_Params_Validate :: "gosquare \<Rightarrow> blob_params \<Rightarrow> blob_err + unit" where
  "blob_Params_Validate G p =
     rbind (validateGasPerBlobByte (bp_GasPerBlobByte p)) (\<lambda>_. validateGovMaxSquareSize G (bp_GovMaxSquareSize p))"

definition blob_DefaultParams :: blob_params where
  "blob_DefaultParams = \<lparr>bp_GasPerBlobByte = GasPerBlobByte, bp_GovMaxSquareSize = 256\<rparr>"

text \<open>The stored parameters, and the ones of the legacy subspace they fall back to.\<close>

record blob_state =
  bs_Params :: "blob_params option"
  bs_Legacy :: blob_params

definition blob_GetParams :: "blob_state \<Rightarrow> blob_params" where
  "blob_GetParams s = (case bs_Params s of None \<Rightarrow> bs_Legacy s | Some p \<Rightarrow> p)"

definition blob_SetParams :: "blob_params \<Rightarrow> blob_state \<Rightarrow> blob_state" where
  "blob_SetParams p s = s\<lparr>bs_Params := Some p\<rparr>"

definition SetParamsLegacy :: "blob_params \<Rightarrow> blob_state \<Rightarrow> blob_state" where
  "SetParamsLegacy p s = s\<lparr>bs_Legacy := p\<rparr>"

record 'm gas_meter =
  ConsumeGas :: "'m \<Rightarrow> uint64 \<Rightarrow> 'm option"
  GasRemaining :: "'m \<Rightarrow> uint64"

datatype blob_event =
    EventPayForBlobs string "uint32 list" "bytes list"
  | EventUpdateBlobParams string blob_params

definition PayForBlobs ::
  "gosquare \<Rightarrow> 'm gas_meter \<Rightarrow> msg_pay_for_blobs \<Rightarrow> 'm \<Rightarrow> blob_err + 'm \<times> blob_event list" where
  "PayForBlobs G M m meter =
     rbind (of_opt BlobPanic (GasToConsume G m GasPerBlobByte)) (\<lambda>gasToConsume.
     rbind (of_opt BlobOutOfGas (ConsumeGas M meter gasToConsume)) (\<lambda>meter'.
     Inr (meter', [EventPayForBlobs (pfb_Signer m) (pfb_BlobSizes m) (pfb_Namespaces m)])))"

definition UpdateBlobParams ::
  "gosquare \<Rightarrow> string \<Rightarrow> string \<Rightarrow> blob_params \<Rightarrow> blob_state \<Rightarrow> blob_err + blob_state \<times> blob_event list" where
  "UpdateBlobParams G authority msg_Authority msg_Params s =
     rbind (require (msg_Authority = authority) ErrBlobUnauthorized) (\<lambda>_.
     rbind (case blob_Params_Validate G msg_Params of Inl _ \<Rightarrow> Inl ErrBlobParams | Inr _ \<Rightarrow> Inr ()) (\<lambda>_.
     Inr (blob_SetParams msg_Params s, [EventUpdateBlobParams msg_Authority msg_Params])))"

definition blob_InitGenesis :: "gosquare \<Rightarrow> blob_params \<Rightarrow> blob_state \<Rightarrow> blob_err + blob_state" where
  "blob_InitGenesis G p s = rbind (blob_Params_Validate G p) (\<lambda>_. Inr (blob_SetParams p s))"

definition blob_ExportGenesis :: "blob_state \<Rightarrow> blob_params" where
  "blob_ExportGenesis s = blob_GetParams s"

definition blob_MigrateParams :: "gosquare \<Rightarrow> blob_state \<Rightarrow> blob_err + blob_state" where
  "blob_MigrateParams G s = rbind (blob_Params_Validate G (bs_Legacy s)) (\<lambda>_. Inr (blob_SetParams (bs_Legacy s) s))"

definition MaxEffectiveSquareSize :: "blob_state \<Rightarrow> string \<Rightarrow> int64" where
  "MaxEffectiveSquareSize s chainID =
     i64_min (bp_GovMaxSquareSize (blob_GetParams s)) (GetSquareSizeUpperBound chainID)"

definition getGovMaxSquareBytes :: "gosquare \<Rightarrow> blob_state \<Rightarrow> uint64" where
  "getGovMaxSquareBytes G s =
     (let maxSquareSize = bp_GovMaxSquareSize (blob_GetParams s) in maxSquareSize * maxSquareSize * ShareSize G)"

end
