(* ===== verification/MinFee.thy ===== *)
theory MinFee
  imports LegacyDec Sdk
begin

text \<open>
  x/minfee: the network-wide minimum gas price, its keeper, genesis, migration and governance message. The
  parameters fall back to those of the legacy subspace until they have been stored.
\<close>

record minfee_params =
  mf_NetworkMinGasPrice :: dec

record minfee_state =
  mfs_Params :: "minfee_params option"
  mfs_Legacy :: minfee_params

record minfee_genesis =
  mg_NetworkMinGasPrice :: dec
  mg_Params :: minfee_params

datatype minfee_err = MinfeeUnauthorized | MinfeeInvalidRequest | MinfeeInvalidGenesis | MinfeeInvalidArgument

datatype minfee_event = EventUpdateMinfeeParams string minfee_params

definition minfee_Params_Validate :: "minfee_params \<Rightarrow> minfee_err + unit" where
  "minfee_Params_Validate p = Inr ()"

text \<open>The constant 0.000001, printed with six decimals and parsed.\<close>

definition DefaultNetworkMinGasPrice :: dec where
  "DefaultNetworkMinGasPrice = 1000000000000"

definition minfee_DefaultParams :: minfee_params where
  "minfee_DefaultParams = \<lparr>mf_NetworkMinGasPrice = DefaultNetworkMinGasPrice\<rparr>"

definition minfee_NewParams :: "dec \<Rightarrow> minfee_params" where
  "minfee_NewParams p = \<lparr>mf_NetworkMinGasPrice = p\<rparr>"

definition minfee_GetParams :: "minfee_state \<Rightarrow> minfee_params" where
  "minfee_GetParams s = (case mfs_Params s of None \<Rightarrow> mfs_Legacy s | Some p \<Rightarrow> p)"

definition minfee_SetParams :: "minfee_params \<Rightarrow> minfee_state \<Rightarrow> minfee_state" where
  "minfee_SetParams p s = s\<lparr>mfs_Params := Some p\<rparr>"

definition UpdateMinfeeParams ::
  "string \<Rightarrow> string \<Rightarrow> minfee_params \<Rightarrow> minfee_state \<Rightarrow> minfee_err + minfee_state \<times> minfee_event list" where
  "UpdateMinfeeParams authority msg_Authority msg_Params s =
     rbind (require (msg_Authority = authority) MinfeeUnauthorized) (\<lambda>_.
     rbind (minfee_Params_Validate msg_Params) (\<lambda>_.
     Inr (minfee_SetParams msg_Params s, [EventUpdateMinfeeParams msg_Authority msg_Params])))"

definition minfee_InitGenesis :: "minfee_genesis \<Rightarrow> minfee_state \<Rightarrow> minfee_err + minfee_state" where
  "minfee_InitGenesis g s = rbind (minfee_Params_Validate (mg_Params g)) (\<lambda>_. Inr (minfee_SetParams (mg_Params g) s))"

definition minfee_ExportGenesis :: "minfee_state \<Rightarrow> minfee_genesis" where
  "minfee_ExportGenesis s =
     (let p = minfee_GetParams s in \<lparr>mg_NetworkMinGasPrice = mf_NetworkMinGasPrice p, mg_Params = p\<rparr>)"

definition minfee_DefaultGenesis :: minfee_genesis where
  "minfee_DefaultGenesis = \<lparr>mg_NetworkMinGasPrice = DefaultNetworkMinGasPrice,
     mg_Params = \<lparr>mf_NetworkMinGasPrice = DefaultNetworkMinGasPrice\<rparr>\<rparr>"

definition minfee_ValidateGenesis :: "minfee_genesis \<Rightarrow> minfee_err + unit" where
  "minfee_ValidateGenesis g =
     rbind (require (\<not> (mg_NetworkMinGasPrice g < 0 \<or> mg_NetworkMinGasPrice g = 0)) MinfeeInvalidGenesis) (\<lambda>_.
     minfee_Params_Validate (mg_Params g))"

definition minfee_MigrateParams :: "minfee_state \<Rightarrow> minfee_err + minfee_state" where
  "minfee_MigrateParams s =
     rbind (minfee_Params_Validate (mfs_Legacy s)) (\<lambda>_.
     Inr (minfee_SetParams (minfee_NewParams (mf_NetworkMinGasPrice (mfs_Legacy s))) s))"

definition NetworkMinGasPrice :: "minfee_state \<Rightarrow> dec" where
  "NetworkMinGasPrice s = mf_NetworkMinGasPrice (minfee_GetParams s)"

end
