(* ===== verification/Ante.thy ===== *)
theory Ante
  imports Blob MinFee ValidatorSet
begin

text \<open>
  The ante handler's decorators that belong to the repository (\<open>app/ante\<close>, \<open>app/param_filters.go\<close>,
  \<open>x/blob/ante\<close>, \<open>x/fibre/ante\<close>, \<open>app/pff_sig_cache.go\<close>). A decorator runs its checks and then calls the
  next handler. The gas meter, the codecs and the SDK's own decorators are parameters.
\<close>

section \<open>Contexts and transactions\<close>

type_synonym app_msg = "msg_pay_for_fibre sdk_msg"

datatype pub_key = SimSecp256k1Pubkey | SomePubKey bytes | MultisigPubKey bytes

datatype sig_data = NilSignature | SingleSignatureData bytes | MultiSignatureData "sig_data list"

record signature_v2 =
  sg_PubKey :: "pub_key option"
  sg_Sequence :: uint64
  sg_Data :: sig_data

record app_tx =
  tx_Msgs :: "app_msg list"
  tx_IsFeeTx :: bool
  tx_Fee :: "coin list"
  tx_Gas :: uint64
  tx_IsSigTx :: bool
  tx_Signatures :: "signature_v2 list option"

record 'm ante_ctx =
  a_ChainID :: string
  a_Height :: int64
  a_IsCheckTx :: bool
  a_IsReCheckTx :: bool
  a_TxBytes :: bytes
  a_MinGasPrices :: "(string \<times> dec) list"
  a_Meter :: 'm
  a_SigCache :: "bytes set"

datatype ante_err =
    AnteTxDecode | AnteInsufficientFee | AnteNotSupported | AnteUnauthorized | AnteInvalidRequest | AnteUnpack
  | AnteOutOfGas | AnteBlobsTooLarge | AnteSignature sig_err | AnteConvert | AnteFromNext | AntePanic

type_synonym 'm ante_handler = "'m ante_ctx \<Rightarrow> app_tx \<Rightarrow> bool \<Rightarrow> ante_err + 'm ante_ctx"

section \<open>Fees\<close>

definition AmountOf :: "coin list \<Rightarrow> string \<Rightarrow> int" where
  "AmountOf cs d = (case find (\<lambda>c. denom c = d) cs of None \<Rightarrow> 0 | Some c \<Rightarrow> amount c)"

definition DecAmountOf :: "(string \<times> dec) list \<Rightarrow> string \<Rightarrow> dec" where
  "DecAmountOf cs d = (case map_of cs d of None \<Rightarrow> 0 | Some x \<Rightarrow> x)"

definition priorityScalingFactor :: int where
  "priorityScalingFactor = 1000000"

definition verifyMinFee :: "dec_ops \<Rightarrow> int \<Rightarrow> uint64 \<Rightarrow> dec \<Rightarrow> ante_err + unit" where
  "verifyMinFee D fee gas minGasPrice =
     rbind (of_opt AntePanic (dec_MulInt D minGasPrice (uint gas))) (\<lambda>p.
     let minFee = dec_Ceil D p in
     require (\<not> fee < dec_TruncateInt D minFee) AnteInsufficientFee)"

text \<open>\<open>Mul\<close> panics on a product of more than 256 bits; \<open>QuoRaw\<close> truncates and panics on zero.\<close>

fun tx_priority :: "coin list \<Rightarrow> int64 \<Rightarrow> int64 \<Rightarrow> int64 option" where
  "tx_priority [] gas priority = Some priority"
| "tx_priority (c # cs) gas priority =
     (if 2 ^ 256 \<le> \<bar>amount c * priorityScalingFactor\<bar> \<or> gas = 0 then None
      else let p = quot (amount c * priorityScalingFactor) (sint gas) in
        if \<not> i64_range p then tx_priority cs gas priority
        else if priority = 0 \<or> p < sint priority then tx_priority cs gas (i64 p)
        else tx_priority cs gas priority)"

definition getTxPriority :: "coin list \<Rightarrow> int64 \<Rightarrow> int64 option" where
  "getTxPriority fee gas = tx_priority fee gas 0"

definition ValidateTxFee ::
  "dec_ops \<Rightarrow> minfee_state \<Rightarrow> 'm ante_ctx \<Rightarrow> app_tx \<Rightarrow> ante_err + coin list \<times> int64" where
  "ValidateTxFee D mf c tx =
     rbind (require (tx_IsFeeTx tx) AnteTxDecode) (\<lambda>_.
     let fee = AmountOf (tx_Fee tx) ''utia''; gas = tx_Gas tx in
     rbind (if a_IsCheckTx c then
              let minGasPrice = (if a_MinGasPrices c \<noteq> [] then DecAmountOf (a_MinGasPrices c) ''utia''
                                 else LegacyNewDecWithPrec D 4000 6) in
              if minGasPrice \<noteq> 0 then verifyMinFee D fee gas minGasPrice else Inr ()
            else Inr ()) (\<lambda>_.
     rbind (verifyMinFee D fee gas (mf_NetworkMinGasPrice (minfee_GetParams mf))) (\<lambda>_.
     rbind (of_opt AntePanic (getTxPriority (tx_Fee tx) gas)) (\<lambda>priority.
     rbind (of_opt AntePanic (Int_Int64 fee)) (\<lambda>_.
     Inr (tx_Fee tx, priority))))))"

section \<open>Gas for the size of a transaction\<close>

fun isIncompleteSignature :: "sig_data \<Rightarrow> bool" where
  "isIncompleteSignature NilSignature = True"
| "isIncompleteSignature (SingleSignatureData s) = (s = [])"
| "isIncompleteSignature (MultiSignatureData ds) = (ds = [] \<or> list_ex isIncompleteSignature ds)"

fun simulate_signatures ::
  "'m gas_meter \<Rightarrow> (pub_key \<Rightarrow> nat) \<Rightarrow> uint64 \<Rightarrow> signature_v2 list \<Rightarrow> 'm \<Rightarrow> ante_err + 'm" where
  "simulate_signatures M stdSignatureLen txSigLimit [] meter = Inr meter"
| "simulate_signatures M stdSignatureLen txSigLimit (s # ss) meter =
     (if \<not> isIncompleteSignature (sg_Data s) then simulate_signatures M stdSignatureLen txSigLimit ss meter
      else
        let pubkey = (case sg_PubKey s of None \<Rightarrow> SimSecp256k1Pubkey | Some k \<Rightarrow> k);
            txBytes = of_nat (stdSignatureLen pubkey + 6);
            txBytes' = (case pubkey of MultisigPubKey _ \<Rightarrow> txBytes * txSigLimit | _ \<Rightarrow> txBytes) in
        rbind (of_opt AnteOutOfGas (ConsumeGas M meter (TxSizeCostPerByte * txBytes'))) (\<lambda>meter'.
        simulate_signatures M stdSignatureLen txSigLimit ss meter'))"

definition ConsumeTxSizeGas_AnteHandle ::
  "'m gas_meter \<Rightarrow> (pub_key \<Rightarrow> nat) \<Rightarrow> uint64 \<Rightarrow> 'm ante_handler \<Rightarrow> 'm ante_handler" where
  "ConsumeTxSizeGas_AnteHandle M stdSignatureLen txSigLimit next c tx simulate =
     rbind (require (tx_IsSigTx tx) AnteTxDecode) (\<lambda>_.
     rbind (of_opt AnteOutOfGas
              (ConsumeGas M (a_Meter c) (TxSizeCostPerByte * of_nat (length (a_TxBytes c))))) (\<lambda>meter.
     rbind (if simulate then
              rbind (of_opt AnteTxDecode (tx_Signatures tx)) (\<lambda>sigs.
              simulate_signatures M stdSignatureLen txSigLimit sigs meter)
            else Inr meter) (\<lambda>meter'.
     next (c\<lparr>a_Meter := meter'\<rparr>) tx simulate)))"

section \<open>Nested messages\<close>

fun is_wrapper_or_paid :: "app_msg \<Rightarrow> bool" where
  "is_wrapper_or_paid (PayForBlobsMsg _) = True"
| "is_wrapper_or_paid (PayForFibreMsg _) = True"
| "is_wrapper_or_paid (MsgExec _) = True"
| "is_wrapper_or_paid (MsgSubmitProposal _) = True"
| "is_wrapper_or_paid _ = False"

fun rejectWrapped :: "app_msg list \<Rightarrow> ante_err + unit" where
  "rejectWrapped [] = Inr ()"
| "rejectWrapped (m # ms) = (if is_wrapper_or_paid m then Inl AnteNotSupported else rejectWrapped ms)"

fun nested_msgs_ok :: "app_msg list \<Rightarrow> ante_err + unit" where
  "nested_msgs_ok [] = Inr ()"
| "nested_msgs_ok (m # ms) =
     rbind (case m of
              MsgExec nested \<Rightarrow> rbind (of_opt AnteUnpack nested) rejectWrapped
            | MsgSubmitProposal nested \<Rightarrow> rbind (of_opt AnteUnpack nested) rejectWrapped
            | _ \<Rightarrow> Inr ()) (\<lambda>_.
     nested_msgs_ok ms)"

definition NestedMsg_AnteHandle :: "'m ante_handler \<Rightarrow> 'm ante_handler" where
  "NestedMsg_AnteHandle next c tx simulate = rbind (nested_msgs_ok (tx_Msgs tx)) (\<lambda>_. next c tx simulate)"

section \<open>Parameter filters\<close>

definition UnbondingTime :: duration where
  "UnbondingTime = 337 * hour"

definition MaxAgeDuration :: duration where
  "MaxAgeDuration = 337 * hour"

definition MaxAgeNumBlocks :: int64 where
  "MaxAgeNumBlocks = 404400"

text \<open>CometBFT's defaults for the validator key types and the size of evidence are parameters.\<close>

definition EvidenceParams :: "int64 \<Rightarrow> evidence_params" where
  "EvidenceParams defaultMaxBytes = \<lparr>ev_MaxAgeNumBlocks = MaxAgeNumBlocks, ev_MaxAgeDuration = MaxAgeDuration,
     ev_MaxBytes = defaultMaxBytes\<rparr>"

definition bankParamFilter :: "bank_update \<Rightarrow> ante_err + unit" where
  "bankParamFilter p = require (\<not> (0 < bu_SendEnabled p \<or> \<not> bu_DefaultSendEnabled p)) AnteUnauthorized"

definition stakingParamFilter :: "staking_update \<Rightarrow> ante_err + unit" where
  "stakingParamFilter p =
     rbind (require (su_BondDenom p = ''utia'') AnteUnauthorized) (\<lambda>_.
     require (su_UnbondingTime p = UnbondingTime) AnteUnauthorized)"

definition consensusParamFilter :: "string list \<Rightarrow> int64 \<Rightarrow> consensus_update \<Rightarrow> ante_err + unit" where
  "consensusParamFilter pubKeyTypes maxBytes p =
     rbind (of_opt AnteConvert (cu_ToProto p)) (\<lambda>(validatorParams, evidence).
     rbind (require (validatorParams = pubKeyTypes) AnteUnauthorized) (\<lambda>_.
     require (evidence = EvidenceParams maxBytes) AnteUnauthorized))"

text \<open>The filter registered for the type of a message, applied to it.\<close>

fun GovParamFilters :: "string list \<Rightarrow> int64 \<Rightarrow> app_msg \<Rightarrow> ante_err + unit" where
  "GovParamFilters pubKeyTypes maxBytes (BankUpdateParams p) = bankParamFilter p"
| "GovParamFilters pubKeyTypes maxBytes (StakingUpdateParams p) = stakingParamFilter p"
| "GovParamFilters pubKeyTypes maxBytes (ConsensusUpdateParams p) = consensusParamFilter pubKeyTypes maxBytes p"
| "GovParamFilters pubKeyTypes maxBytes _ = Inr ()"

fun filter_msgs :: "(app_msg \<Rightarrow> ante_err + unit) \<Rightarrow> app_msg list \<Rightarrow> ante_err + unit" where
  "filter_msgs paramFilters [] = Inr ()"
| "filter_msgs paramFilters (MsgExec None # ms) = Inl AnteUnpack"
| "filter_msgs paramFilters (MsgExec (Some nested) # ms) =
     (if nested = [] then Inl AnteInvalidRequest
      else rbind (filter_msgs paramFilters nested) (\<lambda>_. filter_msgs paramFilters ms))"
| "filter_msgs paramFilters (MsgSubmitProposal None # ms) = Inl AnteUnpack"
| "filter_msgs paramFilters (MsgSubmitProposal (Some nested) # ms) =
     (if nested = [] then Inl AnteInvalidRequest
      else rbind (filter_msgs paramFilters nested) (\<lambda>_. filter_msgs paramFilters ms))"
| "filter_msgs paramFilters (m # ms) = rbind (paramFilters m) (\<lambda>_. filter_msgs paramFilters ms)"

definition ParamFilter_validateMsgs :: "(app_msg \<Rightarrow> ante_err + unit) \<Rightarrow> app_msg list \<Rightarrow> ante_err + unit" where
  "ParamFilter_validateMsgs paramFilters msgs =
     rbind (require (msgs \<noteq> []) AnteInvalidRequest) (\<lambda>_. filter_msgs paramFilters msgs)"

fun param_filter_tx :: "(app_msg \<Rightarrow> ante_err + unit) \<Rightarrow> app_msg list \<Rightarrow> ante_err + unit" where
  "param_filter_tx paramFilters [] = Inr ()"
| "param_filter_tx paramFilters (m # ms) =
     rbind (case m of
              MsgSubmitProposal nested \<Rightarrow> rbind (of_opt AnteUnpack nested) (ParamFilter_validateMsgs paramFilters)
            | MsgExec nested \<Rightarrow> rbind (of_opt AnteUnpack nested) (ParamFilter_validateMsgs paramFilters)
            | _ \<Rightarrow> Inr ()) (\<lambda>_.
     param_filter_tx paramFilters ms)"

definition ParamFilter_AnteHandle ::
  "(app_msg \<Rightarrow> ante_err + unit) \<Rightarrow> 'm ante_handler \<Rightarrow> 'm ante_handler" where
  "ParamFilter_AnteHandle paramFilters next c tx simulate =
     rbind (param_filter_tx paramFilters (tx_Msgs tx)) (\<lambda>_. next c tx simulate)"

section \<open>Blobs\<close>

definition validateEnoughGas :: "gosquare \<Rightarrow> msg_pay_for_blobs \<Rightarrow> uint32 \<Rightarrow> uint64 \<Rightarrow> ante_err + unit" where
  "validateEnoughGas G m gasPerByte txGas =
     rbind (of_opt AntePanic (MsgPayForBlobs_Gas G m gasPerByte)) (\<lambda>gasToConsume.
     require (gasToConsume \<le> txGas) AnteInsufficientFee)"

fun validatePFBHasEnoughGas :: "gosquare \<Rightarrow> uint32 \<Rightarrow> uint64 \<Rightarrow> app_msg list \<Rightarrow> ante_err + unit" where
  "validatePFBHasEnoughGas G gasPerByte txGas [] = Inr ()"
| "validatePFBHasEnoughGas G gasPerByte txGas (MsgExec None # ms) = Inl AnteUnpack"
| "validatePFBHasEnoughGas G gasPerByte txGas (MsgExec (Some nested) # ms) =
     rbind (validatePFBHasEnoughGas G gasPerByte txGas nested) (\<lambda>_. validatePFBHasEnoughGas G gasPerByte txGas ms)"
| "validatePFBHasEnoughGas G gasPerByte txGas (PayForBlobsMsg m # ms) =
     rbind (validateEnoughGas G m gasPerByte txGas) (\<lambda>_. validatePFBHasEnoughGas G gasPerByte txGas ms)"
| "validatePFBHasEnoughGas G gasPerByte txGas (m # ms) = validatePFBHasEnoughGas G gasPerByte txGas ms"

definition MinGasPFB_AnteHandle :: "gosquare \<Rightarrow> 'm gas_meter \<Rightarrow> 'm ante_handler \<Rightarrow> 'm ante_handler" where
  "MinGasPFB_AnteHandle G M next c tx simulate =
     (if a_IsReCheckTx c then next c tx simulate
      else if a_Height c = 0 then next c tx simulate
      else rbind (validatePFBHasEnoughGas G GasPerBlobByte (GasRemaining M (a_Meter c)) (tx_Msgs tx)) (\<lambda>_.
        next c tx simulate))"

fun add_shares :: "gosquare \<Rightarrow> uint32 list \<Rightarrow> uint32 list \<Rightarrow> int64 \<Rightarrow> int64 option" where
  "add_shares G [] versions acc = Some acc"
| "add_shares G (sz # szs) [] acc = None"
| "add_shares G (sz # szs) (v # versions) acc =
     add_shares G szs versions (acc + SparseSharesNeeded G sz (unat v = ShareVersionOne))"

definition getSharesNeeded :: "gosquare \<Rightarrow> uint32 \<Rightarrow> msg_pay_for_blobs \<Rightarrow> int64 option" where
  "getSharesNeeded G txSize m = add_shares G (pfb_BlobSizes m) (pfb_ShareVersions m) (CompactSharesNeeded G txSize)"

definition getMaxSquareSize :: "blob_state \<Rightarrow> string \<Rightarrow> int64" where
  "getMaxSquareSize s chainID =
     i64_min (bp_GovMaxSquareSize (blob_GetParams s)) (GetSquareSizeUpperBound chainID)"

definition getMaxBlobShares :: "blob_state \<Rightarrow> string \<Rightarrow> int64" where
  "getMaxBlobShares s chainID = (let squareSize = getMaxSquareSize s chainID in squareSize * squareSize)"

fun blob_share_msgs :: "gosquare \<Rightarrow> uint32 \<Rightarrow> int64 \<Rightarrow> app_msg list \<Rightarrow> ante_err + unit" where
  "blob_share_msgs G txSize maxBlobShares [] = Inr ()"
| "blob_share_msgs G txSize maxBlobShares (MsgExec None # ms) = Inl AnteUnpack"
| "blob_share_msgs G txSize maxBlobShares (MsgExec (Some nested) # ms) =
     rbind (blob_share_msgs G txSize maxBlobShares nested) (\<lambda>_. blob_share_msgs G txSize maxBlobShares ms)"
| "blob_share_msgs G txSize maxBlobShares (PayForBlobsMsg m # ms) =
     rbind (of_opt AntePanic (getSharesNeeded G txSize m)) (\<lambda>sharesNeeded.
     rbind (require (\<not> sint maxBlobShares < sint sharesNeeded) AnteBlobsTooLarge) (\<lambda>_.
     blob_share_msgs G txSize maxBlobShares ms))"
| "blob_share_msgs G txSize maxBlobShares (m # ms) = blob_share_msgs G txSize maxBlobShares ms"

definition BlobShare_AnteHandle :: "gosquare \<Rightarrow> blob_state \<Rightarrow> 'm ante_handler \<Rightarrow> 'm ante_handler" where
  "BlobShare_AnteHandle G s next c tx simulate =
     (if \<not> a_IsCheckTx c then next c tx simulate
      else rbind (require (length (a_TxBytes c) \<le> 2 ^ 32 - 1) AnteBlobsTooLarge) (\<lambda>_.
        rbind (blob_share_msgs G (of_nat (length (a_TxBytes c))) (getMaxBlobShares s (a_ChainID c)) (tx_Msgs tx)) (\<lambda>_.
        next c tx simulate)))"

section \<open>Fibre signatures\<close>

definition payForFibreMessage :: "app_tx \<Rightarrow> msg_pay_for_fibre option" where
  "payForFibreMessage tx = (case tx_Msgs tx of [PayForFibreMsg m] \<Rightarrow> Some m | _ \<Rightarrow> None)"

definition FibreSignatureGas_AnteHandle :: "'m gas_meter \<Rightarrow> 'm ante_handler \<Rightarrow> 'm ante_handler" where
  "FibreSignatureGas_AnteHandle M next c tx simulate =
     (case payForFibreMessage tx of
        None \<Rightarrow> next c tx simulate
      | Some m \<Rightarrow>
          rbind (of_opt AnteOutOfGas (ConsumeGas M (a_Meter c)
                  (EstimateGasForPayForFibreSignatureVerification (of_nat (length (pf_ValidatorSignatures m)))))) (\<lambda>meter.
          next (c\<lparr>a_Meter := meter\<rparr>) tx simulate))"

definition pffSigCacheKey :: "sdk \<Rightarrow> bytes \<Rightarrow> bytes" where
  "pffSigCacheKey E tx = sha256 E tx"

definition pff_IsCached :: "sdk \<Rightarrow> bytes set \<Rightarrow> bytes \<Rightarrow> bool" where
  "pff_IsCached E cache tx \<longleftrightarrow> pffSigCacheKey E tx \<in> cache"

definition pff_Cache :: "sdk \<Rightarrow> bytes \<Rightarrow> bytes set \<Rightarrow> bytes set" where
  "pff_Cache E tx cache = insert (pffSigCacheKey E tx) cache"

definition pff_Delete :: "sdk \<Rightarrow> bytes \<Rightarrow> bytes set \<Rightarrow> bytes set" where
  "pff_Delete E tx cache = cache - {pffSigCacheKey E tx}"

definition FibreSignatureVerification_AnteHandle ::
  "sdk \<Rightarrow> (msg_pay_for_fibre \<Rightarrow> sig_err + unit) \<Rightarrow> 'm ante_handler \<Rightarrow> 'm ante_handler" where
  "FibreSignatureVerification_AnteHandle E validateSignatures next c tx simulate =
     (case payForFibreMessage tx of
        None \<Rightarrow> next c tx simulate
      | Some m \<Rightarrow>
          if simulate then next c tx simulate
          else
            let rawTx = a_TxBytes c in
            if rawTx \<noteq> [] \<and> pff_IsCached E (a_SigCache c) rawTx then next c tx simulate
            else
              rbind (case validateSignatures m of Inl e \<Rightarrow> Inl (AnteSignature e) | Inr _ \<Rightarrow> Inr ()) (\<lambda>_.
              next (if rawTx \<noteq> [] then c\<lparr>a_SigCache := pff_Cache E rawTx (a_SigCache c)\<rparr> else c) tx simulate))"

text \<open>\<open>FinalizeBlock\<close> forgets the transactions of the block.\<close>

definition finalize_sig_cache :: "sdk \<Rightarrow> bytes list \<Rightarrow> bytes set \<Rightarrow> bytes set" where
  "finalize_sig_cache E txs cache = fold (pff_Delete E) txs cache"

end
