(* ===== verification/AnteChecks.thy ===== *)
theory AnteChecks
  imports Ante
begin

text \<open>
  What the ante handler guarantees: nothing hides in containers, fees meet the minimum gas price, the gas for blobs is
  checked exactly, and the cache of checked signatures is sound.
\<close>

section \<open>Messages inside containers\<close>

text \<open>\<open>unpacks m ns\<close>: the message \<open>m\<close> is a container and \<open>ns\<close> is what it holds; \<open>wrapped ms m\<close>: the message \<open>m\<close> sits in a
  container of \<open>ms\<close>, at any depth.\<close>

fun unpacks :: "app_msg \<Rightarrow> app_msg list option option" where
  "unpacks (MsgExec ns) = Some ns"
| "unpacks (MsgSubmitProposal ns) = Some ns"
| "unpacks _ = None"

inductive wrapped :: "app_msg list \<Rightarrow> app_msg \<Rightarrow> bool" where
  wrapped_here: "w \<in> set ms \<Longrightarrow> unpacks w = Some (Some ns) \<Longrightarrow> m \<in> set ns \<Longrightarrow> wrapped ms m"
| wrapped_deeper: "w \<in> set ms \<Longrightarrow> unpacks w = Some (Some ns) \<Longrightarrow> wrapped ns m \<Longrightarrow> wrapped ms m"

inductive_simps wrapped_Nil: "wrapped [] m"

lemma wrapped_Cons:
  "wrapped (w # ms) m \<longleftrightarrow> (\<exists>ns. unpacks w = Some (Some ns) \<and> (m \<in> set ns \<or> wrapped ns m)) \<or> wrapped ms m"
proof
  assume "wrapped (w # ms) m"
  then show "(\<exists>ns. unpacks w = Some (Some ns) \<and> (m \<in> set ns \<or> wrapped ns m)) \<or> wrapped ms m"
    by (cases rule: wrapped.cases) (auto intro: wrapped.intros)
next
  assume "(\<exists>ns. unpacks w = Some (Some ns) \<and> (m \<in> set ns \<or> wrapped ns m)) \<or> wrapped ms m"
  then show "wrapped (w # ms) m"
  proof
    assume "wrapped ms m"
    then show ?thesis by (cases rule: wrapped.cases) (auto intro: wrapped.intros)
  qed (auto intro: wrapped.intros)
qed

lemma rejectWrapped_iff: "rejectWrapped ms = Inr () \<longleftrightarrow> (\<forall>m\<in>set ms. \<not> is_wrapper_or_paid m)"
  by (induction ms) auto

lemma is_wrapper_unpacks: "unpacks m \<noteq> None \<Longrightarrow> is_wrapper_or_paid m"
  by (cases m) auto

lemma nested_msgs_ok_D:
  assumes "nested_msgs_ok ms = Inr ()" and "w \<in> set ms" and "unpacks w = Some (Some ns)" and "m \<in> set ns"
  shows "\<not> is_wrapper_or_paid m"
  using assms
proof (induction ms)
  case (Cons x ms)
  show ?case
  proof (cases "w = x")
    case True
    then show ?thesis using Cons.prems by (cases x) (auto simp: rejectWrapped_iff)
  next
    case False
    then show ?thesis using Cons by auto
  qed
qed simp

lemma nested_ok_wrapped:
  assumes "wrapped ms m" and "nested_msgs_ok ms = Inr ()"
  shows "\<not> is_wrapper_or_paid m"
  using assms
proof (cases rule: wrapped.cases)
  case (wrapped_here w ns)
  then show ?thesis using nested_msgs_ok_D assms(2) by blast
next
  case (wrapped_deeper w ns)
  have "\<not> is_wrapper_or_paid x" if "x \<in> set ns" for x
    using nested_msgs_ok_D [OF assms(2) wrapped_deeper(1,2) that] .
  moreover obtain x ks where "x \<in> set ns" "unpacks x = Some (Some ks)"
    using wrapped_deeper(3) by (cases rule: wrapped.cases) auto
  ultimately show ?thesis using is_wrapper_unpacks by (metis option.distinct(1))
qed

text \<open>A list of messages the filters accept: containers unpack and are not empty, everything else passes its filter, at
  any depth.\<close>

definition screened :: "(app_msg \<Rightarrow> ante_err + unit) \<Rightarrow> app_msg \<Rightarrow> bool" where
  "screened F m \<longleftrightarrow> (case unpacks m of None \<Rightarrow> F m = Inr () | Some None \<Rightarrow> False | Some (Some ns) \<Rightarrow> ns \<noteq> [])"

lemma filter_msgs_iff:
  "filter_msgs F ms = Inr () \<longleftrightarrow> (\<forall>m. m \<in> set ms \<or> wrapped ms m \<longrightarrow> screened F m)"
proof (induction F ms rule: filter_msgs.induct)
  case (1 F)
  then show ?case by (simp add: wrapped_Nil)
next
  case (3 F ns ms)
  then show ?case by (cases "ns = []") (auto simp: wrapped_Cons screened_def)
next
  case (5 F ns ms)
  then show ?case by (cases "ns = []") (auto simp: wrapped_Cons screened_def)
qed (auto simp: wrapped_Cons screened_def)

lemma param_filter_tx_iff:
  "param_filter_tx F ms = Inr () \<longleftrightarrow>
     (\<forall>m\<in>set ms. unpacks m \<noteq> None \<longrightarrow> screened F m) \<and> (\<forall>m. wrapped ms m \<longrightarrow> screened F m)"
proof (induction ms)
  case (Cons w ms)
  have "(case w of MsgSubmitProposal nested \<Rightarrow> rbind (of_opt AnteUnpack nested) (ParamFilter_validateMsgs F)
            | MsgExec nested \<Rightarrow> rbind (of_opt AnteUnpack nested) (ParamFilter_validateMsgs F)
            | _ \<Rightarrow> Inr ()) = Inr () \<longleftrightarrow>
      (unpacks w \<noteq> None \<longrightarrow> screened F w) \<and>
      (\<forall>ns m. unpacks w = Some (Some ns) \<longrightarrow> m \<in> set ns \<or> wrapped ns m \<longrightarrow> screened F m)"
    by (cases w) (auto simp: ParamFilter_validateMsgs_def screened_def [of F "MsgExec _"]
        screened_def [of F "MsgSubmitProposal _"] filter_msgs_iff split: option.splits)
  then show ?case using Cons by (auto simp: wrapped_Cons)
qed (simp add: wrapped_Nil)

text \<open>C28: The parameter filter looks at every message a transaction can execute through a container: it lets a
  transaction through exactly when every container, at any depth, unpacks and is not empty, and every other wrapped
  message passes the filter of its type.\<close>

theorem param_filter_sees_every_depth:
  "ParamFilter_AnteHandle F next c tx simulate =
     (if (\<forall>m\<in>set (tx_Msgs tx). unpacks m \<noteq> None \<longrightarrow> screened F m) \<and> (\<forall>m. wrapped (tx_Msgs tx) m \<longrightarrow> screened F m)
      then next c tx simulate
      else Inl (projl (param_filter_tx F (tx_Msgs tx))))"
proof (cases "param_filter_tx F (tx_Msgs tx)")
  case (Inl e)
  then have "\<not> param_filter_tx F (tx_Msgs tx) = Inr ()" by simp
  then show ?thesis using Inl param_filter_tx_iff [of F "tx_Msgs tx"] by (auto simp: ParamFilter_AnteHandle_def)
next
  case (Inr u)
  then have "param_filter_tx F (tx_Msgs tx) = Inr ()" by simp
  then show ?thesis using param_filter_tx_iff [of F "tx_Msgs tx"] by (simp add: ParamFilter_AnteHandle_def)
qed

text \<open>C27: After the two message decorators no payment for blobs or for fibre can hide in a container, at any depth, no
  container holds another, and every parameter update a container carries respects the parameters that only a hard
  fork may change.\<close>

theorem containers_cannot_smuggle:
  assumes "NestedMsg_AnteHandle next c tx simulate = Inr c1"
    and "ParamFilter_AnteHandle (GovParamFilters pubKeyTypes maxBytes) next' c' tx simulate = Inr c2"
    and "wrapped (tx_Msgs tx) m"
  shows "case m of
      PayForBlobsMsg _ \<Rightarrow> False | PayForFibreMsg _ \<Rightarrow> False | MsgExec _ \<Rightarrow> False | MsgSubmitProposal _ \<Rightarrow> False
    | BankUpdateParams p \<Rightarrow> bu_SendEnabled p = 0 \<and> bu_DefaultSendEnabled p
    | StakingUpdateParams p \<Rightarrow> su_BondDenom p = ''utia'' \<and> su_UnbondingTime p = 337 * hour
    | ConsensusUpdateParams p \<Rightarrow> \<exists>ev. cu_ToProto p = Some (pubKeyTypes, ev) \<and>
        ev_MaxAgeDuration ev = 337 * hour \<and> ev_MaxAgeNumBlocks ev = 404400
    | OtherMsg _ \<Rightarrow> True"
proof -
  have "nested_msgs_ok (tx_Msgs tx) = Inr ()" using assms(1) by (simp add: NestedMsg_AnteHandle_def)
  then have free: "\<not> is_wrapper_or_paid m" using nested_ok_wrapped assms(3) by blast
  have "param_filter_tx (GovParamFilters pubKeyTypes maxBytes) (tx_Msgs tx) = Inr ()"
    using assms(2) by (simp add: ParamFilter_AnteHandle_def)
  then have "screened (GovParamFilters pubKeyTypes maxBytes) m" using assms(3) by (simp add: param_filter_tx_iff)
  then show ?thesis
    using free by (cases m)
      (auto simp: screened_def bankParamFilter_def stakingParamFilter_def consensusParamFilter_def UnbondingTime_def
        EvidenceParams_def MaxAgeDuration_def MaxAgeNumBlocks_def)
qed

definition ref_tx :: app_tx where
  "ref_tx = \<lparr>tx_Msgs = [MsgExec (Some [StakingUpdateParams \<lparr>su_BondDenom = ''utia'', su_UnbondingTime = 337 * hour\<rparr>])],
     tx_IsFeeTx = True, tx_Fee = [\<lparr>denom = ''utia'', amount = 2000\<rparr>], tx_Gas = 100000, tx_IsSigTx = True,
     tx_Signatures = Some []\<rparr>"

definition ref_ante_ctx :: "unit ante_ctx" where
  "ref_ante_ctx = \<lparr>a_ChainID = ''test'', a_Height = 1, a_IsCheckTx = False, a_IsReCheckTx = False, a_TxBytes = [1],
     a_MinGasPrices = [], a_Meter = (), a_SigCache = {}\<rparr>"

theorem param_filter_sees_every_depth_witness:
  "ParamFilter_AnteHandle (GovParamFilters [] 0) (\<lambda>c _ _. Inr c) ref_ante_ctx ref_tx False = Inr ref_ante_ctx"
proof -
  let ?F = "GovParamFilters [] 0"
  let ?m = "StakingUpdateParams \<lparr>su_BondDenom = ''utia'', su_UnbondingTime = 337 * hour\<rparr>"
  have top: "screened ?F m" if "m \<in> set (tx_Msgs ref_tx)" for m
    using that by (simp add: ref_tx_def screened_def)
  have deep: "screened ?F m" if "wrapped (tx_Msgs ref_tx) m" for m
  proof -
    have "m = ?m" using that by (simp add: ref_tx_def wrapped_Cons wrapped_Nil)
    then show ?thesis by (simp add: screened_def stakingParamFilter_def UnbondingTime_def)
  qed
  show ?thesis
    using param_filter_sees_every_depth [of ?F "\<lambda>c _ _. Inr c" ref_ante_ctx ref_tx False] top deep by simp
qed

theorem containers_cannot_smuggle_witness:
  "NestedMsg_AnteHandle (\<lambda>c _ _. Inr c) ref_ante_ctx ref_tx False = Inr ref_ante_ctx \<and>
   su_UnbondingTime \<lparr>su_BondDenom = ''utia'', su_UnbondingTime = 337 * hour\<rparr> = 337 * hour"
proof -
  let ?m = "StakingUpdateParams \<lparr>su_BondDenom = ''utia'', su_UnbondingTime = 337 * hour\<rparr>"
  have a: "NestedMsg_AnteHandle (\<lambda>c _ _. Inr c) ref_ante_ctx ref_tx False = Inr ref_ante_ctx"
    by (simp add: NestedMsg_AnteHandle_def ref_tx_def)
  have b: "ParamFilter_AnteHandle (GovParamFilters [] 0) (\<lambda>c _ _. Inr c) ref_ante_ctx ref_tx False = Inr ref_ante_ctx"
    by (simp add: ParamFilter_AnteHandle_def ParamFilter_validateMsgs_def ref_tx_def stakingParamFilter_def
        UnbondingTime_def)
  have c: "wrapped (tx_Msgs ref_tx) ?m" by (simp add: ref_tx_def wrapped_Cons)
  show ?thesis using a containers_cannot_smuggle [OF a b c] by simp
qed

section \<open>Fees\<close>

lemma verifyMinFee_exact:
  assumes D: "dec_laws D" and p: "0 \<le> price" and fits: "dec_fits (price * uint gas)"
  shows "verifyMinFee D fee gas price =
    (if price * uint gas \<le> fee * dec_one then Inr () else Inl AnteInsufficientFee)"
proof -
  let ?x = "price * uint gas"
  have x: "0 \<le> ?x" using p by simp
  have run: "verifyMinFee D fee gas price = require (\<not> fee < - ((- ?x) div dec_one)) AnteInsufficientFee"
    unfolding verifyMinFee_def Let_def dec_exact(3) [OF D fits] of_opt_simps rbind.simps
      dec_exact(6) [OF D] dec_exact(7) [OF D] ceil_to_int [OF x] ..
  have "\<not> fee < - ((- ?x) div dec_one) \<longleftrightarrow> ?x \<le> fee * dec_one"
    using ceil_to_int_bounds [of ?x] by linarith
  then show ?thesis unfolding run by (simp add: require_def)
qed

text \<open>The prices a fee is held against: on the check path the price of the node, if it is not zero, and always the network's.\<close>

definition node_price :: "dec_ops \<Rightarrow> 'm ante_ctx \<Rightarrow> dec" where
  "node_price D c = (if a_MinGasPrices c \<noteq> [] then DecAmountOf (a_MinGasPrices c) ''utia'' else LegacyNewDecWithPrec D 4000 6)"

definition gas_prices :: "dec_ops \<Rightarrow> minfee_state \<Rightarrow> 'm ante_ctx \<Rightarrow> dec list" where
  "gas_prices D mf c =
     (if a_IsCheckTx c \<and> node_price D c \<noteq> 0 then [node_price D c] else []) @ [mf_NetworkMinGasPrice (minfee_GetParams mf)]"

text \<open>The fees whose priority can be computed.\<close>

definition priority_ok :: "coin list \<Rightarrow> int64 \<Rightarrow> bool" where
  "priority_ok cs gas \<longleftrightarrow> cs = [] \<or> gas \<noteq> 0 \<and> (\<forall>c\<in>set cs. \<bar>amount c * 1000000\<bar> < 2 ^ 256)"

lemma tx_priority_some: "(\<exists>p. tx_priority cs gas q = Some p) \<longleftrightarrow> priority_ok cs gas"
  by (induction cs arbitrary: q) (auto simp: priority_ok_def priorityScalingFactor_def Let_def not_le)

lemma validate_fee_run:
  assumes D: "dec_laws D" and tx: "tx_IsFeeTx tx"
    and prices: "\<forall>p\<in>set (gas_prices D mf c). 0 \<le> p \<and> dec_fits (p * uint (tx_Gas tx))"
  shows "ValidateTxFee D mf c tx =
    (if \<exists>p\<in>set (gas_prices D mf c). AmountOf (tx_Fee tx) ''utia'' * dec_one < p * uint (tx_Gas tx)
     then Inl AnteInsufficientFee
     else rbind (of_opt AntePanic (getTxPriority (tx_Fee tx) (tx_Gas tx))) (\<lambda>priority.
          rbind (of_opt AntePanic (Int_Int64 (AmountOf (tx_Fee tx) ''utia''))) (\<lambda>_. Inr (tx_Fee tx, priority))))"
proof -
  let ?fee = "AmountOf (tx_Fee tx) ''utia''" and ?net = "mf_NetworkMinGasPrice (minfee_GetParams mf)"
  have net: "verifyMinFee D ?fee (tx_Gas tx) ?net =
      (if ?net * uint (tx_Gas tx) \<le> ?fee * dec_one then Inr () else Inl AnteInsufficientFee)"
    using prices by (intro verifyMinFee_exact [OF D]) (simp_all add: gas_prices_def)
  have node: "verifyMinFee D ?fee (tx_Gas tx) (node_price D c) =
      (if node_price D c * uint (tx_Gas tx) \<le> ?fee * dec_one then Inr () else Inl AnteInsufficientFee)"
    if "a_IsCheckTx c" "node_price D c \<noteq> 0"
    using prices that by (intro verifyMinFee_exact [OF D]) (simp_all add: gas_prices_def)
  show ?thesis
    using net node tx by (auto simp: ValidateTxFee_def node_price_def [symmetric] gas_prices_def Let_def)
qed

text \<open>C29: The outcome of the fee check is determined. A transaction is refused for its fee exactly when fee divided by gas
  limit is below the network's minimum gas price or, when the transaction is checked for the mempool, below the nonzero
  price of the node, computed without rounding. Every other transaction is accepted with its whole fee and the priority of
  the loop, which for a single coin is a million times the gas price rounded down, or zero if that does not fit; only a
  zero gas limit with a fee, an amount whose scaled value exceeds 256 bits, and a fee beyond 64 bits panic.\<close>

theorem network_min_gas_price_enforced:
  assumes D: "dec_laws D" and tx: "tx_IsFeeTx tx"
    and prices: "\<forall>p\<in>set (gas_prices D mf c). 0 \<le> p \<and> dec_fits (p * uint (tx_Gas tx))"
  shows "ValidateTxFee D mf c tx =
      (if \<exists>p\<in>set (gas_prices D mf c). AmountOf (tx_Fee tx) ''utia'' * 10 ^ 18 < p * uint (tx_Gas tx)
       then Inl AnteInsufficientFee
       else if priority_ok (tx_Fee tx) (tx_Gas tx) \<and> i64_range (AmountOf (tx_Fee tx) ''utia'')
       then Inr (tx_Fee tx, the (getTxPriority (tx_Fee tx) (tx_Gas tx)))
       else Inl AntePanic) \<and>
    (\<forall>fee. tx_Fee tx = [fee] \<longrightarrow> priority_ok [fee] (tx_Gas tx) \<longrightarrow>
      getTxPriority [fee] (tx_Gas tx) =
        Some (let q = quot (amount fee * 1000000) (sint (tx_Gas tx)) in if i64_range q then i64 q else 0))"
proof (intro conjI allI impI)
  have pow: "(10::int) ^ 18 = dec_one" by simp
  show "ValidateTxFee D mf c tx =
      (if \<exists>p\<in>set (gas_prices D mf c). AmountOf (tx_Fee tx) ''utia'' * 10 ^ 18 < p * uint (tx_Gas tx)
       then Inl AnteInsufficientFee
       else if priority_ok (tx_Fee tx) (tx_Gas tx) \<and> i64_range (AmountOf (tx_Fee tx) ''utia'')
       then Inr (tx_Fee tx, the (getTxPriority (tx_Fee tx) (tx_Gas tx)))
       else Inl AntePanic)"
    unfolding pow validate_fee_run [OF assms] tx_priority_some [of _ _ 0, symmetric]
    by (cases "getTxPriority (tx_Fee tx) (tx_Gas tx)") (auto simp: Int_Int64_def getTxPriority_def)
next
  fix fee assume "priority_ok [fee] (tx_Gas tx)"
  then show "getTxPriority [fee] (tx_Gas tx) =
      Some (let q = quot (amount fee * 1000000) (sint (tx_Gas tx)) in if i64_range q then i64 q else 0)"
    by (auto simp: getTxPriority_def priority_ok_def priorityScalingFactor_def Let_def)
qed

theorem network_min_gas_price_enforced_witness:
  "ValidateTxFee ref_dec \<lparr>mfs_Params = Some minfee_DefaultParams, mfs_Legacy = minfee_DefaultParams\<rparr> ref_ante_ctx
     (ref_tx\<lparr>tx_Fee := []\<rparr>) = Inl AnteInsufficientFee \<and>
   ValidateTxFee ref_dec \<lparr>mfs_Params = Some minfee_DefaultParams, mfs_Legacy = minfee_DefaultParams\<rparr> ref_ante_ctx
     (ref_tx\<lparr>tx_Fee := [\<lparr>denom = ''utia'', amount = 1\<rparr>]\<rparr>) = Inr ([\<lparr>denom = ''utia'', amount = 1\<rparr>], 10)"
proof -
  let ?mf = "\<lparr>mfs_Params = Some minfee_DefaultParams, mfs_Legacy = minfee_DefaultParams\<rparr>"
  let ?no = "ref_tx\<lparr>tx_Fee := []\<rparr>" and ?one = "ref_tx\<lparr>tx_Fee := [\<lparr>denom = ''utia'', amount = 1\<rparr>]\<rparr>"
  have prices: "gas_prices ref_dec ?mf ref_ante_ctx = [1000000000000]"
    by (simp add: gas_prices_def ref_ante_ctx_def minfee_GetParams_def minfee_DefaultParams_def DefaultNetworkMinGasPrice_def)
  have gas: "tx_Gas ref_tx = 100000" "tx_IsFeeTx ref_tx" by (simp_all add: ref_tx_def)
  have fee: "AmountOf [] ''utia'' = 0" "AmountOf [\<lparr>denom = ''utia'', amount = 1\<rparr>] ''utia'' = 1" by (simp_all add: AmountOf_def)
  have fits: "\<forall>p\<in>set (gas_prices ref_dec ?mf ref_ante_ctx). 0 \<le> p \<and> dec_fits (p * uint (tx_Gas ref_tx))"
    unfolding prices gas by (simp add: dec_fits_def)
  show ?thesis
    using network_min_gas_price_enforced [OF ref_dec_laws, of ?no ?mf ref_ante_ctx]
      network_min_gas_price_enforced [OF ref_dec_laws, of ?one ?mf ref_ante_ctx] fits
    unfolding prices by (simp add: gas fee priority_ok_def i64_range_def quot_def Let_def)
qed

section \<open>Gas for blobs\<close>

text \<open>The payments for blobs the gas check visits, inside authz executions at every depth; \<open>None\<close> if one cannot be unpacked.\<close>

fun paid_blobs :: "app_msg list \<Rightarrow> msg_pay_for_blobs list option" where
  "paid_blobs [] = Some []"
| "paid_blobs (MsgExec None # ms) = None"
| "paid_blobs (MsgExec (Some nested) # ms) =
     (case paid_blobs nested of None \<Rightarrow> None | Some xs \<Rightarrow> map_option ((@) xs) (paid_blobs ms))"
| "paid_blobs (PayForBlobsMsg m # ms) = map_option ((#) m) (paid_blobs ms)"
| "paid_blobs (m # ms) = paid_blobs ms"

text \<open>
  The number of shares of the blobs of a message, as an integer. go-square fits at least one byte in a share after the
  first, and a share has 512 bytes; a message of at most \<open>MaxTxSize\<close> bytes describes fewer than \<open>2 ^ 18\<close> blobs.
\<close>

definition exact_shares :: "gosquare \<Rightarrow> msg_pay_for_blobs \<Rightarrow> int" where
  "exact_shares G m =
     (\<Sum>(sz, v)\<leftarrow>zip (pfb_BlobSizes m) (pfb_ShareVersions m). uint (SparseSharesNeeded G sz (unat v = ShareVersionOne)))"

definition share_law :: "gosquare \<Rightarrow> bool" where
  "share_law G \<longleftrightarrow> ShareSize G = 512 \<and> (\<forall>sz signer. uint (SparseSharesNeeded G sz signer) \<le> uint sz + 1)"

definition shaped :: "msg_pay_for_blobs \<Rightarrow> bool" where
  "shaped m \<longleftrightarrow> length (pfb_BlobSizes m) = length (pfb_ShareVersions m) \<and> length (pfb_BlobSizes m) \<le> 2 ^ 18"

lemma shares_sum_bound:
  assumes "share_law G"
  shows "0 \<le> (\<Sum>(sz, v)\<leftarrow>xs. uint (SparseSharesNeeded G sz (f v)))"
    and "(\<Sum>(sz, v)\<leftarrow>xs. uint (SparseSharesNeeded G sz (f v))) \<le> int (length xs) * 2 ^ 32"
proof -
  have one: "uint (SparseSharesNeeded G sz b) \<le> 2 ^ 32" for sz b
  proof -
    have "uint sz < 2 ^ 32" using uint_lt2p [of sz] by simp
    moreover have "uint (SparseSharesNeeded G sz b) \<le> uint sz + 1" using assms by (simp add: share_law_def)
    ultimately show ?thesis by linarith
  qed
  show "0 \<le> (\<Sum>(sz, v)\<leftarrow>xs. uint (SparseSharesNeeded G sz (f v)))"
    by (intro sum_list_nonneg) auto
  show "(\<Sum>(sz, v)\<leftarrow>xs. uint (SparseSharesNeeded G sz (f v))) \<le> int (length xs) * 2 ^ 32"
  proof (induction xs)
    case (Cons x xs)
    obtain sz v where "x = (sz, v)" by (cases x)
    then show ?case using Cons one [of sz "f v"] by (simp add: algebra_simps)
  qed simp
qed

lemma shares_used_exact:
  assumes "share_law G"
  shows "length szs = length vs \<Longrightarrow>
    uint used + (\<Sum>(sz, v)\<leftarrow>zip szs vs. uint (SparseSharesNeeded G sz (unat v = ShareVersionOne))) < 2 ^ 64 \<Longrightarrow>
    \<exists>u. shares_used G szs vs used = Some u \<and>
      uint u = uint used + (\<Sum>(sz, v)\<leftarrow>zip szs vs. uint (SparseSharesNeeded G sz (unat v = ShareVersionOne)))"
proof (induction szs vs arbitrary: used rule: list_induct2)
  case (Cons sz szs v vs)
  let ?n = "SparseSharesNeeded G sz (unat v = ShareVersionOne)"
  let ?s = "\<Sum>(sz, v)\<leftarrow>zip szs vs. uint (SparseSharesNeeded G sz (unat v = ShareVersionOne))"
  have "0 \<le> ?s" by (rule shares_sum_bound(1) [OF assms])
  then have "uint used + uint ?n < 2 ^ 64" using Cons.prems by simp
  then have "uint (used + ?n) = uint used + uint ?n" by (simp add: uint_word_ariths take_bit_int_eq_self)
  then show ?case using Cons.IH [of "used + ?n"] Cons.prems by (simp add: add.assoc)
qed simp

lemma gas_exact:
  assumes G: "share_law G" and m: "shaped m"
  obtains gas where "MsgPayForBlobs_Gas G m GasPerBlobByte = Some gas" and "uint gas = 4096 * exact_shares G m"
proof -
  let ?xs = "zip (pfb_BlobSizes m) (pfb_ShareVersions m)"
  have len: "int (length ?xs) \<le> 2 ^ 18" using m by (simp add: shaped_def)
  have s: "0 \<le> exact_shares G m" "exact_shares G m \<le> int (length ?xs) * 2 ^ 32"
    unfolding exact_shares_def by (rule shares_sum_bound(1) [OF G], rule shares_sum_bound(2) [OF G])
  have "int (length ?xs) * 2 ^ 32 \<le> 2 ^ 18 * 2 ^ 32" using len by (intro mult_right_mono) simp_all
  then have b: "exact_shares G m \<le> 2 ^ 50" using s(2) by simp
  obtain u where u: "shares_used G (pfb_BlobSizes m) (pfb_ShareVersions m) 0 = Some u" "uint u = exact_shares G m"
    using shares_used_exact [OF G, of "pfb_BlobSizes m" "pfb_ShareVersions m" 0] m b by (auto simp: shaped_def exact_shares_def)
  have "uint (u * 512) = uint u * 512" using u(2) s(1) b by (simp add: uint_word_ariths take_bit_int_eq_self)
  then have "uint (u * 512 * 8) = 4096 * exact_shares G m"
    using u(2) s(1) b by (simp add: uint_word_ariths take_bit_int_eq_self)
  moreover have "MsgPayForBlobs_Gas G m GasPerBlobByte = Some (u * 512 * 8)"
    using u(1) G by (simp add: MsgPayForBlobs_Gas_def GasToConsume_def GasPerBlobByte_def share_law_def)
  ultimately show ?thesis using that by blast
qed

lemma enough_gas_exact:
  assumes "share_law G" and "shaped m"
  shows "validateEnoughGas G m GasPerBlobByte gas =
    (if 4096 * exact_shares G m \<le> uint gas then Inr () else Inl AnteInsufficientFee)"
  using gas_exact [OF assms] by (metis (no_types, lifting) of_opt_simps(1) rbind.simps(2) require_def validateEnoughGas_def
      word_le_def)

lemma enough_gas_msgs:
  assumes "share_law G"
  shows "paid_blobs ms = Some xs \<Longrightarrow> \<forall>m\<in>set xs. shaped m \<Longrightarrow>
    validatePFBHasEnoughGas G GasPerBlobByte gas ms =
      (if \<forall>m\<in>set xs. 4096 * exact_shares G m \<le> uint gas then Inr () else Inl AnteInsufficientFee)"
  by (induction ms arbitrary: xs rule: paid_blobs.induct) (auto simp: enough_gas_exact [OF assms] split: option.splits)

text \<open>C30: Blob gas is checked exactly: outside rechecks and genesis the minimum-gas decorator passes a transaction on exactly if
  every payment for blobs in it, inside authz executions at any depth, costs at most the gas that remains at that point, 8
  gas for each of the 512 bytes of each share its blobs occupy, computed without wrapping around; otherwise it refuses
  with an insufficient fee.\<close>

theorem min_gas_check_exact:
  assumes "share_law G" and "\<not> a_IsReCheckTx c" and "a_Height c \<noteq> 0"
    and "paid_blobs (tx_Msgs tx) = Some ms" and "\<forall>m\<in>set ms. shaped m"
  shows "MinGasPFB_AnteHandle G M next c tx simulate =
    (if \<forall>m\<in>set ms. 8 * (512 * exact_shares G m) \<le> uint (GasRemaining M (a_Meter c)) then next c tx simulate
     else Inl AnteInsufficientFee)"
  using enough_gas_msgs [OF assms(1,4,5)] assms(2,3) by (simp add: MinGasPFB_AnteHandle_def)

definition ref_meter :: "uint64 gas_meter" where
  "ref_meter = \<lparr>ConsumeGas = (\<lambda>m a. if a \<le> m then Some (m - a) else None), GasRemaining = (\<lambda>m. m)\<rparr>"

definition ref_square :: gosquare where
  "ref_square = \<lparr>SparseSharesNeeded = (\<lambda>n _. ucast n div 478 + 1), CompactSharesNeeded = (\<lambda>n. ucast n div 474 + 1),
     ShareSize = 512, ns_IsReserved = (\<lambda>_. False), ns_Version = (\<lambda>_. 0), SupportedBlobNamespaceVersions = [0],
     CreateCommitments = (\<lambda>bs _. Some (map (\<lambda>b. ref_pad 32 (bl_Data b)) bs)),
     CreateParallelCommitments = (\<lambda>bs _. Some (map (\<lambda>b. ref_pad 32 (bl_Data b)) bs)),
     NewV0Blob_share = (\<lambda>ns d. Some \<lparr>bl_Namespace = ns, bl_Data = d, bl_ShareVersion = 0, bl_Signer = []\<rparr>),
     NewV1Blob_share = (\<lambda>ns d s. Some \<lparr>bl_Namespace = ns, bl_Data = d, bl_ShareVersion = 1, bl_Signer = s\<rparr>),
     IsPowerOfTwo = (\<lambda>n. n \<in> {1, 2, 4, 8, 16, 32, 64, 128, 256, 512, 1024})\<rparr>"

definition ref_pfb :: msg_pay_for_blobs where
  "ref_pfb = \<lparr>pfb_Signer = ''abc'', pfb_Namespaces = [replicate 29 0], pfb_BlobSizes = [100],
     pfb_ShareCommitments = [replicate 32 0], pfb_ShareVersions = [0]\<rparr>"

lemma ref_share_law: "share_law ref_square"
proof -
  have "uint (ucast sz div 478 + 1 :: int64) \<le> uint sz + 1" for sz :: uint32
  proof -
    have lt: "uint sz < 2 ^ 32" using uint_lt2p [of sz] by simp
    have "uint sz div 478 \<le> uint sz" by (simp add: int_div_le_self)
    moreover have "0 \<le> uint sz div 478" by (simp add: pos_imp_zdiv_nonneg_iff)
    ultimately have q: "uint (ucast sz div 478 :: int64) = uint sz div 478"
      using lt by (simp add: uint_div uint_up_ucast is_up_def source_size_def target_size_def word_size)
    then have "uint (ucast sz div 478 + 1 :: int64) = uint sz div 478 + 1"
      using lt \<open>uint sz div 478 \<le> uint sz\<close> \<open>0 \<le> uint sz div 478\<close> by (simp add: uint_word_ariths take_bit_int_eq_self)
    then show ?thesis using \<open>uint sz div 478 \<le> uint sz\<close> by simp
  qed
  then show ?thesis by (simp add: share_law_def ref_square_def)
qed

lemma ref_pfb_shares: "exact_shares ref_square ref_pfb = 1" "shaped ref_pfb"
  by (simp_all add: exact_shares_def shaped_def ref_square_def ref_pfb_def ShareVersionOne_def)

text \<open>A hundred bytes take one share and 4096 gas.\<close>

definition ref_gas_ctx :: "uint64 \<Rightarrow> uint64 ante_ctx" where
  "ref_gas_ctx gas = \<lparr>a_ChainID = ''test'', a_Height = 1, a_IsCheckTx = False, a_IsReCheckTx = False, a_TxBytes = [1],
     a_MinGasPrices = [], a_Meter = gas, a_SigCache = {}\<rparr>"

theorem min_gas_check_exact_witness:
  "MinGasPFB_AnteHandle ref_square ref_meter (\<lambda>c _ _. Inr c) (ref_gas_ctx 4096) (ref_tx\<lparr>tx_Msgs := [PayForBlobsMsg ref_pfb]\<rparr>)
     False = Inr (ref_gas_ctx 4096) \<and>
   MinGasPFB_AnteHandle ref_square ref_meter (\<lambda>c _ _. Inr c) (ref_gas_ctx 4095) (ref_tx\<lparr>tx_Msgs := [PayForBlobsMsg ref_pfb]\<rparr>)
     False = Inl AnteInsufficientFee"
proof -
  let ?tx = "ref_tx\<lparr>tx_Msgs := [PayForBlobsMsg ref_pfb]\<rparr>"
  have "MinGasPFB_AnteHandle ref_square ref_meter (\<lambda>c _ _. Inr c) (ref_gas_ctx gas) ?tx False =
      (if 4096 \<le> uint gas then Inr (ref_gas_ctx gas) else Inl AnteInsufficientFee)" for gas
    using min_gas_check_exact [OF ref_share_law, of "ref_gas_ctx gas" ?tx "[ref_pfb]" ref_meter "\<lambda>c _ _. Inr c" False]
    by (simp add: ref_pfb_shares ref_gas_ctx_def ref_meter_def)
  from this [of 4096] this [of 4095] show ?thesis by simp
qed

section \<open>The cache of checked signatures\<close>

text \<open>One use of the node's cache: the decorator runs on a transaction, with whatever the validator signatures check
  answers at that moment, or a block is finalized. The second component records the messages that passed the check.\<close>

inductive sig_step ::
  "sdk \<Rightarrow> (bytes \<Rightarrow> app_tx option) \<Rightarrow> bytes set \<times> msg_pay_for_fibre set \<Rightarrow> bytes set \<times> msg_pay_for_fibre set \<Rightarrow> bool"
  for E decode where
  sig_run: "decode (a_TxBytes c) = Some tx \<Longrightarrow>
    FibreSignatureVerification_AnteHandle E validate (\<lambda>c _ _. Inr c) (c :: unit ante_ctx) tx simulate = Inr c' \<Longrightarrow>
    sig_step E decode (a_SigCache c, ver)
      (a_SigCache c', ver \<union> {m. payForFibreMessage tx = Some m \<and> validate m = Inr ()})"
| sig_finalize: "sig_step E decode (cache, ver) (finalize_sig_cache E txs cache, ver)"

definition sig_init :: "bytes set \<times> msg_pay_for_fibre set \<Rightarrow> bool" where
  "sig_init x \<longleftrightarrow> x = ({}, {})"

definition cache_justified :: "sdk \<Rightarrow> (bytes \<Rightarrow> app_tx option) \<Rightarrow> bytes set \<times> msg_pay_for_fibre set \<Rightarrow> bool" where
  "cache_justified E decode x \<longleftrightarrow> (\<forall>k\<in>fst x. \<exists>raw tx m. k = sha256 E raw \<and> decode raw = Some tx \<and>
     payForFibreMessage tx = Some m \<and> m \<in> snd x)"

lemma finalize_subset: "finalize_sig_cache E txs cache \<subseteq> cache"
  unfolding finalize_sig_cache_def by (induction txs arbitrary: cache) (auto simp: pff_Delete_def)

lemma sig_step_justified:
  assumes "sig_step E decode x y" and "cache_justified E decode x"
  shows "cache_justified E decode y"
  using assms(1)
proof (cases rule: sig_step.cases)
  case (sig_run c tx validate simulate c' ver)
  let ?new = "{m. payForFibreMessage tx = Some m \<and> validate m = Inr ()}"
  have "a_SigCache c' = a_SigCache c \<or>
      (\<exists>m\<in>?new. payForFibreMessage tx = Some m \<and> a_SigCache c' = insert (sha256 E (a_TxBytes c)) (a_SigCache c))"
    using sig_run(4)
    by (auto simp: FibreSignatureVerification_AnteHandle_def Let_def pff_Cache_def pffSigCacheKey_def
        split: option.splits if_splits sum.splits)
  then show ?thesis
    using assms(2) sig_run(1-3) unfolding cache_justified_def by fastforce
next
  case (sig_finalize cache ver txs)
  then show ?thesis using assms(2) finalize_subset unfolding cache_justified_def by fastforce
qed

interpretation sig_cache: step_invariant sig_init "sig_step E decode" "cache_justified E decode" for E decode
proof unfold_locales
  show "cache_justified E decode x" if "sig_init x" for x using that by (simp add: sig_init_def cache_justified_def)
qed (rule sig_step_justified)

definition collision_free :: "sdk \<Rightarrow> bool" where
  "collision_free E \<longleftrightarrow> (\<forall>x y. sha256 E x = sha256 E y \<longrightarrow> x = y)"

text \<open>C31: The signature cache never lets an unchecked payment through: whatever runs and finalized blocks came before, a
  transaction that passes the decorator outside simulation carries a message whose validator signatures were checked,
  now or when the same bytes were seen before (unless the hash has a collision).\<close>

theorem sig_cache_is_sound:
  assumes reach: "reach sig_init (sig_step E decode) (cache, ver)" and E: "collision_free E"
    and tx: "decode (a_TxBytes c) = Some tx" "payForFibreMessage tx = Some m" "a_SigCache c = cache"
    and run: "FibreSignatureVerification_AnteHandle E validate next c tx False = Inr c'"
  shows "m \<in> ver \<or> validate m = Inr ()"
proof (cases "a_TxBytes c \<noteq> [] \<and> sha256 E (a_TxBytes c) \<in> cache")
  case True
  then obtain raw tx' m' where "sha256 E (a_TxBytes c) = sha256 E raw" "decode raw = Some tx'"
    "payForFibreMessage tx' = Some m'" "m' \<in> ver"
    using sig_cache.reach_inv [OF reach] unfolding cache_justified_def by auto
  then show ?thesis using E tx unfolding collision_free_def by (metis option.inject)
next
  case False
  then show ?thesis
    using run tx by (auto simp: FibreSignatureVerification_AnteHandle_def Let_def pff_IsCached_def pffSigCacheKey_def
        split: sum.splits)
qed

definition ref_hash_sdk :: sdk where
  "ref_hash_sdk = ref_sdk\<lparr>sha256 := (\<lambda>x. x)\<rparr>"

definition ref_pff :: msg_pay_for_fibre where
  "ref_pff = \<lparr>pf_Signer = ''xyz'', pf_PaymentPromise = ref_promise, pf_ValidatorSignatures = [[1]]\<rparr>"

definition ref_pff_tx :: app_tx where
  "ref_pff_tx = ref_tx\<lparr>tx_Msgs := [PayForFibreMsg ref_pff]\<rparr>"

lemma ref_sig_reach: "reach sig_init (sig_step ref_hash_sdk (\<lambda>_. Some ref_pff_tx)) ({[1]}, {ref_pff})"
proof (rule reach_step)
  show "reach sig_init (sig_step ref_hash_sdk (\<lambda>_. Some ref_pff_tx)) (a_SigCache ref_ante_ctx, {})"
    by (rule reach_init) (simp add: sig_init_def ref_ante_ctx_def)
  have "FibreSignatureVerification_AnteHandle ref_hash_sdk (\<lambda>_. Inr ()) (\<lambda>c _ _. Inr c) ref_ante_ctx ref_pff_tx False =
      Inr (ref_ante_ctx\<lparr>a_SigCache := {[1]}\<rparr>)"
    by (simp add: FibreSignatureVerification_AnteHandle_def payForFibreMessage_def ref_pff_tx_def ref_ante_ctx_def
        pff_IsCached_def pff_Cache_def pffSigCacheKey_def ref_hash_sdk_def Let_def)
  from sig_run [OF _ this, where decode = "\<lambda>_. Some ref_pff_tx" and ver = "{}"]
  show "sig_step ref_hash_sdk (\<lambda>_. Some ref_pff_tx) (a_SigCache ref_ante_ctx, {}) ({[1]}, {ref_pff})"
    by (simp add: payForFibreMessage_def ref_pff_tx_def)
qed

theorem sig_cache_is_sound_witness:
  "\<exists>cache ver. reach sig_init (sig_step ref_hash_sdk (\<lambda>_. Some ref_pff_tx)) (cache, ver) \<and> ref_pff \<in> ver"
proof -
  let ?c = "ref_ante_ctx\<lparr>a_SigCache := {[1]}\<rparr>"
  have cf: "collision_free ref_hash_sdk" by (simp add: collision_free_def ref_hash_sdk_def)
  have run: "FibreSignatureVerification_AnteHandle ref_hash_sdk (\<lambda>_. Inl SigPanic) (\<lambda>c _ _. Inr c) ?c ref_pff_tx False = Inr ?c"
    by (simp add: FibreSignatureVerification_AnteHandle_def payForFibreMessage_def ref_pff_tx_def ref_ante_ctx_def
        pff_IsCached_def pffSigCacheKey_def ref_hash_sdk_def Let_def)
  have "payForFibreMessage ref_pff_tx = Some ref_pff" by (simp add: payForFibreMessage_def ref_pff_tx_def)
  from sig_cache_is_sound [OF ref_sig_reach cf refl this _ run]
  have "ref_pff \<in> {ref_pff}" by simp
  then show ?thesis using ref_sig_reach by blast
qed

end
