(* ===== verification/BlobTx.thy ===== *)
theory BlobTx
  imports AnteChecks
begin

text \<open>
  Blob transactions: what validation guarantees, that built transactions validate, and exact square sizes.
\<close>

section \<open>Blob transactions\<close>

lemma check_each_iff: "check_each f xs = Inr () \<longleftrightarrow> (\<forall>x\<in>set xs. f x = Inr ())"
  by (induction xs) auto

lemma check_indexed_iff: "check_indexed f i xs = Inr () \<longleftrightarrow> (\<forall>j<length xs. f (i + j) (xs ! j) = Inr ())"
proof (induction xs arbitrary: i)
  case (Cons x xs)
  show ?case unfolding check_indexed.simps using Cons [of "Suc i"] by (auto simp: All_less_Suc2)
qed simp

lemma at_index_Inr [simp]: "at_index e xs i = Inr y \<longleftrightarrow> i < length xs \<and> xs ! i = y"
  by (auto simp: at_index_def)

lemma only_pfb [simp]:
  "(case x of PayForBlobsMsg m \<Rightarrow> Inr m | _ \<Rightarrow> Inl e) = Inr m' \<longleftrightarrow> x = PayForBlobsMsg m'"
  by (cases x) auto

text \<open>What a validated blob transaction guarantees about its message and its blobs.\<close>

definition pfb_describes :: "sdk \<Rightarrow> gosquare \<Rightarrow> msg_pay_for_blobs \<Rightarrow> blob list \<Rightarrow> bool" where
  "pfb_describes E G m bs \<longleftrightarrow>
     bs \<noteq> [] \<and> pfb_BlobSizes m = map (\<lambda>b. of_nat (length (bl_Data b))) bs \<and>
     length (pfb_Namespaces m) = length bs \<and> length (pfb_ShareVersions m) = length bs \<and>
     length (pfb_ShareCommitments m) = length bs \<and>
     (\<forall>i<length bs. NewNamespaceFromBytes E (pfb_Namespaces m ! i) = Some (bl_Namespace (bs ! i)) \<and>
        pfb_ShareVersions m ! i = ucast (bl_ShareVersion (bs ! i)) \<and>
        length (pfb_ShareCommitments m ! i) = HashLength \<and> bl_Data (bs ! i) \<noteq> [] \<and>
        ValidateBlobNamespace G (bl_Namespace (bs ! i)) = Inr () \<and>
        (bl_ShareVersion (bs ! i) = 0 \<or> bl_ShareVersion (bs ! i) = 1) \<and>
        (bl_ShareVersion (bs ! i) = 1 \<longrightarrow> AccAddressFromBech32 E (pfb_Signer m) = Some (bl_Signer (bs ! i))))"

lemma ucast_version: "unat (ucast (v :: 8 word) :: uint32) = unat v"
proof -
  have "unat v < 2 ^ 8" using unsigned_less [of v, where ?'a = nat] by simp
  then have "take_bit 32 (unat v) = unat v" by (intro take_bit_nat_eq_self) simp
  then show ?thesis by (simp add: unsigned_ucast_eq)
qed

lemma version_01: "unat (v :: 8 word) = ShareVersionZero \<or> unat v = ShareVersionOne \<longleftrightarrow> v = 0 \<or> v = 1"
  unfolding ShareVersionZero_def ShareVersionOne_def by (metis unat_1 unat_eq_0 unsigned_word_eqI)

lemma version_1: "unat (v :: 8 word) = ShareVersionOne \<longleftrightarrow> v = 1"
  unfolding ShareVersionOne_def by (metis unat_1 unsigned_word_eqI)

lemma skip_commitment_sound:
  assumes "ValidateBlobTxSkipCommitment E G TxDecoder (Some bTx) = Inr m"
  shows "TxDecoder (btx_Tx bTx) = Some [PayForBlobsMsg m] \<and> pfb_describes E G m (btx_Blobs bTx)"
proof -
  let ?bs = "btx_Blobs bTx"
  obtain msgs signer where msgs: "TxDecoder (btx_Tx bTx) = Some msgs" "length msgs = 1" "hd msgs = PayForBlobsMsg m"
    and basic: "MsgPayForBlobs_ValidateBasic E G m = Inr ()" and blobs: "ValidateBlobs G ?bs = Inr ()"
    and signer: "AccAddressFromBech32 E (pfb_Signer m) = Some signer"
    and v1: "\<forall>b\<in>set ?bs. unat (bl_ShareVersion b) = ShareVersionOne \<longrightarrow> bl_Signer b = signer"
    and sizes: "map (\<lambda>b. of_nat (length (bl_Data b))) ?bs = pfb_BlobSizes m"
    and ns: "\<forall>i<length (pfb_Namespaces m). \<exists>n. NewNamespaceFromBytes E (pfb_Namespaces m ! i) = Some n \<and>
      i < length ?bs \<and> bl_Namespace (?bs ! i) = n"
    and vs: "\<forall>i<length ?bs. i < length (pfb_ShareVersions m) \<and> pfb_ShareVersions m ! i = ucast (bl_ShareVersion (?bs ! i))"
    using assms unfolding ValidateBlobTxSkipCommitment_def Let_def
    by (auto simp: check_each_iff check_indexed_iff split: if_splits)
  have B: "length (pfb_Namespaces m) = length (pfb_ShareVersions m)" "length (pfb_Namespaces m) = length (pfb_BlobSizes m)"
    "length (pfb_Namespaces m) = length (pfb_ShareCommitments m)"
    "\<forall>v\<in>set (pfb_ShareVersions m). unat v = ShareVersionZero \<or> unat v = ShareVersionOne"
    "\<forall>c\<in>set (pfb_ShareCommitments m). length c = HashLength"
    using basic unfolding MsgPayForBlobs_ValidateBasic_def by (auto simp: check_each_iff)
  have len: "length (pfb_Namespaces m) = length ?bs" using B(2) sizes by (metis length_map)
  have "bl_ShareVersion (?bs ! i) = 0 \<or> bl_ShareVersion (?bs ! i) = 1" if "i < length ?bs" for i
    using B(4) vs that nth_mem [of i "pfb_ShareVersions m"] by (metis ucast_version version_01)
  then show ?thesis
    using msgs blobs signer v1 sizes ns vs B len unfolding pfb_describes_def
    by (cases msgs) (auto simp: ValidateBlobs_def check_each_iff version_1)
qed

text \<open>C32: A blob transaction that validates carries exactly one message, a payment for its blobs that describes them
  position by position: sizes, namespaces, share versions, the signer of authored blobs and the recomputed share
  commitments all agree, and no blob is empty or uses a reserved namespace.\<close>

theorem validated_blob_tx_matches_blobs:
  assumes "ValidateBlobTx E G TxDecoder (Some bTx) threshold = Inr ()"
  shows "\<exists>m commitments. TxDecoder (btx_Tx bTx) = Some [PayForBlobsMsg m] \<and> pfb_describes E G m (btx_Blobs bTx) \<and>
    CreateParallelCommitments G (btx_Blobs bTx) threshold = Some commitments \<and>
    (\<forall>i<length (btx_Blobs bTx). i < length commitments \<and> commitments ! i = pfb_ShareCommitments m ! i)"
proof -
  obtain m cs where m: "ValidateBlobTxSkipCommitment E G TxDecoder (Some bTx) = Inr m"
    and cs: "CreateParallelCommitments G (btx_Blobs bTx) threshold = Some cs"
    and eq: "\<forall>i<length (pfb_ShareCommitments m). i < length cs \<and> cs ! i = pfb_ShareCommitments m ! i"
    using assms unfolding ValidateBlobTx_def by (auto simp: check_indexed_iff)
  note S = skip_commitment_sound [OF m]
  then have "length (pfb_ShareCommitments m) = length (btx_Blobs bTx)" by (simp add: pfb_describes_def)
  then show ?thesis using S cs eq by auto
qed

section \<open>Building and validating\<close>

text \<open>What go-square promises: namespaces of blobs parse to themselves, the two ways to compute commitments agree, and
  there is one commitment per blob.\<close>

definition square_laws :: "sdk \<Rightarrow> gosquare \<Rightarrow> bool" where
  "square_laws E G \<longleftrightarrow> (\<forall>n n'. NewNamespaceFromBytes E n = Some n' \<longrightarrow> n' = n) \<and>
     (\<forall>bs t. CreateParallelCommitments G bs t = CreateCommitments G bs t)"

text \<open>C33: A message built from blobs validates against them: whatever blobs a client passes, if building the message
  succeeds then the transaction that wraps it with these blobs passes every stateless check.\<close>

theorem built_blob_tx_validates:
  assumes G: "square_laws E G" and new: "NewMsgPayForBlobs E G signer bs = Inr m"
    and dec: "TxDecoder raw = Some [PayForBlobsMsg m]"
  shows "ValidateBlobTx E G TxDecoder (Some \<lparr>btx_Tx = raw, btx_Blobs = bs\<rparr>) SubtreeRootThreshold = Inr ()"
proof -
  obtain a cs where blobs: "ValidateBlobs G bs = Inr ()" and a: "AccAddressFromBech32 E signer = Some a"
    and sv: "ValidateBlobShareVersion (Some a) bs = Inr ()"
    and cs: "CreateCommitments G bs SubtreeRootThreshold = Some cs"
    and m: "m = \<lparr>pfb_Signer = signer, pfb_Namespaces = map bl_Namespace bs,
      pfb_BlobSizes = map (\<lambda>b. of_nat (length (bl_Data b))) bs, pfb_ShareCommitments = cs,
      pfb_ShareVersions = map (\<lambda>b. ucast (bl_ShareVersion b)) bs\<rparr>"
    and basic: "MsgPayForBlobs_ValidateBasic E G m = Inr ()"
    using new unfolding NewMsgPayForBlobs_def ExtractBlobComponents_def namespacesToBytes_def Let_def by auto
  have len: "length cs = length bs" and nss: "\<forall>b\<in>set bs. \<exists>n. NewNamespaceFromBytes E (bl_Namespace b) = Some n"
    using basic unfolding MsgPayForBlobs_ValidateBasic_def m by (auto simp: check_each_iff)
  have ns: "NewNamespaceFromBytes E (bl_Namespace (bs ! i)) = Some (bl_Namespace (bs ! i))" if "i < length bs" for i
    using nss G that unfolding square_laws_def by (metis nth_mem)
  have skip: "ValidateBlobTxSkipCommitment E G TxDecoder (Some \<lparr>btx_Tx = raw, btx_Blobs = bs\<rparr>) = Inr m"
    using dec basic blobs a sv ns unfolding ValidateBlobTxSkipCommitment_def Let_def
    by (auto simp: check_each_iff check_indexed_iff m ValidateBlobShareVersion_def split: if_splits)
  have "CreateParallelCommitments G bs SubtreeRootThreshold = Some cs"
    using G cs unfolding square_laws_def by simp
  then show ?thesis
    using skip len by (simp add: ValidateBlobTx_def check_indexed_iff) (simp add: m)
qed

definition ref_blob :: blob where
  "ref_blob = \<lparr>bl_Namespace = replicate 29 0, bl_Data = [1], bl_ShareVersion = 0, bl_Signer = []\<rparr>"

definition ref_blob_msg :: msg_pay_for_blobs where
  "ref_blob_msg = \<lparr>pfb_Signer = ''abc'', pfb_Namespaces = [replicate 29 0], pfb_BlobSizes = [1],
     pfb_ShareCommitments = [ref_pad 32 [1]], pfb_ShareVersions = [0]\<rparr>"

lemma ref_square_laws: "square_laws ref_sdk ref_square"
  by (simp add: square_laws_def ref_sdk_def ref_square_def)

lemma ref_new_blob_msg: "NewMsgPayForBlobs ref_sdk ref_square ''abc'' [ref_blob] = Inr ref_blob_msg"
  by (simp add: NewMsgPayForBlobs_def ValidateBlobs_def ValidateBlobNamespace_def ValidateBlobShareVersion_def
      ExtractBlobComponents_def namespacesToBytes_def MsgPayForBlobs_ValidateBasic_def ref_blob_def ref_blob_msg_def
      ref_square_def ref_sdk_def ShareVersionOne_def ShareVersionZero_def HashLength_def)

theorem built_blob_tx_validates_witness:
  "ValidateBlobTx ref_sdk ref_square (\<lambda>_. Some [PayForBlobsMsg ref_blob_msg])
     (Some \<lparr>btx_Tx = [], btx_Blobs = [ref_blob]\<rparr>) SubtreeRootThreshold = Inr ()"
  by (rule built_blob_tx_validates [OF ref_square_laws ref_new_blob_msg]) simp

lemma ref_blob_tx_valid:
  "ValidateBlobTx ref_sdk ref_square (\<lambda>_. Some [PayForBlobsMsg ref_blob_msg])
     (Some \<lparr>btx_Tx = [], btx_Blobs = [ref_blob]\<rparr>) SubtreeRootThreshold = Inr ()"
  by (simp add: ValidateBlobTx_def ValidateBlobTxSkipCommitment_def ValidateBlobs_def ValidateBlobNamespace_def
      MsgPayForBlobs_ValidateBasic_def ref_blob_def ref_blob_msg_def at_index_def
      ref_square_def ref_sdk_def ShareVersionOne_def ShareVersionZero_def HashLength_def)

theorem validated_blob_tx_matches_blobs_witness:
  "pfb_describes ref_sdk ref_square ref_blob_msg [ref_blob]"
  using validated_blob_tx_matches_blobs [OF ref_blob_tx_valid] by auto

section \<open>Square sizes\<close>

text \<open>C34: Valid parameters keep the size of the square in bytes exact: the 64-bit product does not wrap, and the effective
  square size is the governance value, at most the consensus bound of 512.\<close>

theorem valid_params_square_bytes_exact:
  assumes "blob_Params_Validate G (blob_GetParams s) = Inr ()" and "ShareSize G = 512"
  shows "unat (getGovMaxSquareBytes G s) = (unat (bp_GovMaxSquareSize (blob_GetParams s)))\<^sup>2 * 512 \<and>
    MaxEffectiveSquareSize s chainID = bp_GovMaxSquareSize (blob_GetParams s) \<and>
    unat (MaxEffectiveSquareSize s chainID) \<le> 512"
proof -
  let ?v = "bp_GovMaxSquareSize (blob_GetParams s)"
  have "?v \<le> 512"
    using assms(1) by (simp add: blob_Params_Validate_def validateGovMaxSquareSize_def SquareSizeUpperBound_def)
  then have v: "unat ?v \<le> 512" by (simp add: word_le_nat_alt)
  have sq: "unat ?v * unat ?v \<le> 512 * 512" using v by (intro mult_mono) auto
  have a: "unat (?v * ?v) = unat ?v * unat ?v"
    by (rule unat_mult_lem [THEN iffD1]) (use sq in simp)
  have b: "unat (?v * ?v * 512) = unat ?v * unat ?v * 512"
  proof -
    have "unat (?v * ?v * 512) = unat (?v * ?v) * unat (512 :: uint64)"
      by (rule unat_mult_lem [THEN iffD1]) (use sq a in simp)
    then show ?thesis by (simp add: a)
  qed
  have "int (unat ?v) \<le> int 512" using v by (simp only: of_nat_le_iff)
  then have "uint ?v \<le> 512" by simp
  then have "sint ?v = uint ?v" by (intro sint_uint_small) simp
  then have "\<not> sint (512 :: int64) < sint ?v" using \<open>uint ?v \<le> 512\<close> by simp
  then have eff: "MaxEffectiveSquareSize s chainID = ?v"
    by (simp add: MaxEffectiveSquareSize_def i64_min_def GetSquareSizeUpperBound_def SquareSizeUpperBound_def)
  show ?thesis
    unfolding eff using v b assms(2) by (simp add: getGovMaxSquareBytes_def Let_def power2_eq_square)
qed

theorem valid_params_square_bytes_exact_witness:
  "unat (getGovMaxSquareBytes ref_square \<lparr>bs_Params = Some blob_DefaultParams, bs_Legacy = blob_DefaultParams\<rparr>) = 33554432"
proof -
  let ?s = "\<lparr>bs_Params = Some blob_DefaultParams, bs_Legacy = blob_DefaultParams\<rparr>"
  have g: "blob_GetParams ?s = blob_DefaultParams" "bp_GovMaxSquareSize blob_DefaultParams = 256"
    by (simp_all add: blob_GetParams_def blob_DefaultParams_def)
  have ok: "blob_Params_Validate ref_square (blob_GetParams ?s) = Inr ()"
    unfolding g by (simp add: blob_Params_Validate_def blob_DefaultParams_def validateGovMaxSquareSize_def
        validateGasPerBlobByte_def GasPerBlobByte_def SquareSizeUpperBound_def ref_square_def)
  have "ShareSize ref_square = 512" by (simp add: ref_square_def)
  from valid_params_square_bytes_exact [OF ok this, of "[]"] show ?thesis unfolding g by simp
qed

end
