(* ===== verification/Classify.thy ===== *)
theory Classify
  imports BlobTx
begin

text \<open>
  Classification of raw transactions for the data square (\<open>x/fibre/types/classified_tx.go\<close>) and the chain of
  transaction decoders (\<open>app/encoding\<close>). go-square, rsmt2d, the protobuf codecs and CometBFT are one record of
  functions; a reference instance of it is at the end.
\<close>

section \<open>The square library\<close>

datatype blob_tx_parse = NotBlobTx | MalformedBlobTx bool | ParsedBlobTx blob_tx

record fibre_tx =
  ft_Tx :: bytes
  ft_SystemBlob :: blob

datatype classified_tx = ClassifiedTx bytes | ClassifiedFibreTx fibre_tx

record ('b, 'eds) squarelib =
  UnmarshalBlobTx :: "bytes \<Rightarrow> blob_tx_parse"
  MarshalBlobTx :: "bytes \<Rightarrow> blob list \<Rightarrow> bytes option"
  blob_Hash :: "blob \<Rightarrow> bytes"
  UnmarshalTxBody :: "bytes \<Rightarrow> (string \<times> bytes) list option"
  UnmarshalPayForFibre :: "bytes \<Rightarrow> msg_pay_for_fibre option"
  DecodeToBase256 :: "string \<Rightarrow> bytes option"
  NewV2Blob :: "bytes \<Rightarrow> uint32 \<Rightarrow> bytes \<Rightarrow> bytes \<Rightarrow> blob option"
  NewClassifiedFibreTx :: "fibre_tx \<Rightarrow> classified_tx option"
  NewBuilder :: "int64 \<Rightarrow> int \<Rightarrow> 'b option"
  AppendTx :: "'b \<Rightarrow> bytes \<Rightarrow> 'b \<times> bool"
  AppendBlobTx :: "'b \<Rightarrow> blob_tx \<Rightarrow> 'b \<times> bool option"
  AppendFibreTx :: "'b \<Rightarrow> fibre_tx \<Rightarrow> 'b \<times> bool option"
  RevertLastTx :: "'b \<Rightarrow> 'b"
  RevertLastBlobTx :: "'b \<Rightarrow> 'b"
  RevertLastPayForFibreTx :: "'b \<Rightarrow> 'b"
  builder_Export :: "'b \<Rightarrow> bytes list option"
  Construct :: "classified_tx list \<Rightarrow> int64 \<Rightarrow> int \<Rightarrow> bytes list option"
  square_Size :: "nat \<Rightarrow> int64 option"
  ComputeProtoSizeForTxs :: "bytes \<Rightarrow> int64"
  ComputeExtendedDataSquare :: "bytes list \<Rightarrow> uint64 \<Rightarrow> 'eds option"
  ComputeExtendedDataSquareWithBuffer :: "bytes list \<Rightarrow> 'eds option"
  eds_RowRoots :: "'eds \<Rightarrow> bytes list option"
  eds_ColRoots :: "'eds \<Rightarrow> bytes list option"
  eds_Width :: "'eds \<Rightarrow> uint64"
  HashFromByteSlices :: "bytes list \<Rightarrow> bytes"

text \<open>What a builder holds: the limits it was made with, and the transactions appended so far.\<close>

record sq_view =
  sv_Max :: int64
  sv_Threshold :: int
  sv_Txs :: "bytes list"
  sv_Blobs :: "blob_tx list"
  sv_Fibre :: "fibre_tx list"

section \<open>Classification\<close>

datatype classify_err = ErrUnmarshalPFF | ErrSystemBlobNamespace | ErrSystemBlobSigner | ErrSystemBlob | ErrClassifyFibre

definition MsgPayForFibreTypeURL :: string where
  "MsgPayForFibreTypeURL = ''/celestia.fibre.v1.MsgPayForFibre''"

definition SystemBlob :: "sdk \<Rightarrow> ('b, 'eds) squarelib \<Rightarrow> msg_pay_for_fibre \<Rightarrow> classify_err + blob" where
  "SystemBlob E L msg =
     rbind (of_opt ErrSystemBlobNamespace (NewNamespaceFromBytes E (pb_Namespace (pf_PaymentPromise msg)))) (\<lambda>ns.
     rbind (of_opt ErrSystemBlobSigner (DecodeToBase256 L (pf_Signer msg))) (\<lambda>signerBytes.
     of_opt ErrSystemBlob (NewV2Blob L ns (pb_BlobVersion (pf_PaymentPromise msg))
       (pb_Commitment (pf_PaymentPromise msg)) signerBytes)))"

text \<open>\<open>None\<close> is a transaction that is not a fibre transaction.\<close>

definition TryParseFibreTx :: "sdk \<Rightarrow> ('b, 'eds) squarelib \<Rightarrow> bytes \<Rightarrow> classify_err + fibre_tx option" where
  "TryParseFibreTx E L txBytes =
     (if UnmarshalBlobTx L txBytes \<noteq> NotBlobTx then Inr None
      else case UnmarshalTxBody L txBytes of
        Some [(typeUrl, val)] \<Rightarrow>
          if typeUrl \<noteq> MsgPayForFibreTypeURL then Inr None
          else
            rbind (of_opt ErrUnmarshalPFF (UnmarshalPayForFibre L val)) (\<lambda>msg.
            rbind (SystemBlob E L msg) (\<lambda>systemBlob.
            Inr (Some \<lparr>ft_Tx = txBytes, ft_SystemBlob = systemBlob\<rparr>)))
      | _ \<Rightarrow> Inr None)"

fun ClassifyTxs :: "sdk \<Rightarrow> ('b, 'eds) squarelib \<Rightarrow> bytes list \<Rightarrow> classify_err + classified_tx list" where
  "ClassifyTxs E L [] = Inr []"
| "ClassifyTxs E L (rawTx # txs) =
     rbind (TryParseFibreTx E L rawTx) (\<lambda>fibreTx.
     rbind (case fibreTx of
              None \<Rightarrow> Inr (ClassifiedTx rawTx)
            | Some ft \<Rightarrow> of_opt ErrClassifyFibre (NewClassifiedFibreTx L ft)) (\<lambda>c.
     rbind (ClassifyTxs E L txs) (\<lambda>cs.
     Inr (c # cs))))"

section \<open>Decoders\<close>

datatype decode_err = ErrEmptyTx | ErrDecodeBlobTx | ErrDecodeTx | ErrMultiMsgIndexWrapper | ErrNonPFBIndexWrapper

type_synonym tx_decoder = "bytes \<Rightarrow> decode_err + app_tx"

definition indexWrapperDecoder :: "(bytes \<Rightarrow> bytes option) \<Rightarrow> tx_decoder \<Rightarrow> tx_decoder" where
  "indexWrapperDecoder unmarshal decoder txBytes =
     (case unmarshal txBytes of
        None \<Rightarrow> decoder txBytes
      | Some inner \<Rightarrow>
          rbind (decoder inner) (\<lambda>sdkTx.
          case tx_Msgs sdkTx of
            [m] \<Rightarrow> (case m of PayForBlobsMsg _ \<Rightarrow> Inr sdkTx | _ \<Rightarrow> Inl ErrNonPFBIndexWrapper)
          | _ \<Rightarrow> Inl ErrMultiMsgIndexWrapper))"

definition blobTxDecoder :: "('b, 'eds) squarelib \<Rightarrow> tx_decoder \<Rightarrow> tx_decoder" where
  "blobTxDecoder L decoder txBytes =
     (case UnmarshalBlobTx L txBytes of
        NotBlobTx \<Rightarrow> decoder txBytes
      | MalformedBlobTx _ \<Rightarrow> Inl ErrDecodeBlobTx
      | ParsedBlobTx blobTx \<Rightarrow> decoder (btx_Tx blobTx))"

definition rejectEmptyTxDecoder :: "tx_decoder \<Rightarrow> tx_decoder" where
  "rejectEmptyTxDecoder decoder txBytes = (if txBytes = [] then Inl ErrEmptyTx else decoder txBytes)"

definition MakeTxDecoder :: "('b, 'eds) squarelib \<Rightarrow> (bytes \<Rightarrow> bytes option) \<Rightarrow> tx_decoder \<Rightarrow> tx_decoder" where
  "MakeTxDecoder L unmarshalIndexWrapper defaultTxDecoder =
     rejectEmptyTxDecoder (blobTxDecoder L (indexWrapperDecoder unmarshalIndexWrapper defaultTxDecoder))"

section \<open>A reference instance\<close>

text \<open>A square library for witnesses: bytes that start with 9 wrap a transaction with one blob, the bytes [8] are a lone
  payment for fibre, a builder takes four transactions, and a square is one share with all of them.\<close>

definition ref_unmarshal :: "bytes \<Rightarrow> blob_tx_parse" where
  "ref_unmarshal raw = (case raw of [] \<Rightarrow> NotBlobTx
     | x # xs \<Rightarrow> if x = 9 then ParsedBlobTx \<lparr>btx_Tx = xs, btx_Blobs = [ref_blob]\<rparr> else NotBlobTx)"

definition ref_fits :: "sq_view \<Rightarrow> bool" where
  "ref_fits v \<longleftrightarrow> length (sv_Txs v) + length (sv_Blobs v) + length (sv_Fibre v) \<le> 4"

definition ref_export :: "sq_view \<Rightarrow> bytes list option" where
  "ref_export v = Some [concat (sv_Txs v @ map btx_Tx (sv_Blobs v) @ map ft_Tx (sv_Fibre v))]"

fun pick_txs :: "classified_tx \<Rightarrow> bytes list" where
  "pick_txs (ClassifiedTx raw) = (case ref_unmarshal raw of NotBlobTx \<Rightarrow> [raw] | _ \<Rightarrow> [])"
| "pick_txs (ClassifiedFibreTx ft) = []"

fun pick_blobs :: "classified_tx \<Rightarrow> blob_tx list" where
  "pick_blobs (ClassifiedTx raw) = (case ref_unmarshal raw of ParsedBlobTx b \<Rightarrow> [b] | _ \<Rightarrow> [])"
| "pick_blobs (ClassifiedFibreTx ft) = []"

fun pick_fibre :: "classified_tx \<Rightarrow> fibre_tx list" where
  "pick_fibre (ClassifiedTx raw) = []"
| "pick_fibre (ClassifiedFibreTx ft) = [ft]"

definition ref_construct :: "classified_tx list \<Rightarrow> int64 \<Rightarrow> int \<Rightarrow> bytes list option" where
  "ref_construct cs m t =
     (let v = \<lparr>sv_Max = m, sv_Threshold = t, sv_Txs = concat (map pick_txs cs), sv_Blobs = concat (map pick_blobs cs),
        sv_Fibre = concat (map pick_fibre cs)\<rparr>
      in if ref_fits v then ref_export v else None)"

definition ref_append :: "sq_view \<Rightarrow> sq_view \<Rightarrow> sq_view \<times> bool" where
  "ref_append v v' = (if ref_fits v' then (v', True) else (v, False))"

definition ref_lib :: "(sq_view, bytes list) squarelib" where
  "ref_lib = \<lparr>UnmarshalBlobTx = ref_unmarshal,
     MarshalBlobTx = (\<lambda>tx bs. if bs = [ref_blob] then Some (9 # tx) else None),
     blob_Hash = (\<lambda>b. ref_pad 32 (bl_Data b)),
     UnmarshalTxBody = (\<lambda>raw. if raw = [8] then Some [(MsgPayForFibreTypeURL, [])] else Some []),
     UnmarshalPayForFibre = (\<lambda>_. Some ref_pff),
     DecodeToBase256 = (\<lambda>s. Some (chars_bytes s)),
     NewV2Blob = (\<lambda>ns v c sg. Some \<lparr>bl_Namespace = ns, bl_Data = c, bl_ShareVersion = 2, bl_Signer = sg\<rparr>),
     NewClassifiedFibreTx = (\<lambda>ft. Some (ClassifiedFibreTx ft)),
     NewBuilder = (\<lambda>m t. Some \<lparr>sv_Max = m, sv_Threshold = t, sv_Txs = [], sv_Blobs = [], sv_Fibre = []\<rparr>),
     AppendTx = (\<lambda>v tx. ref_append v (v\<lparr>sv_Txs := sv_Txs v @ [tx]\<rparr>)),
     AppendBlobTx = (\<lambda>v tx. case ref_append v (v\<lparr>sv_Blobs := sv_Blobs v @ [tx]\<rparr>) of (w, ok) \<Rightarrow> (w, Some ok)),
     AppendFibreTx = (\<lambda>v tx. case ref_append v (v\<lparr>sv_Fibre := sv_Fibre v @ [tx]\<rparr>) of (w, ok) \<Rightarrow> (w, Some ok)),
     RevertLastTx = (\<lambda>v. v\<lparr>sv_Txs := butlast (sv_Txs v)\<rparr>),
     RevertLastBlobTx = (\<lambda>v. v\<lparr>sv_Blobs := butlast (sv_Blobs v)\<rparr>),
     RevertLastPayForFibreTx = (\<lambda>v. v\<lparr>sv_Fibre := butlast (sv_Fibre v)\<rparr>),
     builder_Export = ref_export, Construct = ref_construct,
     square_Size = (\<lambda>n. if n = 1 then Some 1 else None),
     ComputeProtoSizeForTxs = (\<lambda>tx. of_nat (length tx) + 2),
     ComputeExtendedDataSquare = (\<lambda>s _. if length s = 1 then Some s else None),
     ComputeExtendedDataSquareWithBuffer = (\<lambda>s. if length s = 1 then Some s else None),
     eds_RowRoots = (\<lambda>s. Some (s @ s)), eds_ColRoots = (\<lambda>s. Some (s @ s)), eds_Width = (\<lambda>_. 2),
     HashFromByteSlices = (\<lambda>xs. concat (map (\<lambda>x. concat (map (\<lambda>b. [1, b]) x) @ [0]) xs))\<rparr>"

end
