(* ===== verification/Da.thy ===== *)
theory Da
  imports Classify
begin

text \<open>
  The data availability header and the construction of the extended square (\<open>pkg/da/data_availability_header.go\<close>).
\<close>

section \<open>Extending a square\<close>

datatype da_err =
    ErrAppVersionZero | ErrConstructSquare | ErrClassify classify_err | ErrNotPowerOfTwo | ErrSquareSize | ErrExtend
  | ErrRowRoots | ErrColRoots | ErrNilHeader | ErrTooFewRoots | ErrTooManyRoots | ErrUnequalRoots | ErrWrongHash

definition ExtendShares :: "gosquare \<Rightarrow> ('b, 'eds) squarelib \<Rightarrow> bytes list \<Rightarrow> da_err + 'eds" where
  "ExtendShares G L s =
     rbind (require (IsPowerOfTwo G (of_nat (length s))) ErrNotPowerOfTwo) (\<lambda>_.
     rbind (of_opt ErrSquareSize (square_Size L (length s))) (\<lambda>squareSize.
     of_opt ErrExtend (ComputeExtendedDataSquare L s squareSize)))"

definition ExtendSharesWithTreePool :: "gosquare \<Rightarrow> ('b, 'eds) squarelib \<Rightarrow> bytes list \<Rightarrow> da_err + 'eds" where
  "ExtendSharesWithTreePool G L s =
     rbind (require (IsPowerOfTwo G (of_nat (length s))) ErrNotPowerOfTwo) (\<lambda>_.
     of_opt ErrExtend (ComputeExtendedDataSquareWithBuffer L s))"

definition v5_SquareSizeUpperBound :: int64 where
  "v5_SquareSizeUpperBound = 128"

definition v5_SubtreeRootThreshold :: int where
  "v5_SubtreeRootThreshold = 64"

text \<open>The square of a block, by the version of the application. The older versions of the square library construct it
  from the raw transactions.\<close>

definition construct_square ::
  "sdk \<Rightarrow> ('b, 'eds) squarelib \<Rightarrow> (bytes list \<Rightarrow> int64 \<Rightarrow> int \<Rightarrow> bytes list option) \<Rightarrow>
   (bytes list \<Rightarrow> int64 \<Rightarrow> int \<Rightarrow> bytes list option) \<Rightarrow> bytes list \<Rightarrow> uint64 \<Rightarrow> int64 \<Rightarrow> da_err + bytes list" where
  "construct_square E L squarev2_Construct squarev3_Construct txs appVersion maxSquareSize =
     (if appVersion = 0 then Inl ErrAppVersionZero
      else if appVersion \<le> 5 then
        of_opt ErrConstructSquare (squarev2_Construct txs
          (if sint maxSquareSize < 0 then v5_SquareSizeUpperBound else maxSquareSize) v5_SubtreeRootThreshold)
      else if appVersion \<le> 7 then
        of_opt ErrConstructSquare (squarev3_Construct txs
          (if sint maxSquareSize < 0 then SquareSizeUpperBound else maxSquareSize) SubtreeRootThreshold)
      else
        rbind (case ClassifyTxs E L txs of Inl e \<Rightarrow> Inl (ErrClassify e) | Inr cs \<Rightarrow> Inr cs) (\<lambda>classifiedTxs.
        of_opt ErrConstructSquare (Construct L classifiedTxs
          (if sint maxSquareSize < 0 then SquareSizeUpperBound else maxSquareSize) SubtreeRootThreshold)))"

definition ConstructEDS where
  "ConstructEDS E G L squarev2_Construct squarev3_Construct txs appVersion maxSquareSize =
     rbind (construct_square E L squarev2_Construct squarev3_Construct txs appVersion maxSquareSize) (\<lambda>square.
     ExtendShares G L square)"

definition ConstructEDSWithTreePool where
  "ConstructEDSWithTreePool E G L squarev2_Construct squarev3_Construct txs appVersion maxSquareSize =
     rbind (construct_square E L squarev2_Construct squarev3_Construct txs appVersion maxSquareSize) (\<lambda>square.
     ExtendSharesWithTreePool G L square)"

section \<open>The data availability header\<close>

record da_header =
  dah_RowRoots :: "bytes list"
  dah_ColumnRoots :: "bytes list"
  dah_hash :: bytes

record da_header_pb =
  dahp_RowRoots :: "bytes list"
  dahp_ColumnRoots :: "bytes list"

text \<open>The array that is hashed: the row roots, then as many column roots as there are row roots.\<close>

definition dah_slices :: "da_header \<Rightarrow> bytes list" where
  "dah_slices dah =
     (let rowsCount = length (dah_RowRoots dah) in
      dah_RowRoots dah @ take rowsCount (dah_ColumnRoots dah) @ replicate (rowsCount - length (dah_ColumnRoots dah)) [])"

text \<open>\<open>Hash\<close> remembers its result in the header.\<close>

definition dah_Hash :: "('b, 'eds) squarelib \<Rightarrow> da_header option \<Rightarrow> bytes \<times> da_header option" where
  "dah_Hash L d =
     (case d of
        None \<Rightarrow> (HashFromByteSlices L [], None)
      | Some dah \<Rightarrow>
          if dah_hash dah \<noteq> [] then (dah_hash dah, Some dah)
          else let h = HashFromByteSlices L (dah_slices dah) in (h, Some (dah\<lparr>dah_hash := h\<rparr>)))"

definition NewDataAvailabilityHeader :: "('b, 'eds) squarelib \<Rightarrow> 'eds \<Rightarrow> da_err + da_header" where
  "NewDataAvailabilityHeader L eds =
     rbind (of_opt ErrRowRoots (eds_RowRoots L eds)) (\<lambda>rowRoots.
     rbind (of_opt ErrColRoots (eds_ColRoots L eds)) (\<lambda>colRoots.
     let dah = \<lparr>dah_RowRoots = rowRoots, dah_ColumnRoots = colRoots, dah_hash = []\<rparr> in
     Inr (the (snd (dah_Hash L (Some dah))))))"

definition dah_Equals :: "('b, 'eds) squarelib \<Rightarrow> da_header option \<Rightarrow> da_header option \<Rightarrow> bool" where
  "dah_Equals L d d' \<longleftrightarrow> fst (dah_Hash L d) = fst (dah_Hash L d')"

definition dah_ToProto :: "da_header option \<Rightarrow> da_err + da_header_pb" where
  "dah_ToProto d =
     rbind (of_opt ErrNilHeader d) (\<lambda>dah.
     Inr \<lparr>dahp_RowRoots = dah_RowRoots dah, dahp_ColumnRoots = dah_ColumnRoots dah\<rparr>)"

definition minExtendedSquareWidth :: "nat \<Rightarrow> nat" where
  "minExtendedSquareWidth MinSquareSize = MinSquareSize * 2"

definition maxExtendedSquareWidth :: nat where
  "maxExtendedSquareWidth = unat SquareSizeUpperBound * 2"

definition dah_ValidateBasic ::
  "nat \<Rightarrow> (bytes \<Rightarrow> bool) \<Rightarrow> ('b, 'eds) squarelib \<Rightarrow> da_header option \<Rightarrow> da_err + da_header" where
  "dah_ValidateBasic MinSquareSize ValidateHash L d =
     rbind (of_opt ErrNilHeader d) (\<lambda>dah.
     rbind (require (minExtendedSquareWidth MinSquareSize \<le> length (dah_ColumnRoots dah) \<and>
              minExtendedSquareWidth MinSquareSize \<le> length (dah_RowRoots dah)) ErrTooFewRoots) (\<lambda>_.
     rbind (require (length (dah_ColumnRoots dah) \<le> maxExtendedSquareWidth \<and>
              length (dah_RowRoots dah) \<le> maxExtendedSquareWidth) ErrTooManyRoots) (\<lambda>_.
     rbind (require (length (dah_ColumnRoots dah) = length (dah_RowRoots dah)) ErrUnequalRoots) (\<lambda>_.
     rbind (require (ValidateHash (fst (dah_Hash L d))) ErrWrongHash) (\<lambda>_.
     Inr (the (snd (dah_Hash L d))))))))"

definition DataAvailabilityHeaderFromProto ::
  "nat \<Rightarrow> (bytes \<Rightarrow> bool) \<Rightarrow> ('b, 'eds) squarelib \<Rightarrow> da_header_pb option \<Rightarrow> da_err + da_header" where
  "DataAvailabilityHeaderFromProto MinSquareSize ValidateHash L p =
     rbind (of_opt ErrNilHeader p) (\<lambda>dahp.
     dah_ValidateBasic MinSquareSize ValidateHash L
       (Some \<lparr>dah_RowRoots = dahp_RowRoots dahp, dah_ColumnRoots = dahp_ColumnRoots dahp, dah_hash = []\<rparr>))"

definition dah_IsZero :: "da_header option \<Rightarrow> bool" where
  "dah_IsZero d = (case d of None \<Rightarrow> True | Some dah \<Rightarrow> dah_ColumnRoots dah = [] \<or> dah_RowRoots dah = [])"

definition dah_SquareSize :: "da_header \<Rightarrow> nat" where
  "dah_SquareSize dah = length (dah_RowRoots dah) div 2"

definition MinDataAvailabilityHeader ::
  "gosquare \<Rightarrow> ('b, 'eds) squarelib \<Rightarrow> bytes list \<Rightarrow> da_err + da_header" where
  "MinDataAvailabilityHeader G L emptySquare =
     rbind (ExtendShares G L emptySquare) (\<lambda>eds. NewDataAvailabilityHeader L eds)"

section \<open>Properties\<close>

lemma new_header_hash:
  "NewDataAvailabilityHeader L eds = Inr dah \<Longrightarrow>
     fst (dah_Hash L (Some dah)) = HashFromByteSlices L (dah_slices dah)"
  by (auto simp: NewDataAvailabilityHeader_def dah_Hash_def dah_slices_def Let_def)

definition merkle_binding :: "('b, 'eds) squarelib \<Rightarrow> bool" where
  "merkle_binding L \<longleftrightarrow> (\<forall>xs ys. HashFromByteSlices L xs = HashFromByteSlices L ys \<longrightarrow> xs = ys)"

lemma slices_binding:
  assumes "dah_slices d = dah_slices d'"
    and "length (dah_ColumnRoots d) = length (dah_RowRoots d)"
    and "length (dah_ColumnRoots d') = length (dah_RowRoots d')"
  shows "dah_RowRoots d = dah_RowRoots d' \<and> dah_ColumnRoots d = dah_ColumnRoots d'"
proof -
  have eq: "dah_RowRoots d @ dah_ColumnRoots d = dah_RowRoots d' @ dah_ColumnRoots d'"
    using assms by (simp add: dah_slices_def Let_def)
  then have "length (dah_RowRoots d) = length (dah_RowRoots d')"
    using assms(2,3) by (metis length_append mult_2 nat_mult_eq_cancel_disj zero_neq_numeral)
  then show ?thesis using eq by simp
qed

lemma validated_header:
  assumes "DataAvailabilityHeaderFromProto n V L (Some p) = Inr d"
  shows "dah_RowRoots d = dahp_RowRoots p" "dah_ColumnRoots d = dahp_ColumnRoots p"
    "length (dah_ColumnRoots d) = length (dah_RowRoots d)"
    "fst (dah_Hash L (Some d)) = HashFromByteSlices L (dah_slices d)"
  using assms
  by (auto simp: DataAvailabilityHeaderFromProto_def dah_ValidateBasic_def dah_Hash_def dah_slices_def Let_def
      split: if_splits)

text \<open>C36: A header that passed validation is bound by its hash, and survives the trip through protobuf: converting it to
  protobuf and back gives the same header, and two headers compare equal exactly if they have the same row and column
  roots (when the Merkle root has no collision).\<close>

theorem validated_headers_equal_iff_same_roots:
  assumes L: "merkle_binding L"
    and d: "DataAvailabilityHeaderFromProto n V L (Some p) = Inr d"
    and d': "DataAvailabilityHeaderFromProto n V L (Some p') = Inr d'"
  shows "(dah_Equals L (Some d) (Some d') \<longleftrightarrow> p = p') \<and>
    rbind (dah_ToProto (Some d)) (\<lambda>q. DataAvailabilityHeaderFromProto n V L (Some q)) = Inr d"
proof
  have p: "dah_ToProto (Some d) = Inr p"
    using validated_header [OF d] by (simp add: dah_ToProto_def)
  then show "rbind (dah_ToProto (Some d)) (\<lambda>q. DataAvailabilityHeaderFromProto n V L (Some q)) = Inr d"
    using d by simp
  show "dah_Equals L (Some d) (Some d') \<longleftrightarrow> p = p'"
  proof
    assume "dah_Equals L (Some d) (Some d')"
    then have "dah_slices d = dah_slices d'"
      using L validated_header(4) [OF d] validated_header(4) [OF d'] by (simp add: dah_Equals_def merkle_binding_def)
    from slices_binding [OF this] show "p = p'"
      using validated_header [OF d] validated_header [OF d'] by simp
  next
    assume "p = p'"
    then show "dah_Equals L (Some d) (Some d')" using d d' by (simp add: dah_Equals_def)
  qed
qed

text \<open>The reference instance writes every root with a marker before each byte and one after its end.\<close>

lemma marked_append: "concat (map (\<lambda>b. [1, b]) x) @ 0 # r = concat (map (\<lambda>b. [1, b :: 8 word]) y) @ 0 # s \<Longrightarrow> x = y \<and> r = s"
proof (induction x arbitrary: y)
  case Nil
  then show ?case by (cases y) auto
next
  case (Cons a x)
  then show ?case by (cases y) auto
qed

lemma ref_merkle_binding: "merkle_binding ref_lib"
proof -
  have "concat (map (\<lambda>x. concat (map (\<lambda>b. [1, b]) x) @ [0]) xs) =
      concat (map (\<lambda>x. concat (map (\<lambda>b. [1, b]) x) @ [0 :: 8 word]) ys) \<Longrightarrow> xs = ys" for xs ys
  proof (induction xs arbitrary: ys)
    case Nil
    then show ?case by (cases ys) auto
  next
    case (Cons x xs)
    then show ?case by (cases ys) (auto dest: marked_append)
  qed
  then show ?thesis by (simp add: merkle_binding_def ref_lib_def)
qed

theorem validated_headers_equal_iff_same_roots_witness:
  "\<exists>d d'. DataAvailabilityHeaderFromProto 1 (\<lambda>h. h \<noteq> []) ref_lib
      (Some \<lparr>dahp_RowRoots = [[1], [2]], dahp_ColumnRoots = [[3], [4]]\<rparr>) = Inr d \<and>
    DataAvailabilityHeaderFromProto 1 (\<lambda>h. h \<noteq> []) ref_lib
      (Some \<lparr>dahp_RowRoots = [[1], [2]], dahp_ColumnRoots = [[3], [5]]\<rparr>) = Inr d' \<and>
    \<not> dah_Equals ref_lib (Some d) (Some d')"
proof -
  let ?p = "\<lparr>dahp_RowRoots = [[1], [2]], dahp_ColumnRoots = [[3], [4]]\<rparr>"
  let ?p' = "\<lparr>dahp_RowRoots = [[1], [2]], dahp_ColumnRoots = [[3], [5]]\<rparr>"
  have ok: "\<exists>d. DataAvailabilityHeaderFromProto 1 (\<lambda>h. h \<noteq> []) ref_lib
      (Some \<lparr>dahp_RowRoots = [[1], [2]], dahp_ColumnRoots = [[3], [x]]\<rparr>) = Inr d" for x
    by (simp add: DataAvailabilityHeaderFromProto_def dah_ValidateBasic_def minExtendedSquareWidth_def
        maxExtendedSquareWidth_def SquareSizeUpperBound_def dah_Hash_def dah_slices_def ref_lib_def Let_def)
  obtain d d' where d: "DataAvailabilityHeaderFromProto 1 (\<lambda>h. h \<noteq> []) ref_lib (Some ?p) = Inr d"
    "DataAvailabilityHeaderFromProto 1 (\<lambda>h. h \<noteq> []) ref_lib (Some ?p') = Inr d'"
    using ok [of 4] ok [of 5] by auto
  from validated_headers_equal_iff_same_roots [OF ref_merkle_binding d]
  have "\<not> dah_Equals ref_lib (Some d) (Some d')" by simp
  with d show ?thesis by blast
qed

end
