(* ===== verification/CheckTx.thy ===== *)
theory CheckTx
  imports Da
begin

text \<open>
  \<open>CheckTx\<close> (\<open>app/check_tx.go\<close>), the canonical encoding of blob transactions (\<open>app/blob_tx_canonical.go\<close>) and the cache
  of validated blob transactions (\<open>app/pfb_tx_cache.go\<close>) with its use in \<open>app/process_proposal.go\<close>.
\<close>

section \<open>Limits\<close>

definition MaxTxSize :: nat where
  "MaxTxSize = 8388608"

definition MaxPFBMessages :: nat where
  "MaxPFBMessages = 200"

definition MaxSDKMessages :: nat where
  "MaxSDKMessages = 600"

definition MaxPayForFibreMessages :: nat where
  "MaxPayForFibreMessages = 200"

section \<open>The cache of validated blob transactions\<close>

type_synonym tx_cache = "bytes \<rightharpoonup> bytes"

definition NewTxCache :: tx_cache where
  "NewTxCache = Map.empty"

definition getTxKey :: "sdk \<Rightarrow> bytes \<Rightarrow> bytes" where
  "getTxKey E tx = sha256 E tx"

definition getBlobsHash :: "sdk \<Rightarrow> ('b, 'eds) squarelib \<Rightarrow> blob list \<Rightarrow> bytes" where
  "getBlobsHash E L blobs = sha256 E (concat (map (blob_Hash L) blobs))"

definition cache_Exists :: "sdk \<Rightarrow> ('b, 'eds) squarelib \<Rightarrow> tx_cache \<Rightarrow> bytes \<Rightarrow> blob list \<Rightarrow> bool" where
  "cache_Exists E L cache tx blobs =
     (case cache (getTxKey E tx) of None \<Rightarrow> False | Some cachedBlobHash \<Rightarrow> cachedBlobHash = getBlobsHash E L blobs)"

definition cache_Set :: "sdk \<Rightarrow> ('b, 'eds) squarelib \<Rightarrow> bytes \<Rightarrow> blob list \<Rightarrow> tx_cache \<Rightarrow> tx_cache" where
  "cache_Set E L tx blobs cache = cache(getTxKey E tx \<mapsto> getBlobsHash E L blobs)"

definition RemoveTransaction :: "sdk \<Rightarrow> bytes \<Rightarrow> tx_cache \<Rightarrow> tx_cache" where
  "RemoveTransaction E tx cache = cache(getTxKey E tx := None)"

definition finalize_tx_cache :: "sdk \<Rightarrow> bytes list \<Rightarrow> tx_cache \<Rightarrow> tx_cache" where
  "finalize_tx_cache E txs cache = fold (RemoveTransaction E) txs cache"

section \<open>Shape of a transaction\<close>

datatype check_err =
    ErrTxExceedsMaxSize | ErrNonCanonicalBlobTx | ErrParseBlobTx | ErrCheckDecode | ErrCheckBlob blob_err
  | ErrTxExceedsMaxSDKMessages | ErrInvalidPayForFibreTx | ErrUnknownCheckTxType | ErrNoSignerData | ErrBaseApp

definition blobTxIsCanonical :: "('b, 'eds) squarelib \<Rightarrow> bytes \<Rightarrow> blob_tx \<Rightarrow> bool" where
  "blobTxIsCanonical L raw btx =
     (case MarshalBlobTx L (btx_Tx btx) (btx_Blobs btx) of None \<Rightarrow> False | Some canonical \<Rightarrow> raw = canonical)"

fun hasPFB :: "app_msg list \<Rightarrow> msg_pay_for_blobs option" where
  "hasPFB [] = None"
| "hasPFB (m # ms) = (case m of PayForBlobsMsg pfb \<Rightarrow> Some pfb | _ \<Rightarrow> hasPFB ms)"

fun pff_shape :: "sdk \<Rightarrow> nat \<Rightarrow> app_msg list \<Rightarrow> check_err + unit" where
  "pff_shape E n [] = Inr ()"
| "pff_shape E n (m # ms) =
     (case m of
        PayForFibreMsg pff \<Rightarrow>
          if 1 < n then Inl ErrInvalidPayForFibreTx
          else (case PaymentPromise_ValidateBasic E (pf_PaymentPromise pff) of
                  Inl _ \<Rightarrow> Inl ErrInvalidPayForFibreTx
                | Inr _ \<Rightarrow> pff_shape E n ms)
      | _ \<Rightarrow> pff_shape E n ms)"

definition validatePayForFibreTxShape :: "sdk \<Rightarrow> app_tx \<Rightarrow> check_err + unit" where
  "validatePayForFibreTxShape E tx = pff_shape E (length (tx_Msgs tx)) (tx_Msgs tx)"

definition payForFibreMsg :: "app_tx \<Rightarrow> msg_pay_for_fibre option" where
  "payForFibreMsg tx = (case tx_Msgs tx of [PayForFibreMsg pff] \<Rightarrow> Some pff | _ \<Rightarrow> None)"

section \<open>CheckTx\<close>

datatype check_type = CheckTxType_New | CheckTxType_Recheck | CheckTxType_Other

record check_response =
  cr_Err :: "check_err option"
  cr_Address :: bytes
  cr_Sequence :: uint64

text \<open>
  What the application's handlers take from outside: the SDK, the square library, the decoder, and
  \<open>BaseApp.CheckTx\<close> with its own state.
\<close>

record ('b, 'eds, 'k) check_env =
  ce_sdk :: sdk
  ce_square :: gosquare
  ce_lib :: "('b, 'eds) squarelib"
  ce_TxDecoder :: tx_decoder
  ce_KeyAddress :: "pub_key \<Rightarrow> bytes"
  ce_BaseCheckTx :: "check_type \<Rightarrow> bytes \<Rightarrow> 'k \<Rightarrow> (check_response \<times> check_err option) \<times> 'k"

definition decode_msgs :: "tx_decoder \<Rightarrow> bytes \<Rightarrow> app_msg list option" where
  "decode_msgs decoder b = (case decoder b of Inl _ \<Rightarrow> None | Inr tx \<Rightarrow> Some (tx_Msgs tx))"

definition responseCheckTxWithEvents :: "check_err \<Rightarrow> check_response" where
  "responseCheckTxWithEvents e = \<lparr>cr_Err = Some e, cr_Address = [], cr_Sequence = 0\<rparr>"

definition signerDataFromTx :: "(pub_key \<Rightarrow> bytes) \<Rightarrow> app_tx \<Rightarrow> check_err + bytes \<times> uint64" where
  "signerDataFromTx KeyAddress tx =
     rbind (require (tx_IsSigTx tx) ErrNoSignerData) (\<lambda>_.
     rbind (of_opt ErrNoSignerData (tx_Signatures tx)) (\<lambda>sigs.
     case sigs of
       [] \<Rightarrow> Inl ErrNoSignerData
     | sig # _ \<Rightarrow>
         rbind (of_opt ErrNoSignerData (sg_PubKey sig)) (\<lambda>key.
         Inr (KeyAddress key, sg_Sequence sig))))"

definition forwardCheckTx ::
  "('b, 'eds, 'k) check_env \<Rightarrow> check_type \<Rightarrow> bytes \<Rightarrow> app_tx \<Rightarrow> 'k \<Rightarrow> (check_response \<times> check_err option) \<times> 'k" where
  "forwardCheckTx A ty tx sdkTx k =
     (case ce_BaseCheckTx A ty tx k of
        ((res, err), k1) \<Rightarrow>
          if err \<noteq> None \<or> cr_Err res \<noteq> None then ((res, err), k1)
          else (case signerDataFromTx (ce_KeyAddress A) sdkTx of
                  Inl e \<Rightarrow> ((responseCheckTxWithEvents e, Some e), k1)
                | Inr (signerAddr, signerSeq) \<Rightarrow>
                    ((res\<lparr>cr_Address := signerAddr, cr_Sequence := signerSeq\<rparr>, None), k1)))"

definition handleBlobCheckTx ::
  "('b, 'eds, 'k) check_env \<Rightarrow> check_type \<Rightarrow> blob_tx \<Rightarrow> tx_cache \<times> 'k \<Rightarrow>
   (check_response \<times> check_err option) \<times> tx_cache \<times> 'k" where
  "handleBlobCheckTx A ty btx st =
     (let forward = (\<lambda>cache.
            case ce_TxDecoder A (btx_Tx btx) of
              Inl _ \<Rightarrow> ((responseCheckTxWithEvents ErrCheckDecode, Some ErrCheckDecode), cache, snd st)
            | Inr sdkTx \<Rightarrow> (case forwardCheckTx A ty (btx_Tx btx) sdkTx (snd st) of (res, k1) \<Rightarrow> (res, cache, k1)))
      in case ty of
        CheckTxType_New \<Rightarrow>
          (case ValidateBlobTx (ce_sdk A) (ce_square A) (decode_msgs (ce_TxDecoder A)) (Some btx) SubtreeRootThreshold of
             Inl e \<Rightarrow> ((responseCheckTxWithEvents (ErrCheckBlob e), Some (ErrCheckBlob e)), st)
           | Inr _ \<Rightarrow> forward (cache_Set (ce_sdk A) (ce_lib A) (btx_Tx btx) (btx_Blobs btx) (fst st)))
      | CheckTxType_Recheck \<Rightarrow> forward (fst st)
      | CheckTxType_Other \<Rightarrow> ((responseCheckTxWithEvents ErrUnknownCheckTxType, Some ErrUnknownCheckTxType), st))"

definition CheckTx ::
  "('b, 'eds, 'k) check_env \<Rightarrow> check_type \<Rightarrow> bytes \<Rightarrow> tx_cache \<times> 'k \<Rightarrow>
   (check_response \<times> check_err option) \<times> tx_cache \<times> 'k" where
  "CheckTx A ty tx st =
     (if MaxTxSize < length tx then ((responseCheckTxWithEvents ErrTxExceedsMaxSize, None), st)
      else case UnmarshalBlobTx (ce_lib A) tx of
        MalformedBlobTx nonCanonical \<Rightarrow>
          if nonCanonical then ((responseCheckTxWithEvents ErrNonCanonicalBlobTx, None), st)
          else ((responseCheckTxWithEvents ErrParseBlobTx, Some ErrParseBlobTx), st)
      | ParsedBlobTx btx \<Rightarrow>
          if \<not> blobTxIsCanonical (ce_lib A) tx btx then ((responseCheckTxWithEvents ErrNonCanonicalBlobTx, None), st)
          else handleBlobCheckTx A ty btx st
      | NotBlobTx \<Rightarrow>
          (case ce_TxDecoder A tx of
             Inl _ \<Rightarrow> ((responseCheckTxWithEvents ErrCheckDecode, Some ErrCheckDecode), st)
           | Inr sdkTx \<Rightarrow>
               if hasPFB (tx_Msgs sdkTx) \<noteq> None then ((responseCheckTxWithEvents (ErrCheckBlob ErrNoBlobs), None), st)
               else if MaxSDKMessages < length (tx_Msgs sdkTx) then
                 ((responseCheckTxWithEvents ErrTxExceedsMaxSDKMessages, None), st)
               else (case validatePayForFibreTxShape (ce_sdk A) sdkTx of
                       Inl e \<Rightarrow> ((responseCheckTxWithEvents e, None), st)
                     | Inr _ \<Rightarrow> (case forwardCheckTx A ty tx sdkTx (snd st) of (res, k1) \<Rightarrow> (res, fst st, k1)))))"

text \<open>A transaction enters the mempool if its response is without error.\<close>

definition check_accepted :: "(check_response \<times> check_err option) \<times> tx_cache \<times> 'k \<Rightarrow> bool" where
  "check_accepted r \<longleftrightarrow> snd (fst r) = None \<and> cr_Err (fst (fst r)) = None"

definition ValidateBlobTxWithCache ::
  "('b, 'eds, 'k) check_env \<Rightarrow> tx_cache \<Rightarrow> blob_tx \<Rightarrow> blob_err + bool" where
  "ValidateBlobTxWithCache A cache blobTx =
     (let E = ce_sdk A; G = ce_square A; dec = decode_msgs (ce_TxDecoder A) in
      if cache_Exists E (ce_lib A) cache (btx_Tx blobTx) (btx_Blobs blobTx)
      then rbind (ValidateBlobTxSkipCommitment E G dec (Some blobTx)) (\<lambda>_. Inr True)
      else rbind (ValidateBlobTx E G dec (Some blobTx) SubtreeRootThreshold) (\<lambda>_. Inr False))"

end
