(* ===== verification/Proposal.thy ===== *)
theory Proposal
  imports CheckTx
begin

text \<open>
  The proposal handlers: \<open>app/filtered_square_builder.go\<close>, \<open>app/prepare_proposal.go\<close>, \<open>app/process_proposal.go\<close> and
  \<open>app/pff_execution.go\<close>. The ante handler and the message router are parameters.
\<close>

section \<open>Contexts and handlers\<close>

text \<open>A context of the application: what the handlers of the repository set or read in it, the gas meter, and the branch of
  the state it works on.\<close>

record ('m, 's) app_ctx =
  ac_ChainID :: string
  ac_TxBytes :: bytes
  ac_Meter :: 'm
  ac_Store :: 's

text \<open>The ante handler returns a context with its writes even if it refuses the transaction, or panics.\<close>

datatype 'c ante_result = AnteOk 'c | AnteRefused 'c | AntePanics

type_synonym 'c msg_handler = "'c \<Rightarrow> app_msg \<Rightarrow> 'c option"

record ('m, 's) app_env =
  ae_Ante :: "('m, 's) app_ctx \<Rightarrow> app_tx \<Rightarrow> ('m, 's) app_ctx ante_result"
  ae_Router :: "(app_msg \<Rightarrow> ('m, 's) app_ctx msg_handler option) option"
  ae_Blob :: "'s \<Rightarrow> blob_state"

fun run_msgs :: "(app_msg \<Rightarrow> 'c msg_handler option) \<Rightarrow> app_msg list \<Rightarrow> 'c \<Rightarrow> 'c option" where
  "run_msgs router [] c = Some c"
| "run_msgs router (m # ms) c =
     (case router m of
        None \<Rightarrow> None
      | Some h \<Rightarrow> (case h c m of None \<Rightarrow> None | Some c' \<Rightarrow> run_msgs router ms c'))"

text \<open>The messages run on a branch of the state that is written back only if all of them succeed; the gas meter is shared.\<close>

definition executeTxMsgs ::
  "(app_msg \<Rightarrow> ('m, 's) app_ctx msg_handler option) option \<Rightarrow> ('m, 's) app_ctx \<Rightarrow> app_tx \<Rightarrow> ('m, 's) app_ctx option" where
  "executeTxMsgs router c sdkTx =
     (case router of
        None \<Rightarrow> Some c
      | Some r \<Rightarrow>
          (case run_msgs r (tx_Msgs sdkTx) c of
             None \<Rightarrow> None
           | Some c' \<Rightarrow> Some (c\<lparr>ac_Meter := ac_Meter c', ac_Store := ac_Store c'\<rparr>)))"

definition countMsgPayForFibre :: "app_tx \<Rightarrow> nat" where
  "countMsgPayForFibre tx = length (filter (\<lambda>m. case m of PayForFibreMsg _ \<Rightarrow> True | _ \<Rightarrow> False) (tx_Msgs tx))"

section \<open>Filling a square\<close>

datatype proposal_err = ErrNewBuilder | ErrBuildSquare | ErrProposalDa da_err | ErrProposalSize | ProposalPanic

text \<open>Transactions are dropped once the framed size of those before them would exceed the limit.\<close>

fun filter_max_bytes :: "(bytes \<Rightarrow> int64) \<Rightarrow> int64 \<Rightarrow> int64 \<Rightarrow> bytes list \<Rightarrow> bytes list" where
  "filter_max_bytes protoSize maxTxBytes currentTxBytes [] = []"
| "filter_max_bytes protoSize maxTxBytes currentTxBytes (tx # txs) =
     (let txProtoSize = protoSize tx in
      if sint maxTxBytes < sint (currentTxBytes + txProtoSize)
      then filter_max_bytes protoSize maxTxBytes currentTxBytes txs
      else tx # filter_max_bytes protoSize maxTxBytes (currentTxBytes + txProtoSize) txs)"

fun separateTxs ::
  "('b, 'eds, 'k) check_env \<Rightarrow> bytes list \<Rightarrow> bytes list \<times> blob_tx list \<times> bytes list \<times> bytes list" where
  "separateTxs A [] = ([], [], [], [])"
| "separateTxs A (rawTx # rawTxs) =
     (let (normalTxs, blobTxs, rawBlobTxs, payForFibreTxs) = separateTxs A rawTxs;
          skip = (normalTxs, blobTxs, rawBlobTxs, payForFibreTxs) in
      if MaxTxSize < length rawTx then skip
      else case UnmarshalBlobTx (ce_lib A) rawTx of
        MalformedBlobTx _ \<Rightarrow> skip
      | ParsedBlobTx bTx \<Rightarrow>
          if \<not> blobTxIsCanonical (ce_lib A) rawTx bTx then skip
          else (normalTxs, bTx # blobTxs, rawTx # rawBlobTxs, payForFibreTxs)
      | NotBlobTx \<Rightarrow>
          (case ce_TxDecoder A rawTx of
             Inl _ \<Rightarrow> skip
           | Inr sdkTx \<Rightarrow>
               if 0 < countMsgPayForFibre sdkTx then
                 (case validatePayForFibreTxShape (ce_sdk A) sdkTx of
                    Inl _ \<Rightarrow> skip
                  | Inr _ \<Rightarrow> (normalTxs, blobTxs, rawBlobTxs, rawTx # payForFibreTxs))
               else (rawTx # normalTxs, blobTxs, rawBlobTxs, payForFibreTxs)))"

text \<open>A loop of \<open>Fill\<close> compacts its array in place: entry \<open>n\<close> is the next one to be overwritten by a kept transaction.\<close>

record ('m, 's, 'b) fill_state =
  fs_Ctx :: "('m, 's) app_ctx"
  fs_Builder :: 'b
  fs_Count :: nat
  fs_Array :: "bytes list"
  fs_Next :: nat

definition fill_normal_tx ::
  "('b, 'eds, 'k) check_env \<Rightarrow> ('m, 's) app_env \<Rightarrow> nat \<Rightarrow> ('m, 's, 'b) fill_state \<Rightarrow>
   proposal_err + ('m, 's, 'b) fill_state" where
  "fill_normal_tx A H i st =
     (let tx = fs_Array st ! i in
      case ce_TxDecoder A tx of
        Inl _ \<Rightarrow> Inr st
      | Inr sdkTx \<Rightarrow>
          let ctx = (fs_Ctx st)\<lparr>ac_TxBytes := tx\<rparr>; st = st\<lparr>fs_Ctx := ctx\<rparr> in
          if MaxSDKMessages < fs_Count st + length (tx_Msgs sdkTx) then Inr st
          else case AppendTx (ce_lib A) (fs_Builder st) tx of
            (b, False) \<Rightarrow> Inr (st\<lparr>fs_Builder := b\<rparr>)
          | (b, True) \<Rightarrow>
              (case ae_Ante H ctx sdkTx of
                 AntePanics \<Rightarrow> Inl ProposalPanic
               | AnteRefused c \<Rightarrow> Inr (st\<lparr>fs_Ctx := c, fs_Builder := RevertLastTx (ce_lib A) b\<rparr>)
               | AnteOk c \<Rightarrow>
                   Inr (st\<lparr>fs_Ctx := c, fs_Builder := b, fs_Count := fs_Count st + length (tx_Msgs sdkTx),
                        fs_Array := (fs_Array st)[fs_Next st := tx], fs_Next := fs_Next st + 1\<rparr>)))"

fun fill_normal ::
  "('b, 'eds, 'k) check_env \<Rightarrow> ('m, 's) app_env \<Rightarrow> nat list \<Rightarrow> ('m, 's, 'b) fill_state \<Rightarrow>
   proposal_err + ('m, 's, 'b) fill_state" where
  "fill_normal A H [] st = Inr st"
| "fill_normal A H (i # is) st = rbind (fill_normal_tx A H i st) (fill_normal A H is)"

definition fill_blob_tx ::
  "('b, 'eds, 'k) check_env \<Rightarrow> ('m, 's) app_env \<Rightarrow> nat \<Rightarrow> blob_tx \<Rightarrow> ('m, 's, 'b) fill_state \<Rightarrow>
   proposal_err + ('m, 's, 'b) fill_state" where
  "fill_blob_tx A H i tx st =
     (case ce_TxDecoder A (btx_Tx tx) of
        Inl _ \<Rightarrow> Inr st
      | Inr sdkTx \<Rightarrow>
          let ctx = (fs_Ctx st)\<lparr>ac_TxBytes := btx_Tx tx\<rparr>; st = st\<lparr>fs_Ctx := ctx\<rparr> in
          if MaxPFBMessages < fs_Count st + length (tx_Msgs sdkTx) then Inr st
          else case AppendBlobTx (ce_lib A) (fs_Builder st) tx of
            (b, None) \<Rightarrow> Inr (st\<lparr>fs_Builder := b\<rparr>)
          | (b, Some False) \<Rightarrow> Inr (st\<lparr>fs_Builder := b\<rparr>)
          | (b, Some True) \<Rightarrow>
              (case ae_Ante H ctx sdkTx of
                 AntePanics \<Rightarrow> Inl ProposalPanic
               | AnteRefused c \<Rightarrow> Inr (st\<lparr>fs_Ctx := c, fs_Builder := RevertLastBlobTx (ce_lib A) b\<rparr>)
               | AnteOk c \<Rightarrow>
                   Inr (st\<lparr>fs_Ctx := c, fs_Builder := b, fs_Count := fs_Count st + length (tx_Msgs sdkTx),
                        fs_Array := (fs_Array st)[fs_Next st := fs_Array st ! i], fs_Next := fs_Next st + 1\<rparr>)))"

fun fill_blobs ::
  "('b, 'eds, 'k) check_env \<Rightarrow> ('m, 's) app_env \<Rightarrow> nat \<Rightarrow> blob_tx list \<Rightarrow> ('m, 's, 'b) fill_state \<Rightarrow>
   proposal_err + ('m, 's, 'b) fill_state" where
  "fill_blobs A H i [] st = Inr st"
| "fill_blobs A H i (tx # txs) st = rbind (fill_blob_tx A H i tx st) (fill_blobs A H (Suc i) txs)"

text \<open>A fibre transaction works on its own branch of the state, which is committed only if it is kept.\<close>

definition fill_fibre_tx ::
  "('b, 'eds, 'k) check_env \<Rightarrow> ('m, 's) app_env \<Rightarrow> ('m, 's) app_ctx \<Rightarrow> bytes \<Rightarrow> ('s \<times> 'b \<times> nat \<times> bytes list) \<Rightarrow>
   proposal_err + 's \<times> 'b \<times> nat \<times> bytes list" where
  "fill_fibre_tx A H ctx rawTx st =
     (case st of (store, builder, pffMessageCount, fibreTxs) \<Rightarrow>
      case TryParseFibreTx (ce_sdk A) (ce_lib A) rawTx of
        Inl _ \<Rightarrow> Inr st
      | Inr None \<Rightarrow> Inr st
      | Inr (Some fibreTx) \<Rightarrow>
          (case ce_TxDecoder A rawTx of
             Inl _ \<Rightarrow> Inr st
           | Inr sdkTx \<Rightarrow>
               if MaxPayForFibreMessages < pffMessageCount + length (tx_Msgs sdkTx) then Inr st
               else
                 let txCtx = ctx\<lparr>ac_Store := store, ac_TxBytes := rawTx\<rparr> in
                 case AppendFibreTx (ce_lib A) builder fibreTx of
                   (b, None) \<Rightarrow> Inr (store, b, pffMessageCount, fibreTxs)
                 | (b, Some False) \<Rightarrow> Inr (store, b, pffMessageCount, fibreTxs)
                 | (b, Some True) \<Rightarrow>
                     (case ae_Ante H txCtx sdkTx of
                        AntePanics \<Rightarrow> Inl ProposalPanic
                      | AnteRefused _ \<Rightarrow>
                          Inr (store, RevertLastPayForFibreTx (ce_lib A) b, pffMessageCount, fibreTxs)
                      | AnteOk c \<Rightarrow>
                          (case executeTxMsgs (ae_Router H) c sdkTx of
                             None \<Rightarrow> Inr (store, RevertLastPayForFibreTx (ce_lib A) b, pffMessageCount, fibreTxs)
                           | Some c' \<Rightarrow>
                               Inr (ac_Store c', b, pffMessageCount + length (tx_Msgs sdkTx), fibreTxs @ [rawTx])))))"

fun fill_fibre ::
  "('b, 'eds, 'k) check_env \<Rightarrow> ('m, 's) app_env \<Rightarrow> ('m, 's) app_ctx \<Rightarrow> bytes list \<Rightarrow> ('s \<times> 'b \<times> nat \<times> bytes list) \<Rightarrow>
   proposal_err + 's \<times> 'b \<times> nat \<times> bytes list" where
  "fill_fibre A H ctx [] st = Inr st"
| "fill_fibre A H ctx (rawTx # rawTxs) st = rbind (fill_fibre_tx A H ctx rawTx st) (fill_fibre A H ctx rawTxs)"

definition processFibreTxsForSquare ::
  "('b, 'eds, 'k) check_env \<Rightarrow> ('m, 's) app_env \<Rightarrow> ('m, 's) app_ctx \<Rightarrow> 'b \<Rightarrow> bytes list \<Rightarrow>
   proposal_err + 'b \<times> bytes list" where
  "processFibreTxsForSquare A H ctx builder payForFibreTxs =
     rbind (fill_fibre A H ctx payForFibreTxs (ac_Store ctx, builder, 0, [])) (\<lambda>(_, b, _, fibreTxs).
     Inr (b, fibreTxs))"

definition Fill ::
  "('b, 'eds, 'k) check_env \<Rightarrow> ('m, 's) app_env \<Rightarrow> 'b \<Rightarrow> ('m, 's) app_ctx \<Rightarrow> bytes list \<Rightarrow> int64 \<Rightarrow>
   proposal_err + 'b \<times> bytes list" where
  "Fill A H builder ctx txs maxTxBytes =
     (let filteredByMaxBytes =
            (if 0 < sint maxTxBytes
             then filter_max_bytes (ComputeProtoSizeForTxs (ce_lib A)) maxTxBytes 0 txs else txs);
          (normalTxs, blobTxs, rawBlobTxs, payForFibreTxs) = separateTxs A filteredByMaxBytes in
      rbind (fill_normal A H [0..<length normalTxs]
               \<lparr>fs_Ctx = ctx, fs_Builder = builder, fs_Count = 0, fs_Array = normalTxs, fs_Next = 0\<rparr>) (\<lambda>st.
      rbind (fill_blobs A H 0 blobTxs
               \<lparr>fs_Ctx = fs_Ctx st, fs_Builder = fs_Builder st, fs_Count = 0, fs_Array = rawBlobTxs, fs_Next = 0\<rparr>) (\<lambda>bt.
      rbind (processFibreTxsForSquare A H (fs_Ctx bt) (fs_Builder bt) payForFibreTxs) (\<lambda>(b, fibreTxs).
      Inr (b, take (fs_Next st) (fs_Array st) @ take (fs_Next bt) (fs_Array bt) @ fibreTxs)))))"

section \<open>PrepareProposal\<close>

record proposal =
  pr_Txs :: "bytes list"
  pr_SquareSize :: uint64
  pr_DataRootHash :: bytes

definition da_result :: "da_err + 'a \<Rightarrow> proposal_err + 'a" where
  "da_result r = (case r of Inl e \<Rightarrow> Inl (ErrProposalDa e) | Inr x \<Rightarrow> Inr x)"

definition PrepareProposalHandler ::
  "('b, 'eds, 'k) check_env \<Rightarrow> ('m, 's) app_env \<Rightarrow> ('m, 's) app_ctx \<Rightarrow> bytes list \<Rightarrow> int64 \<Rightarrow>
   proposal_err + proposal" where
  "PrepareProposalHandler A H ctx reqTxs maxTxBytes =
     rbind (of_opt ErrNewBuilder (NewBuilder (ce_lib A)
              (MaxEffectiveSquareSize (ae_Blob H (ac_Store ctx)) (ac_ChainID ctx)) SubtreeRootThreshold)) (\<lambda>builder.
     rbind (Fill A H builder ctx reqTxs maxTxBytes) (\<lambda>(b, txs).
     rbind (of_opt ErrBuildSquare (builder_Export (ce_lib A) b)) (\<lambda>dataSquare.
     rbind (da_result (ExtendSharesWithTreePool (ce_square A) (ce_lib A) dataSquare)) (\<lambda>eds.
     rbind (da_result (NewDataAvailabilityHeader (ce_lib A) eds)) (\<lambda>dah.
     rbind (of_opt ErrProposalSize (square_Size (ce_lib A) (length dataSquare))) (\<lambda>squareSize.
     Inr \<lparr>pr_Txs = txs, pr_SquareSize = squareSize, pr_DataRootHash = fst (dah_Hash (ce_lib A) (Some dah))\<rparr>))))))"

section \<open>ProcessProposal\<close>

record ('m, 's) process_state =
  ps_Ctx :: "('m, 's) app_ctx"
  ps_Sdk :: nat
  ps_Pfb :: nat
  ps_Pff :: nat

datatype verdict = ACCEPT | REJECT

text \<open>One transaction of the proposal; \<open>None\<close> rejects it. A panic is recovered and rejects, too.\<close>

definition process_plain_tx ::
  "('b, 'eds, 'k) check_env \<Rightarrow> ('m, 's) app_env \<Rightarrow> bytes \<Rightarrow> ('m, 's) process_state \<Rightarrow> ('m, 's) process_state option" where
  "process_plain_tx A H rawTx st =
     (case ce_TxDecoder A rawTx of
        Inl _ \<Rightarrow> None
      | Inr sdkTx \<Rightarrow>
          let ctx = (ps_Ctx st)\<lparr>ac_TxBytes := rawTx\<rparr>;
              msgs = tx_Msgs sdkTx;
              isPFF = (payForFibreMsg sdkTx \<noteq> None);
              st = (if isPFF then st\<lparr>ps_Pff := ps_Pff st + 1\<rparr> else st\<lparr>ps_Sdk := ps_Sdk st + length msgs\<rparr>) in
          if hasPFB msgs \<noteq> None then None
          else case validatePayForFibreTxShape (ce_sdk A) sdkTx of
            Inl _ \<Rightarrow> None
          | Inr _ \<Rightarrow>
              if isPFF \<and> 0 < MaxPayForFibreMessages \<and> MaxPayForFibreMessages < ps_Pff st then None
              else if \<not> isPFF \<and> MaxSDKMessages < ps_Sdk st then None
              else case ae_Ante H ctx sdkTx of
                AnteOk c \<Rightarrow>
                  if isPFF then
                    (case executeTxMsgs (ae_Router H) c sdkTx of
                       None \<Rightarrow> None
                     | Some c' \<Rightarrow> Some (st\<lparr>ps_Ctx := c'\<rparr>))
                  else Some (st\<lparr>ps_Ctx := c\<rparr>)
              | _ \<Rightarrow> None)"

definition process_blob_tx ::
  "('b, 'eds, 'k) check_env \<Rightarrow> ('m, 's) app_env \<Rightarrow> tx_cache \<Rightarrow> blob_tx \<Rightarrow> ('m, 's) process_state \<Rightarrow>
   ('m, 's) process_state option" where
  "process_blob_tx A H cache blobTx st =
     (case ce_TxDecoder A (btx_Tx blobTx) of
        Inl _ \<Rightarrow> None
      | Inr sdkTx \<Rightarrow>
          let ctx = (ps_Ctx st)\<lparr>ac_TxBytes := btx_Tx blobTx\<rparr> in
          case ValidateBlobTxWithCache A cache blobTx of
            Inl _ \<Rightarrow> None
          | Inr _ \<Rightarrow>
              let st = st\<lparr>ps_Pfb := ps_Pfb st + length (tx_Msgs sdkTx)\<rparr> in
              if MaxPFBMessages < ps_Pfb st then None
              else case ae_Ante H ctx sdkTx of
                AnteOk c \<Rightarrow> Some (st\<lparr>ps_Ctx := c\<rparr>)
              | _ \<Rightarrow> None)"

definition process_tx ::
  "('b, 'eds, 'k) check_env \<Rightarrow> ('m, 's) app_env \<Rightarrow> tx_cache \<Rightarrow> bytes \<Rightarrow> ('m, 's) process_state \<Rightarrow>
   ('m, 's) process_state option" where
  "process_tx A H cache rawTx st =
     (if MaxTxSize < length rawTx then None
      else case UnmarshalBlobTx (ce_lib A) rawTx of
        MalformedBlobTx _ \<Rightarrow> None
      | ParsedBlobTx blobTx \<Rightarrow>
          if \<not> blobTxIsCanonical (ce_lib A) rawTx blobTx then None else process_blob_tx A H cache blobTx st
      | NotBlobTx \<Rightarrow> process_plain_tx A H rawTx st)"

fun process_txs ::
  "('b, 'eds, 'k) check_env \<Rightarrow> ('m, 's) app_env \<Rightarrow> tx_cache \<Rightarrow> bytes list \<Rightarrow> ('m, 's) process_state \<Rightarrow>
   ('m, 's) process_state option" where
  "process_txs A H cache [] st = Some st"
| "process_txs A H cache (rawTx # rawTxs) st =
     (case process_tx A H cache rawTx st of None \<Rightarrow> None | Some st' \<Rightarrow> process_txs A H cache rawTxs st')"

text \<open>The checks after the loop: the square of the transactions has the size and the data root of the proposal.\<close>

definition process_square :: "('b, 'eds, 'k) check_env \<Rightarrow> int64 \<Rightarrow> proposal \<Rightarrow> bool" where
  "process_square A maxSquareSize req =
     (case ClassifyTxs (ce_sdk A) (ce_lib A) (pr_Txs req) of
        Inl _ \<Rightarrow> False
      | Inr classifiedTxs \<Rightarrow>
          (case Construct (ce_lib A) classifiedTxs maxSquareSize SubtreeRootThreshold of
             None \<Rightarrow> False
           | Some dataSquare \<Rightarrow>
               (case ExtendSharesWithTreePool (ce_square A) (ce_lib A) dataSquare of
                  Inl _ \<Rightarrow> False
                | Inr eds \<Rightarrow>
                    if eds_Width (ce_lib A) eds div 2 \<noteq> pr_SquareSize req then False
                    else case NewDataAvailabilityHeader (ce_lib A) eds of
                      Inl _ \<Rightarrow> False
                    | Inr dah \<Rightarrow> fst (dah_Hash (ce_lib A) (Some dah)) = pr_DataRootHash req)))"

definition ProcessProposalHandler ::
  "('b, 'eds, 'k) check_env \<Rightarrow> ('m, 's) app_env \<Rightarrow> tx_cache \<Rightarrow> ('m, 's) app_ctx \<Rightarrow> proposal \<Rightarrow> verdict" where
  "ProcessProposalHandler A H cache ctx req =
     (case process_txs A H cache (pr_Txs req) \<lparr>ps_Ctx = ctx, ps_Sdk = 0, ps_Pfb = 0, ps_Pff = 0\<rparr> of
        None \<Rightarrow> REJECT
      | Some st \<Rightarrow>
          if process_square A
               (MaxEffectiveSquareSize (ae_Blob H (ac_Store (ps_Ctx st))) (ac_ChainID (ps_Ctx st))) req
          then ACCEPT else REJECT)"

end
