(* ===== verification/CheckInv.thy ===== *)
theory CheckInv
  imports CheckTx
begin

text \<open>
  What \<open>CheckTx\<close> admits, and that the cache of validated blob transactions never changes a verdict.
\<close>

section \<open>What the mempool admits\<close>

definition blob_tx_valid :: "('b, 'eds, 'k) check_env \<Rightarrow> blob_tx \<Rightarrow> bool" where
  "blob_tx_valid A btx \<longleftrightarrow>
     ValidateBlobTx (ce_sdk A) (ce_square A) (decode_msgs (ce_TxDecoder A)) (Some btx) SubtreeRootThreshold = Inr ()"

text \<open>The stateless conditions on the raw bytes of one transaction of a block.\<close>

definition well_formed_tx :: "('b, 'eds, 'k) check_env \<Rightarrow> bytes \<Rightarrow> bool" where
  "well_formed_tx A raw \<longleftrightarrow> length raw \<le> MaxTxSize \<and>
     (case UnmarshalBlobTx (ce_lib A) raw of
        MalformedBlobTx _ \<Rightarrow> False
      | ParsedBlobTx btx \<Rightarrow> blobTxIsCanonical (ce_lib A) raw btx \<and> blob_tx_valid A btx
      | NotBlobTx \<Rightarrow>
          (case ce_TxDecoder A raw of
             Inl _ \<Rightarrow> False
           | Inr tx \<Rightarrow> hasPFB (tx_Msgs tx) = None \<and> validatePayForFibreTxShape (ce_sdk A) tx = Inr ()))"

lemma response_err [simp]: "cr_Err (responseCheckTxWithEvents e) = Some e"
  by (simp add: responseCheckTxWithEvents_def)

lemma check_accepted_iff [simp]:
  "check_accepted ((r, e), st) \<longleftrightarrow> e = None \<and> cr_Err r = None"
  by (simp add: check_accepted_def)

lemma check_tx_well_formed:
  assumes "check_accepted (CheckTx A CheckTxType_New raw st)"
  shows "well_formed_tx A raw"
  using assms
  by (auto simp: CheckTx_def well_formed_tx_def handleBlobCheckTx_def blob_tx_valid_def
      split: if_splits blob_tx_parse.splits sum.splits prod.splits)

section \<open>The cache of validated blob transactions is sound\<close>

text \<open>A run of a node: it checks transactions, all of whose blobs are in \<open>S\<close>, and finalizes blocks.\<close>

definition blobs_of :: "('b, 'eds, 'k) check_env \<Rightarrow> bytes \<Rightarrow> blob set" where
  "blobs_of A raw = (case UnmarshalBlobTx (ce_lib A) raw of ParsedBlobTx btx \<Rightarrow> set (btx_Blobs btx) | _ \<Rightarrow> {})"

inductive check_step ::
  "('b, 'eds, 'k) check_env \<Rightarrow> blob set \<Rightarrow> tx_cache \<Rightarrow> tx_cache \<Rightarrow> bool" for A S where
  step_check: "blobs_of A tx \<subseteq> S \<Longrightarrow> CheckTx A ty tx (cache, k) = (r, cache', k') \<Longrightarrow> check_step A S cache cache'"
| step_finalize: "check_step A S cache (finalize_tx_cache (ce_sdk A) txs cache)"

definition check_init :: "tx_cache \<Rightarrow> bool" where
  "check_init cache \<longleftrightarrow> cache = NewTxCache"

definition tx_cache_justified :: "('b, 'eds, 'k) check_env \<Rightarrow> blob set \<Rightarrow> tx_cache \<Rightarrow> bool" where
  "tx_cache_justified A S cache \<longleftrightarrow> (\<forall>k v. cache k = Some v \<longrightarrow>
     (\<exists>btx. k = getTxKey (ce_sdk A) (btx_Tx btx) \<and> v = getBlobsHash (ce_sdk A) (ce_lib A) (btx_Blobs btx) \<and>
        set (btx_Blobs btx) \<subseteq> S \<and> blob_tx_valid A btx))"

lemma remove_le: "RemoveTransaction E tx cache \<subseteq>\<^sub>m cache"
  by (simp add: RemoveTransaction_def map_le_def)

lemma finalize_le: "finalize_tx_cache E txs cache \<subseteq>\<^sub>m cache"
  unfolding finalize_tx_cache_def
  by (induction txs arbitrary: cache) (auto intro: map_le_trans remove_le)

lemma finalize_tx_cache_le: "finalize_tx_cache E txs cache k = Some v \<Longrightarrow> cache k = Some v"
  using finalize_le [of E txs cache] by (metis domI map_le_def)

lemma check_tx_cache:
  assumes "CheckTx A ty tx (cache, k) = (r, cache', k')" and "blobs_of A tx \<subseteq> S"
  shows "cache' = cache \<or> (\<exists>btx. blob_tx_valid A btx \<and> set (btx_Blobs btx) \<subseteq> S \<and>
    cache' = cache_Set (ce_sdk A) (ce_lib A) (btx_Tx btx) (btx_Blobs btx) cache)"
  using assms
  by (auto simp: CheckTx_def handleBlobCheckTx_def Let_def blob_tx_valid_def blobs_of_def
      split: if_splits blob_tx_parse.splits sum.splits prod.splits check_type.splits)

lemma check_step_justified:
  assumes "check_step A S cache cache'" and "tx_cache_justified A S cache"
  shows "tx_cache_justified A S cache'"
  using assms(1)
proof (cases rule: check_step.cases)
  case (step_check tx ty k r k')
  from check_tx_cache [OF step_check(2,1)] show ?thesis
    using assms(2) unfolding tx_cache_justified_def cache_Set_def by (auto split: if_splits)
next
  case (step_finalize txs)
  then show ?thesis
    using assms(2) finalize_tx_cache_le unfolding tx_cache_justified_def by blast
qed

interpretation tx_cache: step_invariant check_init "check_step A S" "tx_cache_justified A S" for A S
proof unfold_locales
  show "tx_cache_justified A S c" if "check_init c" for c
    using that by (simp add: check_init_def tx_cache_justified_def NewTxCache_def)
qed (rule check_step_justified)

text \<open>The hashes of the blobs in \<open>S\<close> have one size and no collisions, so hashing them one after the other keeps the
  blobs apart.\<close>

definition blob_hash_laws :: "('b, 'eds) squarelib \<Rightarrow> blob set \<Rightarrow> bool" where
  "blob_hash_laws L S \<longleftrightarrow> (\<forall>b\<in>S. length (blob_Hash L b) = 32) \<and> inj_on (blob_Hash L) S"

lemma concat_fixed_inj:
  assumes len: "\<And>x. x \<in> S \<Longrightarrow> length (f x) = n" and "0 < n" and inj: "inj_on f S"
  shows "set xs \<subseteq> S \<Longrightarrow> set ys \<subseteq> S \<Longrightarrow> concat (map f xs) = concat (map f ys) \<Longrightarrow> xs = ys"
proof (induction xs arbitrary: ys)
  case Nil
  then show ?case using len assms(2) by (cases ys) fastforce+
next
  case (Cons x xs)
  show ?case
  proof (cases ys)
    case Nil
    then show ?thesis using Cons.prems len [of x] assms(2) by auto
  next
    case (Cons y zs)
    then have "f x @ concat (map f xs) = f y @ concat (map f zs)" using Cons.prems by simp
    moreover have "length (f x) = length (f y)" using len Cons Cons.prems by simp
    ultimately have "f x = f y" "concat (map f xs) = concat (map f zs)" by auto
    then show ?thesis using Cons.IH [of zs] inj Cons Cons.prems by (auto dest: inj_onD)
  qed
qed

lemma blobs_hash_inj:
  assumes "collision_free E" and "blob_hash_laws L S" and "set bs \<subseteq> S" "set bs' \<subseteq> S"
    and "getBlobsHash E L bs = getBlobsHash E L bs'"
  shows "bs = bs'"
proof (rule concat_fixed_inj [OF _ _ _ assms(3,4)])
  show "concat (map (blob_Hash L) bs) = concat (map (blob_Hash L) bs')"
    using assms(1,5) by (simp add: getBlobsHash_def collision_free_def)
qed (use assms(2) in \<open>auto simp: blob_hash_laws_def\<close>)

lemma valid_passes_cache:
  "blob_tx_valid A btx \<Longrightarrow> \<exists>fromCache. ValidateBlobTxWithCache A cache btx = Inr fromCache"
  by (auto simp: ValidateBlobTxWithCache_def blob_tx_valid_def ValidateBlobTx_def Let_def)

lemma cache_verdict:
  assumes j: "tx_cache_justified A S cache" and E: "collision_free (ce_sdk A)" and L: "blob_hash_laws (ce_lib A) S"
    and S: "set (btx_Blobs btx) \<subseteq> S"
  shows "(\<exists>fromCache. ValidateBlobTxWithCache A cache btx = Inr fromCache) \<longleftrightarrow> blob_tx_valid A btx"
proof (cases "cache_Exists (ce_sdk A) (ce_lib A) cache (btx_Tx btx) (btx_Blobs btx)")
  case True
  then have "cache (getTxKey (ce_sdk A) (btx_Tx btx)) = Some (getBlobsHash (ce_sdk A) (ce_lib A) (btx_Blobs btx))"
    by (auto simp: cache_Exists_def split: option.splits)
  then obtain b where b: "getTxKey (ce_sdk A) (btx_Tx btx) = getTxKey (ce_sdk A) (btx_Tx b)"
    "getBlobsHash (ce_sdk A) (ce_lib A) (btx_Blobs btx) = getBlobsHash (ce_sdk A) (ce_lib A) (btx_Blobs b)"
    "set (btx_Blobs b) \<subseteq> S" "blob_tx_valid A b"
    using j unfolding tx_cache_justified_def by blast
  have "btx_Blobs btx = btx_Blobs b" by (rule blobs_hash_inj [OF E L S b(3,2)])
  moreover have "btx_Tx btx = btx_Tx b" using b(1) E by (simp add: getTxKey_def collision_free_def)
  ultimately have "blob_tx_valid A btx" using b(4) by (metis blob_tx.equality old.unit.exhaust)
  then show ?thesis using valid_passes_cache by blast
next
  case False
  then show ?thesis by (auto simp: ValidateBlobTxWithCache_def blob_tx_valid_def Let_def)
qed

text \<open>C10: The cache never changes a verdict: whatever transactions were checked and whatever blocks were finalized before, a
  proposed blob transaction passes the validation with the cache exactly if it passes the full validation, commitments
  included (as long as SHA-256 has no collision, and the blob hash none on the blobs the node has seen).\<close>

theorem cached_validation_is_full_validation:
  assumes "reach check_init (check_step A S) cache" and "collision_free (ce_sdk A)" and "blob_hash_laws (ce_lib A) S"
    and "set (btx_Blobs btx) \<subseteq> S"
  shows "(\<exists>fromCache. ValidateBlobTxWithCache A cache btx = Inr fromCache) \<longleftrightarrow>
    ValidateBlobTx (ce_sdk A) (ce_square A) (decode_msgs (ce_TxDecoder A)) (Some btx) SubtreeRootThreshold = Inr ()"
  using cache_verdict [OF tx_cache.reach_inv [OF assms(1)] assms(2-4)] by (simp add: blob_tx_valid_def)

definition ref_sig :: "uint64 \<Rightarrow> signature_v2" where
  "ref_sig n = \<lparr>sg_PubKey = Some (SomePubKey [1]), sg_Sequence = n, sg_Data = NilSignature\<rparr>"

definition ref_app_tx :: "app_msg list \<Rightarrow> int \<Rightarrow> uint64 \<Rightarrow> uint64 \<Rightarrow> app_tx" where
  "ref_app_tx msgs fee gas n = \<lparr>tx_Msgs = msgs, tx_IsFeeTx = True, tx_Fee = [\<lparr>denom = ''utia'', amount = fee\<rparr>],
     tx_Gas = gas, tx_IsSigTx = True, tx_Signatures = Some [ref_sig n]\<rparr>"

text \<open>Two plain transactions, the inner transaction of a blob transaction, and a payment for fibre.\<close>

definition ref_decoder :: tx_decoder where
  "ref_decoder raw =
     (if raw = [1] then Inr (ref_app_tx [OtherMsg ''send''] 2000 100 0)
      else if raw = [3] then Inr (ref_app_tx [OtherMsg ''send''] 1 100 0)
      else if raw = [7] then Inr (ref_app_tx [PayForBlobsMsg ref_blob_msg] 1 100 1)
      else if raw = [8] then Inr (ref_app_tx [PayForFibreMsg ref_pff] 1 100 2)
      else Inl ErrDecodeTx)"

definition ref_env :: "(sq_view, bytes list, unit) check_env" where
  "ref_env = \<lparr>ce_sdk = ref_hash_sdk, ce_square = ref_square, ce_lib = ref_lib, ce_TxDecoder = ref_decoder,
     ce_KeyAddress = (\<lambda>_. [1]), ce_BaseCheckTx = (\<lambda>_ _ k. ((\<lparr>cr_Err = None, cr_Address = [], cr_Sequence = 0\<rparr>, None), k))\<rparr>"

lemma ref_env_sel [simp]:
  "ce_sdk ref_env = ref_hash_sdk" "ce_square ref_env = ref_square" "ce_lib ref_env = ref_lib"
  "ce_TxDecoder ref_env = ref_decoder"
  by (simp_all add: ref_env_def)

lemma ref_unmarshal_sel [simp]: "UnmarshalBlobTx ref_lib = ref_unmarshal"
  by (simp add: ref_lib_def)

abbreviation ref_btx :: blob_tx where
  "ref_btx \<equiv> \<lparr>btx_Tx = [7], btx_Blobs = [ref_blob]\<rparr>"

lemma ref_btx_valid: "blob_tx_valid ref_env ref_btx"
proof -
  have "decode_msgs ref_decoder [7] = Some [PayForBlobsMsg ref_blob_msg]"
    by (simp add: decode_msgs_def ref_decoder_def ref_app_tx_def)
  then show ?thesis
    by (simp add: blob_tx_valid_def ValidateBlobTx_def ValidateBlobTxSkipCommitment_def ValidateBlobs_def
        ValidateBlobNamespace_def MsgPayForBlobs_ValidateBasic_def ref_blob_def ref_blob_msg_def at_index_def
        ref_square_def ref_sdk_def ref_hash_sdk_def ShareVersionOne_def ShareVersionZero_def HashLength_def)
qed

lemma ref_forward:
  "forwardCheckTx ref_env ty tx (ref_app_tx msgs fee gas n) () =
     ((\<lparr>cr_Err = None, cr_Address = [1], cr_Sequence = n\<rparr>, None), ())"
  by (simp add: forwardCheckTx_def ref_env_def ref_app_tx_def ref_sig_def signerDataFromTx_def)

lemma ref_check_blob:
  "CheckTx ref_env CheckTxType_New [9, 7] (NewTxCache, ()) =
    ((\<lparr>cr_Err = None, cr_Address = [1], cr_Sequence = 1\<rparr>, None),
      cache_Set ref_hash_sdk ref_lib [7] [ref_blob] NewTxCache, ())"
proof -
  have "blobTxIsCanonical ref_lib [9, 7] ref_btx" by (simp add: blobTxIsCanonical_def ref_lib_def)
  moreover have "ValidateBlobTx ref_hash_sdk ref_square (decode_msgs ref_decoder) (Some ref_btx) SubtreeRootThreshold = Inr ()"
    using ref_btx_valid by (simp add: blob_tx_valid_def)
  ultimately show ?thesis
    by (simp add: CheckTx_def MaxTxSize_def ref_unmarshal_def handleBlobCheckTx_def ref_decoder_def ref_forward)
qed

lemma ref_cache_reach:
  "reach check_init (check_step ref_env {ref_blob}) (cache_Set ref_hash_sdk ref_lib [7] [ref_blob] NewTxCache)"
proof (rule reach_step)
  show "reach check_init (check_step ref_env {ref_blob}) NewTxCache"
    by (rule reach_init) (simp add: check_init_def)
  show "check_step ref_env {ref_blob} NewTxCache (cache_Set ref_hash_sdk ref_lib [7] [ref_blob] NewTxCache)"
    by (rule step_check [OF _ ref_check_blob]) (simp add: blobs_of_def ref_unmarshal_def)
qed

lemma ref_hash_laws: "collision_free ref_hash_sdk" "blob_hash_laws ref_lib {ref_blob}"
  by (simp_all add: collision_free_def ref_hash_sdk_def blob_hash_laws_def ref_lib_def ref_blob_def)

theorem cached_validation_is_full_validation_witness:
  "\<exists>f. ValidateBlobTxWithCache ref_env (cache_Set ref_hash_sdk ref_lib [7] [ref_blob] NewTxCache) ref_btx = Inr f"
  using cached_validation_is_full_validation [OF ref_cache_reach, of ref_btx] ref_hash_laws ref_btx_valid
  by (simp add: blob_tx_valid_def)

end
