(* ===== verification/ProposalFill.thy ===== *)
theory ProposalFill
  imports Proposal CheckInv "HOL-Library.Multiset"
begin

text \<open>
  The contracts the proposal handlers rely on, and the simulation between the loops of \<open>Fill\<close> and \<open>ProcessProposal\<close>:
  after every iteration, processing the kept transactions reaches the state the proposer is in.
\<close>

section \<open>What the proposal handlers rely on\<close>

text \<open>
  A builder of the square library holds the limits it was made with and the transactions appended so far. Appending
  succeeds exactly if the result fits, and changes nothing otherwise; reverting undoes the last append; the square
  depends on the content only; and constructing a square appends its transactions in their order.
\<close>

record 'b builder_spec =
  bv_View :: "'b \<Rightarrow> sq_view"
  bv_Fits :: "sq_view \<Rightarrow> bool"
  bv_Square :: "sq_view \<Rightarrow> bytes list option"

definition new_laws :: "('b, 'eds) squarelib \<Rightarrow> 'b builder_spec \<Rightarrow> bool" where
  "new_laws L W \<longleftrightarrow> (\<forall>m t b. NewBuilder L m t = Some b \<longrightarrow>
     bv_View W b = \<lparr>sv_Max = m, sv_Threshold = t, sv_Txs = [], sv_Blobs = [], sv_Fibre = []\<rparr> \<and> bv_Fits W (bv_View W b)) \<and>
     (\<forall>b. builder_Export L b = bv_Square W (bv_View W b))"

definition append_law :: "'b builder_spec \<Rightarrow> 'b \<Rightarrow> sq_view \<Rightarrow> 'b \<Rightarrow> bool \<Rightarrow> bool" where
  "append_law W b v b' ok \<longleftrightarrow> bv_View W b' = (if ok then v else bv_View W b) \<and> (ok \<longrightarrow> bv_Fits W v)"

definition append_laws :: "('b, 'eds) squarelib \<Rightarrow> 'b builder_spec \<Rightarrow> bool" where
  "append_laws L W \<longleftrightarrow>
     (\<forall>b tx b' ok. AppendTx L b tx = (b', ok) \<longrightarrow>
        append_law W b ((bv_View W b)\<lparr>sv_Txs := sv_Txs (bv_View W b) @ [tx]\<rparr>) b' ok \<and>
        (ok \<longrightarrow> bv_View W (RevertLastTx L b') = bv_View W b)) \<and>
     (\<forall>b tx b' ok. AppendBlobTx L b tx = (b', ok) \<longrightarrow>
        append_law W b ((bv_View W b)\<lparr>sv_Blobs := sv_Blobs (bv_View W b) @ [tx]\<rparr>) b' (ok = Some True) \<and>
        (ok = Some True \<longrightarrow> bv_View W (RevertLastBlobTx L b') = bv_View W b)) \<and>
     (\<forall>b tx b' ok. AppendFibreTx L b tx = (b', ok) \<longrightarrow>
        append_law W b ((bv_View W b)\<lparr>sv_Fibre := sv_Fibre (bv_View W b) @ [tx]\<rparr>) b' (ok = Some True) \<and>
        (ok = Some True \<longrightarrow> bv_View W (RevertLastPayForFibreTx L b') = bv_View W b))"

definition construct_laws :: "('b, 'eds) squarelib \<Rightarrow> 'b builder_spec \<Rightarrow> bool" where
  "construct_laws L W \<longleftrightarrow>
     (\<forall>m t b ns raws bs fts.
        NewBuilder L m t = Some b \<longrightarrow> (\<forall>raw\<in>set ns. UnmarshalBlobTx L raw = NotBlobTx) \<longrightarrow>
        map (UnmarshalBlobTx L) raws = map ParsedBlobTx bs \<longrightarrow>
        bv_Fits W \<lparr>sv_Max = m, sv_Threshold = t, sv_Txs = ns, sv_Blobs = bs, sv_Fibre = fts\<rparr> \<longrightarrow>
        Construct L (map ClassifiedTx (ns @ raws) @ map ClassifiedFibreTx fts) m t =
          bv_Square W \<lparr>sv_Max = m, sv_Threshold = t, sv_Txs = ns, sv_Blobs = bs, sv_Fibre = fts\<rparr>) \<and>
     (\<forall>ft. NewClassifiedFibreTx L ft = Some (ClassifiedFibreTx ft)) \<and>
     (\<forall>s eds n. ComputeExtendedDataSquareWithBuffer L s = Some eds \<longrightarrow> square_Size L (length s) = Some n \<longrightarrow>
        unat (eds_Width L eds) = 2 * unat n)"

definition builder_laws :: "('b, 'eds) squarelib \<Rightarrow> 'b builder_spec \<Rightarrow> bool" where
  "builder_laws L W \<longleftrightarrow> new_laws L W \<and> append_laws L W \<and> construct_laws L W"

text \<open>The SDK's decoder and the raw body of a transaction agree on what is a lone payment for fibre.\<close>

definition decode_laws :: "('b, 'eds, 'k) check_env \<Rightarrow> bool" where
  "decode_laws A \<longleftrightarrow> (\<forall>raw tx v. UnmarshalBlobTx (ce_lib A) raw = NotBlobTx \<longrightarrow> ce_TxDecoder A raw = Inr tx \<longrightarrow>
     hasPFB (tx_Msgs tx) = None \<longrightarrow> UnmarshalTxBody (ce_lib A) raw = Some [(MsgPayForFibreTypeURL, v)] \<longrightarrow>
     (\<exists>m. tx_Msgs tx = [PayForFibreMsg m]))"

text \<open>
  The ante handler sets its own gas meter, and neither it nor the settlement of a payment changes the chain ID or the
  parameters of x/blob.
\<close>

definition same_ctx :: "('m, 's) app_ctx \<Rightarrow> ('m, 's) app_ctx \<Rightarrow> bool" where
  "same_ctx c c' \<longleftrightarrow> ac_ChainID c = ac_ChainID c' \<and> ac_Store c = ac_Store c'"

definition same_blob :: "('m, 's) app_env \<Rightarrow> ('m, 's) app_ctx \<Rightarrow> ('m, 's) app_ctx \<Rightarrow> bool" where
  "same_blob H c c' \<longleftrightarrow> ac_ChainID c = ac_ChainID c' \<and> ae_Blob H (ac_Store c) = ae_Blob H (ac_Store c')"

definition ante_laws :: "('m, 's) app_env \<Rightarrow> bool" where
  "ante_laws H \<longleftrightarrow>
     (\<forall>c g tx. ae_Ante H (c\<lparr>ac_Meter := g\<rparr>) tx = ae_Ante H c tx) \<and>
     (\<forall>c tx c'. ae_Ante H c tx = AnteOk c' \<longrightarrow> same_blob H c' c) \<and>
     (\<forall>r p h c c'. ae_Router H = Some r \<longrightarrow> r (PayForFibreMsg p) = Some h \<longrightarrow> h c (PayForFibreMsg p) = Some c' \<longrightarrow>
        same_blob H c' c)"

text \<open>
  The loops over plain and blob transactions run the ante handler on the state itself, not on a branch of it, so that a
  transaction dropped in the middle of the handler leaves its writes behind (the handler deducts the fee before it checks
  the signatures). \<open>clean_prepare\<close> says of one run of \<open>PrepareProposal\<close> that this did not happen: every plain or blob
  transaction that this run dropped left the state as it was. Payments for fibre need no such condition.
\<close>

definition drops_clean :: "('m, 's, 'b) fill_state \<Rightarrow> ('m, 's, 'b) fill_state \<Rightarrow> bool" where
  "drops_clean st st' \<longleftrightarrow> (fs_Next st' = fs_Next st \<longrightarrow> same_ctx (fs_Ctx st') (fs_Ctx st))"

fun normal_clean ::
  "('b, 'eds, 'k) check_env \<Rightarrow> ('m, 's) app_env \<Rightarrow> nat list \<Rightarrow> ('m, 's, 'b) fill_state \<Rightarrow> bool" where
  "normal_clean A H [] st \<longleftrightarrow> True"
| "normal_clean A H (i # is) st \<longleftrightarrow>
     (case fill_normal_tx A H i st of Inl _ \<Rightarrow> True | Inr st' \<Rightarrow> drops_clean st st' \<and> normal_clean A H is st')"

fun blobs_clean ::
  "('b, 'eds, 'k) check_env \<Rightarrow> ('m, 's) app_env \<Rightarrow> nat \<Rightarrow> blob_tx list \<Rightarrow> ('m, 's, 'b) fill_state \<Rightarrow> bool" where
  "blobs_clean A H i [] st \<longleftrightarrow> True"
| "blobs_clean A H i (tx # txs) st \<longleftrightarrow>
     (case fill_blob_tx A H i tx st of Inl _ \<Rightarrow> True | Inr st' \<Rightarrow> drops_clean st st' \<and> blobs_clean A H (Suc i) txs st')"

definition clean_fill ::
  "('b, 'eds, 'k) check_env \<Rightarrow> ('m, 's) app_env \<Rightarrow> 'b \<Rightarrow> ('m, 's) app_ctx \<Rightarrow> bytes list \<Rightarrow> int64 \<Rightarrow> bool" where
  "clean_fill A H builder ctx txs maxTxBytes \<longleftrightarrow>
     (let filteredByMaxBytes =
            (if 0 < sint maxTxBytes
             then filter_max_bytes (ComputeProtoSizeForTxs (ce_lib A)) maxTxBytes 0 txs else txs);
          (normalTxs, blobTxs, rawBlobTxs, payForFibreTxs) = separateTxs A filteredByMaxBytes;
          st0 = \<lparr>fs_Ctx = ctx, fs_Builder = builder, fs_Count = 0, fs_Array = normalTxs, fs_Next = 0\<rparr> in
      normal_clean A H [0..<length normalTxs] st0 \<and>
      (case fill_normal A H [0..<length normalTxs] st0 of
         Inl _ \<Rightarrow> True
       | Inr st \<Rightarrow> blobs_clean A H 0 blobTxs
           \<lparr>fs_Ctx = fs_Ctx st, fs_Builder = fs_Builder st, fs_Count = 0, fs_Array = rawBlobTxs, fs_Next = 0\<rparr>))"

definition clean_prepare ::
  "('b, 'eds, 'k) check_env \<Rightarrow> ('m, 's) app_env \<Rightarrow> ('m, 's) app_ctx \<Rightarrow> bytes list \<Rightarrow> int64 \<Rightarrow> bool" where
  "clean_prepare A H ctx txs maxTxBytes \<longleftrightarrow>
     (case NewBuilder (ce_lib A) (MaxEffectiveSquareSize (ae_Blob H (ac_Store ctx)) (ac_ChainID ctx)) SubtreeRootThreshold of
        None \<Rightarrow> True | Some b \<Rightarrow> clean_fill A H b ctx txs maxTxBytes)"

section \<open>Contexts\<close>

lemma same_ctx_refl [simp]: "same_ctx c c"
  by (simp add: same_ctx_def)

lemma same_ctx_trans: "same_ctx a b \<Longrightarrow> same_ctx b c \<Longrightarrow> same_ctx a c"
  by (simp add: same_ctx_def)

lemma same_ctx_TxBytes [simp]:
  "same_ctx (c\<lparr>ac_TxBytes := t\<rparr>) d \<longleftrightarrow> same_ctx c d"
  "same_ctx c (d\<lparr>ac_TxBytes := t\<rparr>) \<longleftrightarrow> same_ctx c d"
  by (simp_all add: same_ctx_def)

lemma same_blob_refl [simp]: "same_blob H c c"
  by (simp add: same_blob_def)

lemma same_blob_trans: "same_blob H a b \<Longrightarrow> same_blob H b c \<Longrightarrow> same_blob H a c"
  by (simp add: same_blob_def)

lemma ante_same:
  assumes "ante_laws H" and "same_ctx c c'"
  shows "ae_Ante H (c\<lparr>ac_TxBytes := t\<rparr>) tx = ae_Ante H (c'\<lparr>ac_TxBytes := t\<rparr>) tx"
proof -
  have "c\<lparr>ac_TxBytes := t\<rparr> = (c'\<lparr>ac_TxBytes := t\<rparr>)\<lparr>ac_Meter := ac_Meter c\<rparr>"
    using assms(2) by (cases c; cases c') (simp add: same_ctx_def)
  then show ?thesis using assms(1) unfolding ante_laws_def by metis
qed

lemma ante_ok_blob: "ante_laws H \<Longrightarrow> ae_Ante H (c\<lparr>ac_TxBytes := t\<rparr>) tx = AnteOk c' \<Longrightarrow> same_blob H c' c"
  unfolding ante_laws_def same_blob_def by fastforce

lemma exec_blob:
  assumes "ante_laws H" and "tx_Msgs tx = [PayForFibreMsg p]" and "executeTxMsgs (ae_Router H) c tx = Some c'"
  shows "same_blob H c' c"
proof (cases "ae_Router H")
  case None
  then show ?thesis using assms(3) by (simp add: executeTxMsgs_def)
next
  case (Some r)
  then obtain h c1 where "r (PayForFibreMsg p) = Some h" "h c (PayForFibreMsg p) = Some c1"
    "c' = c\<lparr>ac_Meter := ac_Meter c1, ac_Store := ac_Store c1\<rparr>"
    using assms(2,3) by (auto simp: executeTxMsgs_def split: option.splits)
  moreover from this(1,2) have "same_blob H c1 c" using assms(1) Some unfolding ante_laws_def by blast
  ultimately show ?thesis by (simp add: same_blob_def)
qed

section \<open>Messages\<close>

lemma pff_shape_alone:
  assumes "pff_shape E n ms = Inr ()" and "PayForFibreMsg p \<in> set ms"
  shows "n \<le> 1" and "PaymentPromise_ValidateBasic E (pf_PaymentPromise p) = Inr ()"
  using assms by (induction ms) (auto split: sdk_msg.splits if_splits sum.splits)

lemma shape_lone_pff:
  assumes "validatePayForFibreTxShape E tx = Inr ()" and "PayForFibreMsg p \<in> set (tx_Msgs tx)"
  shows "tx_Msgs tx = [PayForFibreMsg p]"
proof -
  have "length (tx_Msgs tx) \<le> 1" using pff_shape_alone(1) assms unfolding validatePayForFibreTxShape_def by blast
  then show ?thesis using assms(2) by (cases "tx_Msgs tx") auto
qed

lemma is_pff: "(case m of PayForFibreMsg _ \<Rightarrow> True | _ \<Rightarrow> False) \<longleftrightarrow> (\<exists>p. m = PayForFibreMsg p)"
  by (cases m) auto

lemma count_pff: "0 < countMsgPayForFibre tx \<longleftrightarrow> (\<exists>p. PayForFibreMsg p \<in> set (tx_Msgs tx))"
  by (auto simp: countMsgPayForFibre_def filter_empty_conv is_pff)

lemma payForFibreMsg_iff: "payForFibreMsg tx = Some p \<longleftrightarrow> tx_Msgs tx = [PayForFibreMsg p]"
  by (auto simp: payForFibreMsg_def split: list.splits sdk_msg.splits)

lemma lone_pff_simps:
  assumes "tx_Msgs tx = [PayForFibreMsg p]"
  shows "payForFibreMsg tx = Some p" "hasPFB (tx_Msgs tx) = None" "length (tx_Msgs tx) = 1"
  using assms by (simp_all add: payForFibreMsg_def)

section \<open>The groups of transactions\<close>

definition normal_tx :: "('b, 'eds, 'k) check_env \<Rightarrow> bytes \<Rightarrow> bool" where
  "normal_tx A raw \<longleftrightarrow> length raw \<le> MaxTxSize \<and> UnmarshalBlobTx (ce_lib A) raw = NotBlobTx \<and>
     (\<forall>tx. ce_TxDecoder A raw = Inr tx \<longrightarrow> countMsgPayForFibre tx = 0)"

definition raw_blob_tx :: "('b, 'eds, 'k) check_env \<Rightarrow> bytes \<Rightarrow> blob_tx \<Rightarrow> bool" where
  "raw_blob_tx A raw btx \<longleftrightarrow> length raw \<le> MaxTxSize \<and> UnmarshalBlobTx (ce_lib A) raw = ParsedBlobTx btx \<and>
     blobTxIsCanonical (ce_lib A) raw btx"

definition raw_fibre_tx :: "('b, 'eds, 'k) check_env \<Rightarrow> bytes \<Rightarrow> bool" where
  "raw_fibre_tx A raw \<longleftrightarrow> length raw \<le> MaxTxSize \<and> UnmarshalBlobTx (ce_lib A) raw = NotBlobTx \<and>
     (\<forall>tx. ce_TxDecoder A raw = Inr tx \<longrightarrow>
        validatePayForFibreTxShape (ce_sdk A) tx = Inr () \<and> (\<exists>p. tx_Msgs tx = [PayForFibreMsg p]))"

lemma separate_Cons:
  assumes "separateTxs A txs = (ns0, bs0, raws0, fs0)"
  shows "separateTxs A (raw # txs) = (ns0, bs0, raws0, fs0) \<or>
    normal_tx A raw \<and> separateTxs A (raw # txs) = (raw # ns0, bs0, raws0, fs0) \<or>
    (\<exists>btx. raw_blob_tx A raw btx \<and> separateTxs A (raw # txs) = (ns0, btx # bs0, raw # raws0, fs0)) \<or>
    raw_fibre_tx A raw \<and> separateTxs A (raw # txs) = (ns0, bs0, raws0, raw # fs0)"
proof (cases "MaxTxSize < length raw")
  case True
  then show ?thesis using assms by simp
next
  case False
  note len = this
  show ?thesis
  proof (cases "UnmarshalBlobTx (ce_lib A) raw")
    case NotBlobTx
    show ?thesis
    proof (cases "ce_TxDecoder A raw")
      case (Inl e)
      then show ?thesis using assms len NotBlobTx by simp
    next
      case (Inr tx)
      show ?thesis
      proof (cases "0 < countMsgPayForFibre tx")
        case True
        then obtain p where p: "PayForFibreMsg p \<in> set (tx_Msgs tx)" unfolding count_pff by blast
        show ?thesis
        proof (cases "validatePayForFibreTxShape (ce_sdk A) tx")
          case (Inl e)
          then show ?thesis using assms len NotBlobTx Inr True by simp
        next
          case shape: (Inr u)
          then have "raw_fibre_tx A raw"
            using len NotBlobTx Inr shape_lone_pff [OF _ p] unfolding raw_fibre_tx_def by auto
          then show ?thesis using assms len NotBlobTx Inr True shape by simp
        qed
      next
        case False
        then have "normal_tx A raw" using len NotBlobTx Inr unfolding normal_tx_def by simp
        then show ?thesis using assms len NotBlobTx Inr False by simp
      qed
    qed
  next
    case (MalformedBlobTx n)
    then show ?thesis using assms len by simp
  next
    case (ParsedBlobTx btx)
    show ?thesis
    proof (cases "blobTxIsCanonical (ce_lib A) raw btx")
      case True
      then have "raw_blob_tx A raw btx" using len ParsedBlobTx by (simp add: raw_blob_tx_def)
      then show ?thesis using assms len ParsedBlobTx True by simp
    next
      case False
      then show ?thesis using assms len ParsedBlobTx by simp
    qed
  qed
qed

lemma separate_groups:
  "separateTxs A txs = (ns, bs, raws, fs) \<Longrightarrow>
   (\<forall>raw\<in>set ns. normal_tx A raw) \<and> list_all2 (raw_blob_tx A) raws bs \<and> (\<forall>raw\<in>set fs. raw_fibre_tx A raw) \<and>
   mset (ns @ raws @ fs) \<subseteq># mset txs"
proof (induction txs arbitrary: ns bs raws fs)
  case Nil
  then show ?case by simp
next
  case (Cons raw txs)
  obtain ns0 bs0 raws0 fs0 where rest: "separateTxs A txs = (ns0, bs0, raws0, fs0)" by (metis prod_cases4)
  note IH = Cons.IH [OF rest]
  have "mset txs \<subseteq># add_mset raw (mset txs)" by simp
  with IH have sub: "mset (ns0 @ raws0 @ fs0) \<subseteq># add_mset raw (mset txs)" by (meson subset_mset.order_trans)
  from separate_Cons [OF rest, of raw] show ?case
    unfolding Cons.prems using IH sub by (elim disjE exE conjE) simp_all
qed

section \<open>The loops keep some of their entries, in order\<close>

text \<open>Between two iterations the first entries of the array are kept transactions, and those from \<open>i\<close> on are untouched.\<close>

definition compacted :: "bytes list \<Rightarrow> nat \<Rightarrow> bytes list \<Rightarrow> nat \<Rightarrow> bool" where
  "compacted orig i arr n \<longleftrightarrow> n \<le> i \<and> length arr = length orig \<and> drop i arr = drop i orig \<and>
     mset (take n arr) \<subseteq># mset (take i orig)"

lemma compacted_init: "compacted orig 0 orig 0"
  by (simp add: compacted_def)

lemma compacted_nth: "compacted orig i arr n \<Longrightarrow> i < length orig \<Longrightarrow> arr ! i = orig ! i"
  unfolding compacted_def by (metis hd_drop_conv_nth)

lemma drop_Suc_eq: "drop i xs = drop i ys \<Longrightarrow> drop (Suc i) xs = drop (Suc i) ys"
  by (metis drop_drop plus_1_eq_Suc)

lemma compacted_skip:
  assumes "compacted orig i arr n" and "i < length orig"
  shows "compacted orig (Suc i) arr n"
proof -
  have "mset (take i orig) \<subseteq># mset (take (Suc i) orig)"
    using assms(2) by (simp add: take_Suc_conv_app_nth)
  then show ?thesis
    using assms unfolding compacted_def by (auto intro: drop_Suc_eq subset_mset.order_trans)
qed

lemma compacted_keep:
  assumes "compacted orig i arr n" and "i < length orig"
  shows "compacted orig (Suc i) (arr[n := orig ! i]) (n + 1)"
    and "take (n + 1) (arr[n := orig ! i]) = take n arr @ [orig ! i]"
proof -
  have n: "n \<le> i" "n < length arr" using assms by (simp_all add: compacted_def)
  show take: "take (n + 1) (arr[n := orig ! i]) = take n arr @ [orig ! i]"
    using n(2) by (simp add: take_Suc_conv_app_nth)
  have "drop (Suc i) (arr[n := orig ! i]) = drop (Suc i) orig"
    using n assms(1) by (simp add: compacted_def) (auto intro: drop_Suc_eq)
  moreover have "mset (take n arr @ [orig ! i]) \<subseteq># mset (take (Suc i) orig)"
    using assms by (simp add: compacted_def take_Suc_conv_app_nth)
  ultimately show "compacted orig (Suc i) (arr[n := orig ! i]) (n + 1)"
    using assms(1) n(1) take unfolding compacted_def by simp
qed

section \<open>The kept transactions pass ProcessProposal\<close>

abbreviation process_init :: "('m, 's) app_ctx \<Rightarrow> ('m, 's) process_state" where
  "process_init c \<equiv> \<lparr>ps_Ctx = c, ps_Sdk = 0, ps_Pfb = 0, ps_Pff = 0\<rparr>"

lemma process_snoc:
  "process_txs A H cache xs st = Some st1 \<Longrightarrow> process_tx A H cache x st1 = Some st2 \<Longrightarrow>
     process_txs A H cache (xs @ [x]) st = Some st2"
  by (induction xs arbitrary: st) (auto split: option.splits)

text \<open>
  The state of a proposal under construction: processing the kept transactions reaches the state the proposer is in,
  and the builder holds exactly them.
\<close>

definition in_step ::
  "('b, 'eds, 'k) check_env \<Rightarrow> ('m, 's) app_env \<Rightarrow> 'b builder_spec \<Rightarrow> tx_cache \<Rightarrow> ('m, 's) app_ctx \<Rightarrow> sq_view \<Rightarrow>
   bytes list \<Rightarrow> nat \<times> nat \<times> nat \<Rightarrow> ('m, 's) app_ctx \<Rightarrow> 'b \<Rightarrow> bool" where
  "in_step A H W cache c0 v kept cnt c b \<longleftrightarrow> bv_View W b = v \<and> bv_Fits W v \<and>
     (\<exists>st. process_txs A H cache kept (process_init c0) = Some st \<and> same_ctx (ps_Ctx st) c \<and>
        (ps_Sdk st, ps_Pfb st, ps_Pff st) = cnt)"

lemma in_step_skip:
  "in_step A H W cache c0 v kept cnt c b \<Longrightarrow> same_ctx c' c \<Longrightarrow> bv_View W b' = bv_View W b \<Longrightarrow>
     in_step A H W cache c0 v kept cnt c' b'"
  unfolding in_step_def same_ctx_def by auto

lemma in_step_keep:
  assumes "in_step A H W cache c0 v kept cnt c b"
    and "\<And>st. same_ctx (ps_Ctx st) c \<Longrightarrow> (ps_Sdk st, ps_Pfb st, ps_Pff st) = cnt \<Longrightarrow>
      \<exists>st'. process_tx A H cache raw st = Some st' \<and> same_ctx (ps_Ctx st') c' \<and>
        (ps_Sdk st', ps_Pfb st', ps_Pff st') = cnt'"
    and "bv_View W b' = v'" and "bv_Fits W v'"
  shows "in_step A H W cache c0 v' (kept @ [raw]) cnt' c' b'"
proof -
  obtain st where st: "process_txs A H cache kept (process_init c0) = Some st" "same_ctx (ps_Ctx st) c"
    "(ps_Sdk st, ps_Pfb st, ps_Pff st) = cnt"
    using assms(1) unfolding in_step_def by blast
  obtain st' where st': "process_tx A H cache raw st = Some st'" "same_ctx (ps_Ctx st') c'"
    "(ps_Sdk st', ps_Pfb st', ps_Pff st') = cnt'"
    using assms(2) [OF st(2,3)] by blast
  show ?thesis
    unfolding in_step_def using process_snoc [OF st(1) st'(1)] st'(2,3) assms(3,4) by blast
qed

lemma append_view:
  assumes "append_laws L W"
  shows "AppendTx L b tx = (b', ok) \<Longrightarrow>
      append_law W b ((bv_View W b)\<lparr>sv_Txs := sv_Txs (bv_View W b) @ [tx]\<rparr>) b' ok"
    and "AppendTx L b tx = (b', True) \<Longrightarrow> bv_View W (RevertLastTx L b') = bv_View W b"
    and "AppendBlobTx L b btx = (b', okb) \<Longrightarrow>
      append_law W b ((bv_View W b)\<lparr>sv_Blobs := sv_Blobs (bv_View W b) @ [btx]\<rparr>) b' (okb = Some True)"
    and "AppendBlobTx L b btx = (b', Some True) \<Longrightarrow> bv_View W (RevertLastBlobTx L b') = bv_View W b"
    and "AppendFibreTx L b ft = (b', okf) \<Longrightarrow>
      append_law W b ((bv_View W b)\<lparr>sv_Fibre := sv_Fibre (bv_View W b) @ [ft]\<rparr>) b' (okf = Some True)"
    and "AppendFibreTx L b ft = (b', Some True) \<Longrightarrow> bv_View W (RevertLastPayForFibreTx L b') = bv_View W b"
  using assms unfolding append_laws_def by blast+

section \<open>One kept transaction passes ProcessProposal\<close>

lemma no_pff: "countMsgPayForFibre tx = 0 \<Longrightarrow> payForFibreMsg tx = None"
  by (auto simp: countMsgPayForFibre_def payForFibreMsg_def split: list.splits sdk_msg.splits)

lemma process_normal:
  assumes H: "ante_laws H" and wf: "well_formed_tx A raw" and raw: "normal_tx A raw"
    and dec: "ce_TxDecoder A raw = Inr tx" and same: "same_ctx (ps_Ctx st) c"
    and cnt: "ps_Sdk st + length (tx_Msgs tx) \<le> MaxSDKMessages"
    and ante: "ae_Ante H (c\<lparr>ac_TxBytes := raw\<rparr>) tx = AnteOk c'"
  shows "process_tx A H cache raw st = Some (st\<lparr>ps_Sdk := ps_Sdk st + length (tx_Msgs tx), ps_Ctx := c'\<rparr>)"
proof -
  have "payForFibreMsg tx = None"
    using raw dec no_pff unfolding normal_tx_def by blast
  moreover have "hasPFB (tx_Msgs tx) = None" "validatePayForFibreTxShape (ce_sdk A) tx = Inr ()"
    using wf raw dec by (simp_all add: well_formed_tx_def normal_tx_def)
  moreover have "ae_Ante H ((ps_Ctx st)\<lparr>ac_TxBytes := raw\<rparr>) tx = AnteOk c'"
    using ante_same [OF H same] ante by simp
  ultimately show ?thesis
    using raw dec cnt by (simp add: process_tx_def process_plain_tx_def normal_tx_def Let_def)
qed

lemma process_blob:
  assumes H: "ante_laws H" and raw: "raw_blob_tx A raw btx" and valid: "ValidateBlobTxWithCache A cache btx = Inr fromCache"
    and dec: "ce_TxDecoder A (btx_Tx btx) = Inr tx" and same: "same_ctx (ps_Ctx st) c"
    and cnt: "ps_Pfb st + length (tx_Msgs tx) \<le> MaxPFBMessages"
    and ante: "ae_Ante H (c\<lparr>ac_TxBytes := btx_Tx btx\<rparr>) tx = AnteOk c'"
  shows "process_tx A H cache raw st = Some (st\<lparr>ps_Pfb := ps_Pfb st + length (tx_Msgs tx), ps_Ctx := c'\<rparr>)"
proof -
  have "ae_Ante H ((ps_Ctx st)\<lparr>ac_TxBytes := btx_Tx btx\<rparr>) tx = AnteOk c'"
    using ante_same [OF H same] ante by simp
  then show ?thesis
    using raw valid dec cnt by (simp add: process_tx_def process_blob_tx_def raw_blob_tx_def Let_def)
qed

lemma process_fibre:
  assumes H: "ante_laws H" and raw: "raw_fibre_tx A raw"
    and dec: "ce_TxDecoder A raw = Inr tx" and same: "same_ctx (ps_Ctx st) c"
    and cnt: "ps_Pff st + length (tx_Msgs tx) \<le> MaxPayForFibreMessages"
    and ante: "ae_Ante H (c\<lparr>ac_TxBytes := raw\<rparr>) tx = AnteOk c1"
    and exec: "executeTxMsgs (ae_Router H) c1 tx = Some c'"
  shows "process_tx A H cache raw st = Some (st\<lparr>ps_Pff := ps_Pff st + length (tx_Msgs tx), ps_Ctx := c'\<rparr>)"
proof -
  obtain p where p: "tx_Msgs tx = [PayForFibreMsg p]" and shape: "validatePayForFibreTxShape (ce_sdk A) tx = Inr ()"
    using raw dec unfolding raw_fibre_tx_def by blast
  have "ae_Ante H ((ps_Ctx st)\<lparr>ac_TxBytes := raw\<rparr>) tx = AnteOk c1"
    using ante_same [OF H same] ante by simp
  then show ?thesis
    using raw dec cnt exec shape lone_pff_simps [OF p]
    by (simp add: process_tx_def process_plain_tx_def raw_fibre_tx_def Let_def)
qed

section \<open>One iteration of each loop\<close>

lemma normal_step:
  assumes H: "ante_laws H" and L: "append_laws (ce_lib A) W"
    and inv: "in_step A H W cache c0 v kept (fs_Count st, 0, 0) (fs_Ctx st) (fs_Builder st)"
    and raw: "fs_Array st ! i = raw" "well_formed_tx A raw" "normal_tx A raw"
    and run: "fill_normal_tx A H i st = Inr st'" and clean: "drops_clean st st'"
  shows "fs_Array st' = fs_Array st \<and> fs_Next st' = fs_Next st \<and>
      in_step A H W cache c0 v kept (fs_Count st', 0, 0) (fs_Ctx st') (fs_Builder st') \<or>
    fs_Array st' = (fs_Array st)[fs_Next st := raw] \<and> fs_Next st' = fs_Next st + 1 \<and>
      in_step A H W cache c0 (v\<lparr>sv_Txs := sv_Txs v @ [raw]\<rparr>) (kept @ [raw])
        (fs_Count st', 0, 0) (fs_Ctx st') (fs_Builder st')"
proof (cases "ce_TxDecoder A raw")
  case (Inl e)
  then show ?thesis using run inv raw(1) by (simp add: fill_normal_tx_def Let_def)
next
  case (Inr tx)
  let ?c = "(fs_Ctx st)\<lparr>ac_TxBytes := raw\<rparr>"
  have v: "bv_View W (fs_Builder st) = v" using inv by (simp add: in_step_def)
  obtain b ok where app: "AppendTx (ce_lib A) (fs_Builder st) raw = (b, ok)" by fastforce
  note view = append_view(1) [OF L app, unfolded append_law_def v]
  show ?thesis
  proof (cases "MaxSDKMessages < fs_Count st + length (tx_Msgs tx) \<or> \<not> ok")
    case True
    have "fs_Array st' = fs_Array st \<and> fs_Next st' = fs_Next st \<and> fs_Count st' = fs_Count st \<and>
        same_ctx (fs_Ctx st') (fs_Ctx st) \<and> bv_View W (fs_Builder st') = bv_View W (fs_Builder st)"
      using True run raw(1) Inr app view v by (auto simp: fill_normal_tx_def Let_def split: if_splits)
    then show ?thesis using in_step_skip [OF inv] by simp
  next
    case False
    then have ok: ok and cnt: "fs_Count st + length (tx_Msgs tx) \<le> MaxSDKMessages" by auto
    show ?thesis
    proof (cases "ae_Ante H ?c tx")
      case (AnteOk c')
      have "in_step A H W cache c0 (v\<lparr>sv_Txs := sv_Txs v @ [raw]\<rparr>) (kept @ [raw])
          (fs_Count st + length (tx_Msgs tx), 0, 0) c' b"
      proof (rule in_step_keep [OF inv])
        show "\<exists>p'. process_tx A H cache raw p = Some p' \<and> same_ctx (ps_Ctx p') c' \<and>
            (ps_Sdk p', ps_Pfb p', ps_Pff p') = (fs_Count st + length (tx_Msgs tx), 0, 0)"
          if "same_ctx (ps_Ctx p) (fs_Ctx st)" "(ps_Sdk p, ps_Pfb p, ps_Pff p) = (fs_Count st, 0, 0)" for p
          using process_normal [OF H raw(2,3) Inr that(1) _ AnteOk] that(2) cnt by simp
      qed (use view ok in simp_all)
      then show ?thesis
        using run raw(1) Inr app ok cnt AnteOk by (auto simp: fill_normal_tx_def Let_def)
    next
      case (AnteRefused c')
      have "fs_Array st' = fs_Array st \<and> fs_Next st' = fs_Next st \<and> fs_Count st' = fs_Count st \<and>
          bv_View W (fs_Builder st') = bv_View W (fs_Builder st)"
        using run raw(1) Inr app ok cnt AnteRefused append_view(2) [OF L]
        by (auto simp: fill_normal_tx_def Let_def)
      then show ?thesis using in_step_skip [OF inv] clean by (simp add: drops_clean_def)
    next
      case AntePanics
      then show ?thesis using run raw(1) Inr app ok cnt by (auto simp: fill_normal_tx_def Let_def)
    qed
  qed
qed

lemma blob_step:
  assumes H: "ante_laws H" and L: "append_laws (ce_lib A) W"
    and inv: "in_step A H W cache c0 v kept (n, fs_Count st, 0) (fs_Ctx st) (fs_Builder st)"
    and raw: "fs_Array st ! i = raw" "ValidateBlobTxWithCache A cache btx = Inr fromCache" "raw_blob_tx A raw btx"
    and run: "fill_blob_tx A H i btx st = Inr st'" and clean: "drops_clean st st'"
  shows "fs_Array st' = fs_Array st \<and> fs_Next st' = fs_Next st \<and>
      in_step A H W cache c0 v kept (n, fs_Count st', 0) (fs_Ctx st') (fs_Builder st') \<or>
    fs_Array st' = (fs_Array st)[fs_Next st := raw] \<and> fs_Next st' = fs_Next st + 1 \<and>
      in_step A H W cache c0 (v\<lparr>sv_Blobs := sv_Blobs v @ [btx]\<rparr>) (kept @ [raw])
        (n, fs_Count st', 0) (fs_Ctx st') (fs_Builder st')"
proof (cases "ce_TxDecoder A (btx_Tx btx)")
  case (Inl e)
  then show ?thesis using run inv by (simp add: fill_blob_tx_def Let_def)
next
  case (Inr tx)
  let ?c = "(fs_Ctx st)\<lparr>ac_TxBytes := btx_Tx btx\<rparr>"
  have v: "bv_View W (fs_Builder st) = v" using inv by (simp add: in_step_def)
  obtain b ok where app: "AppendBlobTx (ce_lib A) (fs_Builder st) btx = (b, ok)" by fastforce
  note view = append_view(3) [OF L app, unfolded append_law_def v]
  show ?thesis
  proof (cases "MaxPFBMessages < fs_Count st + length (tx_Msgs tx) \<or> ok \<noteq> Some True")
    case True
    have "fs_Array st' = fs_Array st \<and> fs_Next st' = fs_Next st \<and> fs_Count st' = fs_Count st \<and>
        same_ctx (fs_Ctx st') (fs_Ctx st) \<and> bv_View W (fs_Builder st') = bv_View W (fs_Builder st)"
      using True run Inr app view v
      by (auto simp: fill_blob_tx_def Let_def split: if_splits option.splits bool.splits)
    then show ?thesis using in_step_skip [OF inv] by simp
  next
    case False
    then have ok: "ok = Some True" and cnt: "fs_Count st + length (tx_Msgs tx) \<le> MaxPFBMessages" by auto
    show ?thesis
    proof (cases "ae_Ante H ?c tx")
      case (AnteOk c')
      have "in_step A H W cache c0 (v\<lparr>sv_Blobs := sv_Blobs v @ [btx]\<rparr>) (kept @ [raw])
          (n, fs_Count st + length (tx_Msgs tx), 0) c' b"
      proof (rule in_step_keep [OF inv])
        show "\<exists>p'. process_tx A H cache raw p = Some p' \<and> same_ctx (ps_Ctx p') c' \<and>
            (ps_Sdk p', ps_Pfb p', ps_Pff p') = (n, fs_Count st + length (tx_Msgs tx), 0)"
          if "same_ctx (ps_Ctx p) (fs_Ctx st)" "(ps_Sdk p, ps_Pfb p, ps_Pff p) = (n, fs_Count st, 0)" for p
          using process_blob [OF H raw(3,2) Inr that(1) _ AnteOk] that(2) cnt by simp
      qed (use view ok in simp_all)
      then show ?thesis
        using run raw(1) Inr app ok cnt AnteOk by (auto simp: fill_blob_tx_def Let_def)
    next
      case (AnteRefused c')
      have "fs_Array st' = fs_Array st \<and> fs_Next st' = fs_Next st \<and> fs_Count st' = fs_Count st \<and>
          bv_View W (fs_Builder st') = bv_View W (fs_Builder st)"
        using run Inr app ok cnt AnteRefused append_view(4) [OF L]
        by (auto simp: fill_blob_tx_def Let_def)
      then show ?thesis using in_step_skip [OF inv] clean by (simp add: drops_clean_def)
    next
      case AntePanics
      then show ?thesis using run Inr app ok cnt by (auto simp: fill_blob_tx_def Let_def)
    qed
  qed
qed

lemma fibre_step:
  assumes H: "ante_laws H" and L: "append_laws (ce_lib A) W"
    and inv: "in_step A H W cache c0 v (kept @ fs) (n, k, cnt) (ctx\<lparr>ac_Store := s\<rparr>) b"
    and raw: "raw_fibre_tx A raw"
    and run: "fill_fibre_tx A H ctx raw (s, b, cnt, fs) = Inr (s', b', cnt', fs')"
  shows "fs' = fs \<and> in_step A H W cache c0 v (kept @ fs) (n, k, cnt') (ctx\<lparr>ac_Store := s'\<rparr>) b' \<or>
    fs' = fs @ [raw] \<and> (\<exists>ft. TryParseFibreTx (ce_sdk A) (ce_lib A) raw = Inr (Some ft) \<and>
      in_step A H W cache c0 (v\<lparr>sv_Fibre := sv_Fibre v @ [ft]\<rparr>) (kept @ fs @ [raw])
        (n, k, cnt') (ctx\<lparr>ac_Store := s'\<rparr>) b')"
proof (cases "\<exists>ft tx. TryParseFibreTx (ce_sdk A) (ce_lib A) raw = Inr (Some ft) \<and> ce_TxDecoder A raw = Inr tx")
  case False
  then show ?thesis
    using run inv by (auto simp: fill_fibre_tx_def Let_def split: sum.splits option.splits)
next
  case True
  then obtain ft tx where ft: "TryParseFibreTx (ce_sdk A) (ce_lib A) raw = Inr (Some ft)" and dec: "ce_TxDecoder A raw = Inr tx"
    by blast
  let ?c = "ctx\<lparr>ac_Store := s\<rparr>"
  have v: "bv_View W b = v" using inv by (simp add: in_step_def)
  obtain b1 ok where app: "AppendFibreTx (ce_lib A) b ft = (b1, ok)" by fastforce
  note view = append_view(5) [OF L app, unfolded append_law_def v]
  show ?thesis
  proof (cases "MaxPayForFibreMessages < cnt + length (tx_Msgs tx) \<or> ok \<noteq> Some True")
    case True
    have "fs' = fs \<and> s' = s \<and> cnt' = cnt \<and> bv_View W b' = bv_View W b"
      using True run ft dec app view v
      by (auto simp: fill_fibre_tx_def Let_def split: if_splits option.splits bool.splits)
    then show ?thesis using in_step_skip [OF inv] by simp
  next
    case False
    then have ok: "ok = Some True" and le: "cnt + length (tx_Msgs tx) \<le> MaxPayForFibreMessages" by auto
    show ?thesis
    proof (cases "\<exists>c1 c2. ae_Ante H (?c\<lparr>ac_TxBytes := raw\<rparr>) tx = AnteOk c1 \<and> executeTxMsgs (ae_Router H) c1 tx = Some c2")
      case True
      then obtain c1 c2 where ante: "ae_Ante H (?c\<lparr>ac_TxBytes := raw\<rparr>) tx = AnteOk c1"
        and exec: "executeTxMsgs (ae_Router H) c1 tx = Some c2" by blast
      obtain p where p: "tx_Msgs tx = [PayForFibreMsg p]" using raw dec unfolding raw_fibre_tx_def by blast
      have "same_blob H c2 ?c"
        using same_blob_trans [OF exec_blob [OF H p exec] ante_ok_blob [OF H ante]] .
      then have c2: "same_ctx c2 (ctx\<lparr>ac_Store := ac_Store c2\<rparr>)" by (simp add: same_ctx_def same_blob_def)
      have "in_step A H W cache c0 (v\<lparr>sv_Fibre := sv_Fibre v @ [ft]\<rparr>) ((kept @ fs) @ [raw])
          (n, k, cnt + length (tx_Msgs tx)) (ctx\<lparr>ac_Store := ac_Store c2\<rparr>) b1"
      proof (rule in_step_keep [OF inv])
        show "\<exists>p'. process_tx A H cache raw q = Some p' \<and> same_ctx (ps_Ctx p') (ctx\<lparr>ac_Store := ac_Store c2\<rparr>) \<and>
            (ps_Sdk p', ps_Pfb p', ps_Pff p') = (n, k, cnt + length (tx_Msgs tx))"
          if "same_ctx (ps_Ctx q) ?c" "(ps_Sdk q, ps_Pfb q, ps_Pff q) = (n, k, cnt)" for q
          using process_fibre [OF H raw dec that(1) _ ante exec] that(2) le c2 by simp
      qed (use view ok in simp_all)
      then show ?thesis
        using run ft dec app ok le ante exec by (auto simp: fill_fibre_tx_def Let_def)
    next
      case False
      have "fs' = fs \<and> s' = s \<and> cnt' = cnt \<and> bv_View W b' = bv_View W b"
        using False run ft dec app ok le append_view(6) [OF L]
        by (auto simp: fill_fibre_tx_def Let_def split: ante_result.splits option.splits)
      then show ?thesis using in_step_skip [OF inv] by simp
    qed
  qed
qed

end
