(* ===== verification/ProposalAccept.thy ===== *)
theory ProposalAccept
  imports ProposalFill
begin

text \<open>
  A prepared proposal is accepted, an accepted proposal is well formed, and a filled block keeps its size limit.
\<close>

section \<open>The loops of Fill\<close>

abbreviation view_of :: "int64 \<Rightarrow> int \<Rightarrow> bytes list \<Rightarrow> blob_tx list \<Rightarrow> fibre_tx list \<Rightarrow> sq_view" where
  "view_of m t ns bs fts \<equiv> \<lparr>sv_Max = m, sv_Threshold = t, sv_Txs = ns, sv_Blobs = bs, sv_Fibre = fts\<rparr>"

abbreviation kept_txs :: "('m, 's, 'b) fill_state \<Rightarrow> bytes list" where
  "kept_txs st \<equiv> take (fs_Next st) (fs_Array st)"

lemma normal_loop:
  assumes H: "ante_laws H" and L: "append_laws (ce_lib A) W"
    and orig: "\<And>raw. raw \<in> set orig \<Longrightarrow> well_formed_tx A raw \<and> normal_tx A raw"
  shows "fill_normal A H [i..<length orig] st = Inr st' \<Longrightarrow> i \<le> length orig \<Longrightarrow>
    compacted orig i (fs_Array st) (fs_Next st) \<Longrightarrow> normal_clean A H [i..<length orig] st \<Longrightarrow>
    in_step A H W cache c0 (view_of m t (kept_txs st) [] []) (kept_txs st) (fs_Count st, 0, 0) (fs_Ctx st) (fs_Builder st) \<Longrightarrow>
    compacted orig (length orig) (fs_Array st') (fs_Next st') \<and>
    in_step A H W cache c0 (view_of m t (kept_txs st') [] []) (kept_txs st') (fs_Count st', 0, 0) (fs_Ctx st') (fs_Builder st')"
proof (induction "length orig - i" arbitrary: i st)
  case 0
  then show ?case by simp
next
  case (Suc k)
  then have i: "i < length orig" by simp
  then obtain st1 where st1: "fill_normal_tx A H i st = Inr st1" "fill_normal A H [Suc i..<length orig] st1 = Inr st'"
    using Suc.prems(1) by (auto simp: upt_conv_Cons)
  then have clean: "drops_clean st st1" "normal_clean A H [Suc i..<length orig] st1"
    using Suc.prems(4) i by (simp_all add: upt_conv_Cons)
  have raw: "well_formed_tx A (orig ! i)" "normal_tx A (orig ! i)" using orig i by auto
  note keep = compacted_keep [OF Suc.prems(3) i]
  from normal_step [OF H L Suc.prems(5) compacted_nth [OF Suc.prems(3) i] raw st1(1) clean(1)]
  have "compacted orig (Suc i) (fs_Array st1) (fs_Next st1) \<and>
    in_step A H W cache c0 (view_of m t (kept_txs st1) [] []) (kept_txs st1) (fs_Count st1, 0, 0) (fs_Ctx st1) (fs_Builder st1)"
    using keep compacted_skip [OF Suc.prems(3) i] by auto
  then show ?case using Suc.hyps(1) [of "Suc i" st1] Suc.hyps(2) st1(2) clean(2) i by simp
qed

definition parsed_as :: "('b, 'eds, 'k) check_env \<Rightarrow> bytes list \<Rightarrow> blob_tx list \<Rightarrow> bool" where
  "parsed_as A raws bs \<longleftrightarrow> map (UnmarshalBlobTx (ce_lib A)) raws = map ParsedBlobTx bs"

lemma blob_loop:
  assumes H: "ante_laws H" and L: "append_laws (ce_lib A) W"
    and orig: "list_all2 (raw_blob_tx A) orig bs"
    and valid: "\<And>btx. btx \<in> set bs \<Longrightarrow> \<exists>f. ValidateBlobTxWithCache A cache btx = Inr f"
  shows "fill_blobs A H i (drop i bs) st = Inr st' \<Longrightarrow> i \<le> length bs \<Longrightarrow>
    compacted orig i (fs_Array st) (fs_Next st) \<Longrightarrow> parsed_as A (kept_txs st) kb \<Longrightarrow> blobs_clean A H i (drop i bs) st \<Longrightarrow>
    in_step A H W cache c0 (view_of m t ns kb []) (ns @ kept_txs st) (n, fs_Count st, 0) (fs_Ctx st) (fs_Builder st) \<Longrightarrow>
    compacted orig (length orig) (fs_Array st') (fs_Next st') \<and>
    (\<exists>kb'. parsed_as A (kept_txs st') kb' \<and>
      in_step A H W cache c0 (view_of m t ns kb' []) (ns @ kept_txs st') (n, fs_Count st', 0) (fs_Ctx st') (fs_Builder st'))"
proof (induction "length bs - i" arbitrary: i st kb)
  case 0
  then show ?case using list_all2_lengthD [OF orig] by auto
next
  case (Suc k)
  then have i: "i < length bs" by simp
  have len: "length orig = length bs" using orig by (rule list_all2_lengthD)
  then have i': "i < length orig" using i by simp
  obtain st1 where st1: "fill_blob_tx A H i (bs ! i) st = Inr st1" "fill_blobs A H (Suc i) (drop (Suc i) bs) st1 = Inr st'"
    using Suc.prems(1) i by (auto simp: Cons_nth_drop_Suc [symmetric])
  then have clean: "drops_clean st st1" "blobs_clean A H (Suc i) (drop (Suc i) bs) st1"
    using Suc.prems(5) i by (simp_all add: Cons_nth_drop_Suc [symmetric])
  obtain f where f: "ValidateBlobTxWithCache A cache (bs ! i) = Inr f" using valid i by (meson nth_mem)
  have raw: "raw_blob_tx A (orig ! i) (bs ! i)" using orig i' by (rule list_all2_nthD)
  note keep = compacted_keep [OF Suc.prems(3) i']
  have parsed: "parsed_as A (kept_txs st @ [orig ! i]) (kb @ [bs ! i])"
    using Suc.prems(4) raw by (simp add: parsed_as_def raw_blob_tx_def)
  from blob_step [OF H L Suc.prems(6) compacted_nth [OF Suc.prems(3) i'] f raw st1(1) clean(1)]
  have "compacted orig (Suc i) (fs_Array st1) (fs_Next st1) \<and>
    (\<exists>kb1. parsed_as A (kept_txs st1) kb1 \<and>
      in_step A H W cache c0 (view_of m t ns kb1 []) (ns @ kept_txs st1) (n, fs_Count st1, 0) (fs_Ctx st1) (fs_Builder st1))"
  proof (elim disjE conjE)
    assume "fs_Array st1 = fs_Array st" "fs_Next st1 = fs_Next st"
      "in_step A H W cache c0 (view_of m t ns kb []) (ns @ kept_txs st) (n, fs_Count st1, 0) (fs_Ctx st1) (fs_Builder st1)"
    then show ?thesis using compacted_skip [OF Suc.prems(3) i'] Suc.prems(4) by auto
  next
    assume "fs_Array st1 = (fs_Array st)[fs_Next st := orig ! i]" "fs_Next st1 = fs_Next st + 1"
      "in_step A H W cache c0 ((view_of m t ns kb [])\<lparr>sv_Blobs := sv_Blobs (view_of m t ns kb []) @ [bs ! i]\<rparr>)
        ((ns @ kept_txs st) @ [orig ! i]) (n, fs_Count st1, 0) (fs_Ctx st1) (fs_Builder st1)"
    then show ?thesis using keep parsed by auto
  qed
  then obtain kb1 where "compacted orig (Suc i) (fs_Array st1) (fs_Next st1)" "parsed_as A (kept_txs st1) kb1"
    "in_step A H W cache c0 (view_of m t ns kb1 []) (ns @ kept_txs st1) (n, fs_Count st1, 0) (fs_Ctx st1) (fs_Builder st1)"
    by blast
  then show ?case using Suc.hyps(1) [of "Suc i" st1 kb1] Suc.hyps(2) st1(2) clean(2) i by simp
qed

definition synthesized_as :: "('b, 'eds, 'k) check_env \<Rightarrow> bytes list \<Rightarrow> fibre_tx list \<Rightarrow> bool" where
  "synthesized_as A raws fts \<longleftrightarrow>
     map (TryParseFibreTx (ce_sdk A) (ce_lib A)) raws = map (\<lambda>ft. Inr (Some ft)) fts"

lemma fibre_loop:
  assumes H: "ante_laws H" and L: "append_laws (ce_lib A) W"
  shows "fill_fibre A H ctx raws (s, b, cnt, fs) = Inr (s', b', cnt', fs') \<Longrightarrow> (\<forall>raw\<in>set raws. raw_fibre_tx A raw) \<Longrightarrow>
    synthesized_as A fs fts \<Longrightarrow>
    in_step A H W cache c0 (view_of m t ns bs fts) (kept @ fs) (n, k, cnt) (ctx\<lparr>ac_Store := s\<rparr>) b \<Longrightarrow>
    \<exists>fts' more. synthesized_as A fs' fts' \<and> fs' = fs @ more \<and> mset more \<subseteq># mset raws \<and>
      in_step A H W cache c0 (view_of m t ns bs fts') (kept @ fs') (n, k, cnt') (ctx\<lparr>ac_Store := s'\<rparr>) b'"
proof (induction raws arbitrary: s b cnt fs fts)
  case Nil
  then show ?case by auto
next
  case (Cons raw raws)
  obtain s1 b1 cnt1 fs1 where st1: "fill_fibre_tx A H ctx raw (s, b, cnt, fs) = Inr (s1, b1, cnt1, fs1)"
    "fill_fibre A H ctx raws (s1, b1, cnt1, fs1) = Inr (s', b', cnt', fs')"
    using Cons.prems(1) by auto
  have raw: "raw_fibre_tx A raw" and raws: "\<forall>raw\<in>set raws. raw_fibre_tx A raw" using Cons.prems(2) by auto
  from fibre_step [OF H L Cons.prems(4) raw st1(1)]
  have "\<exists>fts1 new. synthesized_as A fs1 fts1 \<and> fs1 = fs @ new \<and> mset new \<subseteq># {#raw#} \<and>
      in_step A H W cache c0 (view_of m t ns bs fts1) (kept @ fs1) (n, k, cnt1) (ctx\<lparr>ac_Store := s1\<rparr>) b1"
  proof (elim disjE conjE exE)
    assume "fs1 = fs" "in_step A H W cache c0 (view_of m t ns bs fts) (kept @ fs) (n, k, cnt1) (ctx\<lparr>ac_Store := s1\<rparr>) b1"
    then show ?thesis using Cons.prems(3) by auto
  next
    fix ft
    assume "fs1 = fs @ [raw]" "TryParseFibreTx (ce_sdk A) (ce_lib A) raw = Inr (Some ft)"
      "in_step A H W cache c0 ((view_of m t ns bs fts)\<lparr>sv_Fibre := sv_Fibre (view_of m t ns bs fts) @ [ft]\<rparr>)
        (kept @ fs @ [raw]) (n, k, cnt1) (ctx\<lparr>ac_Store := s1\<rparr>) b1"
    then show ?thesis
      using Cons.prems(3) by (intro exI [of _ "fts @ [ft]"] exI [of _ "[raw]"]) (simp add: synthesized_as_def)
  qed
  then obtain fts1 new where one: "synthesized_as A fs1 fts1" "fs1 = fs @ new" "mset new \<subseteq># {#raw#}"
    "in_step A H W cache c0 (view_of m t ns bs fts1) (kept @ fs1) (n, k, cnt1) (ctx\<lparr>ac_Store := s1\<rparr>) b1" by blast
  from Cons.IH [OF st1(2) raws one(1,4)]
  obtain fts' more where rest: "synthesized_as A fs' fts'" "fs' = fs1 @ more" "mset more \<subseteq># mset raws"
    "in_step A H W cache c0 (view_of m t ns bs fts') (kept @ fs') (n, k, cnt') (ctx\<lparr>ac_Store := s'\<rparr>) b'" by blast
  have "mset (new @ more) \<subseteq># mset (raw # raws)"
    using subset_mset.add_mono [OF one(3) rest(3)] by simp
  then show ?case using one(2) rest(1,2,4) by (intro exI [of _ fts'] exI [of _ "new @ more"]) simp
qed

section \<open>A filled square\<close>

lemma mset_skip: "M \<subseteq># N \<Longrightarrow> M \<subseteq># add_mset x N"
  by (rule subset_mset.order_trans [of _ N]) simp_all

lemma filter_max_mset: "mset (filter_max_bytes f m c txs) \<subseteq># mset txs"
  by (induction txs arbitrary: c) (simp_all add: Let_def mset_skip)

lemma kept_subset: "compacted orig (length orig) arr n \<Longrightarrow> set (take n arr) \<subseteq> set orig"
  unfolding compacted_def by (metis set_mset_mono set_mset_mset take_all order_refl)

lemma FillE:
  assumes "Fill A H b0 c0 txs maxTxBytes = Inr (b, kept)"
  obtains txs1 ns0 bs0 raws0 fs0 st bt s cnt fs
  where "txs1 = (if 0 < sint maxTxBytes then filter_max_bytes (ComputeProtoSizeForTxs (ce_lib A)) maxTxBytes 0 txs else txs)"
    and "separateTxs A txs1 = (ns0, bs0, raws0, fs0)"
    and "fill_normal A H [0..<length ns0]
      \<lparr>fs_Ctx = c0, fs_Builder = b0, fs_Count = 0, fs_Array = ns0, fs_Next = 0\<rparr> = Inr st"
    and "fill_blobs A H 0 bs0
      \<lparr>fs_Ctx = fs_Ctx st, fs_Builder = fs_Builder st, fs_Count = 0, fs_Array = raws0, fs_Next = 0\<rparr> = Inr bt"
    and "fill_fibre A H (fs_Ctx bt) fs0 (ac_Store (fs_Ctx bt), fs_Builder bt, 0, []) = Inr (s, b, cnt, fs)"
    and "kept = kept_txs st @ kept_txs bt @ fs"
proof -
  obtain txs1 where txs1: "txs1 =
      (if 0 < sint maxTxBytes then filter_max_bytes (ComputeProtoSizeForTxs (ce_lib A)) maxTxBytes 0 txs else txs)" by simp
  obtain ns0 bs0 raws0 fs0 where sep: "separateTxs A txs1 = (ns0, bs0, raws0, fs0)" by (metis prod_cases4)
  show thesis
    using assms that [OF txs1 sep]
    unfolding Fill_def Let_def txs1 [symmetric] sep processFibreTxsForSquare_def by auto
qed

lemma fill_sub: "mset (if b then filter_max_bytes f m c txs else txs) \<subseteq># mset txs"
  by (simp add: filter_max_mset)

lemma list_all2_member: "list_all2 P xs ys \<Longrightarrow> y \<in> set ys \<Longrightarrow> \<exists>x\<in>set xs. P x y"
  by (induction rule: list_all2_induct) auto

lemma fill_in_step:
  assumes H: "ante_laws H" and L: "append_laws (ce_lib A) W"
    and wf: "\<And>raw. raw \<in> set txs \<Longrightarrow> well_formed_tx A raw"
    and valid: "\<And>btx. blob_tx_valid A btx \<Longrightarrow> \<exists>f. ValidateBlobTxWithCache A cache btx = Inr f"
    and b0: "bv_View W b0 = view_of m t [] [] []" "bv_Fits W (bv_View W b0)"
    and run: "Fill A H b0 c0 txs maxTxBytes = Inr (b, kept)" and clean: "clean_fill A H b0 c0 txs maxTxBytes"
  obtains ns raws fs bs fts cnt c where "kept = ns @ raws @ fs"
    and "\<forall>raw\<in>set ns. well_formed_tx A raw \<and> normal_tx A raw"
    and "parsed_as A raws bs" and "synthesized_as A fs fts"
    and "in_step A H W cache c0 (view_of m t ns bs fts) kept cnt c b"
proof -
  obtain txs1 ns0 bs0 raws0 fs0 st bt s cnt3 fs where
    txs1: "txs1 = (if 0 < sint maxTxBytes then filter_max_bytes (ComputeProtoSizeForTxs (ce_lib A)) maxTxBytes 0 txs else txs)"
    and sep: "separateTxs A txs1 = (ns0, bs0, raws0, fs0)"
    and st: "fill_normal A H [0..<length ns0]
      \<lparr>fs_Ctx = c0, fs_Builder = b0, fs_Count = 0, fs_Array = ns0, fs_Next = 0\<rparr> = Inr st"
    and bt: "fill_blobs A H 0 bs0
      \<lparr>fs_Ctx = fs_Ctx st, fs_Builder = fs_Builder st, fs_Count = 0, fs_Array = raws0, fs_Next = 0\<rparr> = Inr bt"
    and fib: "fill_fibre A H (fs_Ctx bt) fs0 (ac_Store (fs_Ctx bt), fs_Builder bt, 0, []) = Inr (s, b, cnt3, fs)"
    and kept: "kept = kept_txs st @ kept_txs bt @ fs"
    using run by (rule FillE)
  have clean1: "normal_clean A H [0..<length ns0] \<lparr>fs_Ctx = c0, fs_Builder = b0, fs_Count = 0, fs_Array = ns0, fs_Next = 0\<rparr>"
    and clean2: "blobs_clean A H 0 (drop 0 bs0)
      \<lparr>fs_Ctx = fs_Ctx st, fs_Builder = fs_Builder st, fs_Count = 0, fs_Array = raws0, fs_Next = 0\<rparr>"
    using clean st by (simp_all add: clean_fill_def Let_def txs1 [symmetric] sep)
  note groups = separate_groups [OF sep]
  have "mset txs1 \<subseteq># mset txs" unfolding txs1 by (rule fill_sub)
  with groups have "mset (ns0 @ raws0 @ fs0) \<subseteq># mset txs" by (meson subset_mset.order_trans)
  then have "set (ns0 @ raws0 @ fs0) \<subseteq> set txs" by (metis set_mset_mono set_mset_mset)
  then have sub: "set ns0 \<subseteq> set txs" "set raws0 \<subseteq> set txs" by auto
  have normal: "\<forall>raw\<in>set ns0. normal_tx A raw" and blobs: "list_all2 (raw_blob_tx A) raws0 bs0"
    and fibres: "\<forall>raw\<in>set fs0. raw_fibre_tx A raw" using groups by simp_all
  have ns0: "well_formed_tx A raw \<and> normal_tx A raw" if "raw \<in> set ns0" for raw
    using wf [of raw] normal sub(1) that by (meson subsetD)
  have one: "compacted ns0 (length ns0) (fs_Array st) (fs_Next st) \<and>
    in_step A H W cache c0 (view_of m t (kept_txs st) [] []) (kept_txs st) (fs_Count st, 0, 0) (fs_Ctx st) (fs_Builder st)"
    by (rule normal_loop [OF H L ns0 st]) (use b0 clean1 in \<open>simp_all add: compacted_init in_step_def\<close>)
  have valid0: "\<exists>f. ValidateBlobTxWithCache A cache btx = Inr f" if btx: "btx \<in> set bs0" for btx
  proof -
    obtain raw where raw: "raw \<in> set raws0" "raw_blob_tx A raw btx"
      using list_all2_member [OF blobs btx] by (elim bexE)
    then have "well_formed_tx A raw" using wf [of raw] sub(2) by (meson subsetD)
    then have "blob_tx_valid A btx" using raw(2) by (simp add: well_formed_tx_def raw_blob_tx_def)
    then show ?thesis by (rule valid)
  qed
  have start2: "in_step A H W cache c0 (view_of m t (kept_txs st) [] []) (kept_txs st @ []) (fs_Count st, 0, 0)
      (fs_Ctx st) (fs_Builder st)" using one by simp
  have "compacted raws0 (length raws0) (fs_Array bt) (fs_Next bt) \<and> (\<exists>kb. parsed_as A (kept_txs bt) kb \<and>
    in_step A H W cache c0 (view_of m t (kept_txs st) kb []) (kept_txs st @ kept_txs bt)
      (fs_Count st, fs_Count bt, 0) (fs_Ctx bt) (fs_Builder bt))"
  proof (rule blob_loop [OF H L blobs valid0, where i = 0 and kb = "[]"])
    show "fill_blobs A H 0 (drop 0 bs0)
      \<lparr>fs_Ctx = fs_Ctx st, fs_Builder = fs_Builder st, fs_Count = 0, fs_Array = raws0, fs_Next = 0\<rparr> = Inr bt"
      using bt by simp
  qed (use start2 clean2 in \<open>simp_all add: compacted_init parsed_as_def\<close>)
  then obtain kb where two: "parsed_as A (kept_txs bt) kb"
    "in_step A H W cache c0 (view_of m t (kept_txs st) kb []) (kept_txs st @ kept_txs bt)
      (fs_Count st, fs_Count bt, 0) (fs_Ctx bt) (fs_Builder bt)"
    by blast
  have start3: "in_step A H W cache c0 (view_of m t (kept_txs st) kb []) ((kept_txs st @ kept_txs bt) @ [])
      (fs_Count st, fs_Count bt, 0) ((fs_Ctx bt)\<lparr>ac_Store := ac_Store (fs_Ctx bt)\<rparr>) (fs_Builder bt)"
    using two(2) by simp
  have "synthesized_as A [] []" by (simp add: synthesized_as_def)
  from fibre_loop [OF H L fib fibres this start3]
  obtain fts where three: "synthesized_as A fs fts"
    "in_step A H W cache c0 (view_of m t (kept_txs st) kb fts) ((kept_txs st @ kept_txs bt) @ fs)
      (fs_Count st, fs_Count bt, cnt3) ((fs_Ctx bt)\<lparr>ac_Store := s\<rparr>) b"
    by blast
  show thesis
  proof (rule that [OF kept _ two(1) three(1)])
    show "in_step A H W cache c0 (view_of m t (kept_txs st) kb fts) kept (fs_Count st, fs_Count bt, cnt3)
        ((fs_Ctx bt)\<lparr>ac_Store := s\<rparr>) b" using three(2) kept by simp
    show "\<forall>raw\<in>set (kept_txs st). well_formed_tx A raw \<and> normal_tx A raw"
      using ns0 kept_subset one by (meson subsetD)
  qed
qed

section \<open>The kept transactions classify as they were appended\<close>

lemma classify_append:
  "ClassifyTxs E L xs = Inr cs \<Longrightarrow> ClassifyTxs E L ys = Inr ds \<Longrightarrow> ClassifyTxs E L (xs @ ys) = Inr (cs @ ds)"
  by (induction xs arbitrary: cs) auto

lemma classify_plain:
  "(\<And>raw. raw \<in> set xs \<Longrightarrow> TryParseFibreTx E L raw = Inr None) \<Longrightarrow> ClassifyTxs E L xs = Inr (map ClassifiedTx xs)"
  by (induction xs) auto

lemma classify_fibre:
  assumes "\<And>ft. NewClassifiedFibreTx L ft = Some (ClassifiedFibreTx ft)"
  shows "map (TryParseFibreTx E L) xs = map (\<lambda>ft. Inr (Some ft)) fts \<Longrightarrow> ClassifyTxs E L xs = Inr (map ClassifiedFibreTx fts)"
  by (induction xs arbitrary: fts) (auto simp: assms)

lemma parse_normal:
  assumes "decode_laws A" and "well_formed_tx A raw" and "normal_tx A raw"
  shows "TryParseFibreTx (ce_sdk A) (ce_lib A) raw = Inr None"
proof (rule ccontr)
  assume "\<not> ?thesis"
  moreover have blob: "UnmarshalBlobTx (ce_lib A) raw = NotBlobTx" using assms(3) by (simp add: normal_tx_def)
  ultimately obtain v where v: "UnmarshalTxBody (ce_lib A) raw = Some [(MsgPayForFibreTypeURL, v)]"
    by (auto simp: TryParseFibreTx_def split: option.splits list.splits if_splits)
  obtain tx where tx: "ce_TxDecoder A raw = Inr tx" "hasPFB (tx_Msgs tx) = None"
    using assms(2) blob by (auto simp: well_formed_tx_def split: sum.splits)
  then obtain p where "tx_Msgs tx = [PayForFibreMsg p]" using assms(1) blob v unfolding decode_laws_def by blast
  then have "0 < countMsgPayForFibre tx" by (simp add: count_pff)
  then show False using assms(3) tx(1) by (simp add: normal_tx_def)
qed

lemma parse_blob: "UnmarshalBlobTx L raw = ParsedBlobTx btx \<Longrightarrow> TryParseFibreTx E L raw = Inr None"
  by (simp add: TryParseFibreTx_def)

lemma parsed_member: "parsed_as A raws bs \<Longrightarrow> raw \<in> set raws \<Longrightarrow> \<exists>btx. UnmarshalBlobTx (ce_lib A) raw = ParsedBlobTx btx"
  unfolding parsed_as_def by (metis (no_types, lifting) image_iff list.set_map)

section \<open>A processed proposal keeps the limits of the square\<close>

lemma process_tx_blob:
  assumes "ante_laws H" and "process_tx A H cache raw st = Some st'"
  shows "same_blob H (ps_Ctx st') (ps_Ctx st)"
proof -
  have "same_blob H (ps_Ctx st') (ps_Ctx st)" if "process_blob_tx A H cache btx st = Some st'" for btx
    using that ante_ok_blob [OF assms(1)]
    by (auto simp: process_blob_tx_def Let_def split: sum.splits if_splits ante_result.splits)
  moreover have "same_blob H (ps_Ctx st') (ps_Ctx st)" if run: "process_plain_tx A H raw st = Some st'"
  proof -
    obtain tx c where tx: "ae_Ante H ((ps_Ctx st)\<lparr>ac_TxBytes := raw\<rparr>) tx = AnteOk c"
      "ps_Ctx st' = c \<or> payForFibreMsg tx \<noteq> None \<and> executeTxMsgs (ae_Router H) c tx = Some (ps_Ctx st')"
      using run by (auto simp: process_plain_tx_def Let_def split: sum.splits if_splits ante_result.splits option.splits)
    have c: "same_blob H c (ps_Ctx st)" by (rule ante_ok_blob [OF assms(1) tx(1)])
    from tx(2) show ?thesis
    proof
      assume "payForFibreMsg tx \<noteq> None \<and> executeTxMsgs (ae_Router H) c tx = Some (ps_Ctx st')"
      then show ?thesis using exec_blob [OF assms(1)] payForFibreMsg_iff same_blob_trans [OF _ c] by blast
    qed (use c in simp)
  qed
  ultimately show ?thesis
    using assms(2) by (auto simp: process_tx_def split: if_splits blob_tx_parse.splits)
qed

lemma process_txs_blob:
  assumes "ante_laws H"
  shows "process_txs A H cache raws st = Some st' \<Longrightarrow> same_blob H (ps_Ctx st') (ps_Ctx st)"
proof (induction raws arbitrary: st)
  case (Cons raw raws)
  from Cons.prems obtain st1 where "process_tx A H cache raw st = Some st1" "process_txs A H cache raws st1 = Some st'"
    by (auto split: option.splits)
  then show ?case using process_tx_blob [OF assms] Cons.IH same_blob_trans by blast
qed simp

section \<open>A prepared proposal is accepted\<close>

lemma case_sum_ok: "(case r of Inl _ \<Rightarrow> False | Inr x \<Rightarrow> P x) \<longleftrightarrow> (\<exists>x. r = Inr x \<and> P x)"
  by (cases r) auto

lemma case_option_ok: "(case r of None \<Rightarrow> False | Some x \<Rightarrow> P x) \<longleftrightarrow> (\<exists>x. r = Some x \<and> P x)"
  by (cases r) auto

lemma process_square_iff:
  "process_square A m req \<longleftrightarrow>
    (\<exists>cs sq eds dah. ClassifyTxs (ce_sdk A) (ce_lib A) (pr_Txs req) = Inr cs \<and>
      Construct (ce_lib A) cs m SubtreeRootThreshold = Some sq \<and>
      ExtendSharesWithTreePool (ce_square A) (ce_lib A) sq = Inr eds \<and>
      eds_Width (ce_lib A) eds div 2 = pr_SquareSize req \<and>
      NewDataAvailabilityHeader (ce_lib A) eds = Inr dah \<and> fst (dah_Hash (ce_lib A) (Some dah)) = pr_DataRootHash req)"
  unfolding process_square_def by (simp add: case_sum_ok case_option_ok) blast

lemma square_accepted:
  assumes laws: "builder_laws (ce_lib A) W" "decode_laws A"
    and new: "NewBuilder (ce_lib A) m SubtreeRootThreshold = Some b0"
    and ns: "\<And>raw. raw \<in> set ns \<Longrightarrow> well_formed_tx A raw \<and> normal_tx A raw"
    and parsed: "parsed_as A raws bs" and synth: "synthesized_as A fs fts"
    and view: "bv_View W b = view_of m SubtreeRootThreshold ns bs fts" "bv_Fits W (bv_View W b)"
    and export: "builder_Export (ce_lib A) b = Some sq"
    and eds: "ExtendSharesWithTreePool (ce_square A) (ce_lib A) sq = Inr eds"
    and dah: "NewDataAvailabilityHeader (ce_lib A) eds = Inr dah"
    and size: "square_Size (ce_lib A) (length sq) = Some n"
  shows "process_square A m \<lparr>pr_Txs = ns @ raws @ fs, pr_SquareSize = n,
    pr_DataRootHash = fst (dah_Hash (ce_lib A) (Some dah))\<rparr>"
proof -
  note L = laws(1) [unfolded builder_laws_def]
  have cls1: "ClassifyTxs (ce_sdk A) (ce_lib A) (ns @ raws) = Inr (map ClassifiedTx (ns @ raws))"
  proof (rule classify_plain)
    fix raw assume "raw \<in> set (ns @ raws)"
    then show "TryParseFibreTx (ce_sdk A) (ce_lib A) raw = Inr None"
      using parse_normal [OF laws(2)] ns parsed_member [OF parsed] parse_blob by fastforce
  qed
  have cls2: "ClassifyTxs (ce_sdk A) (ce_lib A) fs = Inr (map ClassifiedFibreTx fts)"
    using classify_fibre synth L unfolding construct_laws_def synthesized_as_def by blast
  have cls: "ClassifyTxs (ce_sdk A) (ce_lib A) (ns @ raws @ fs) =
      Inr (map ClassifiedTx (ns @ raws) @ map ClassifiedFibreTx fts)"
    using classify_append [OF cls1 cls2] by simp
  have "\<forall>raw\<in>set ns. UnmarshalBlobTx (ce_lib A) raw = NotBlobTx" using ns by (simp add: normal_tx_def)
  then have "Construct (ce_lib A) (map ClassifiedTx (ns @ raws) @ map ClassifiedFibreTx fts) m SubtreeRootThreshold =
      bv_Square W (view_of m SubtreeRootThreshold ns bs fts)"
    using L new parsed view unfolding construct_laws_def parsed_as_def by auto
  also have "\<dots> = Some sq" using L export view(1) unfolding new_laws_def by simp
  finally have sq: "Construct (ce_lib A) (map ClassifiedTx (ns @ raws) @ map ClassifiedFibreTx fts) m SubtreeRootThreshold = Some sq" .
  have "ComputeExtendedDataSquareWithBuffer (ce_lib A) sq = Some eds"
    using eds by (simp add: ExtendSharesWithTreePool_def)
  then have "unat (eds_Width (ce_lib A) eds) = 2 * unat n" using L size unfolding construct_laws_def by blast
  then have "eds_Width (ce_lib A) eds div 2 = n" by (simp add: word_eq_iff_unsigned [where ?'a = nat] unat_div)
  then show ?thesis using cls sq eds dah by (simp add: process_square_def)
qed

lemma da_result_Inr [simp]: "da_result r = Inr x \<longleftrightarrow> r = Inr x"
  by (cases r) (simp_all add: da_result_def)

lemma prepared_accepted:
  assumes laws: "builder_laws (ce_lib A) W" "decode_laws A" "ante_laws H"
    and clean: "clean_prepare A H ctx reqTxs maxTxBytes"
    and wf: "\<And>raw. raw \<in> set reqTxs \<Longrightarrow> well_formed_tx A raw"
    and run: "PrepareProposalHandler A H ctx reqTxs maxTxBytes = Inr req"
  shows "ProcessProposalHandler A H cache ctx req = ACCEPT"
proof -
  let ?m = "MaxEffectiveSquareSize (ae_Blob H (ac_Store ctx)) (ac_ChainID ctx)"
  obtain b0 b kept sq eds dah n where new: "NewBuilder (ce_lib A) ?m SubtreeRootThreshold = Some b0"
    and fill: "Fill A H b0 ctx reqTxs maxTxBytes = Inr (b, kept)"
    and sq: "builder_Export (ce_lib A) b = Some sq"
    and eds: "ExtendSharesWithTreePool (ce_square A) (ce_lib A) sq = Inr eds"
    and dah: "NewDataAvailabilityHeader (ce_lib A) eds = Inr dah"
    and size: "square_Size (ce_lib A) (length sq) = Some n"
    and req: "req = \<lparr>pr_Txs = kept, pr_SquareSize = n, pr_DataRootHash = fst (dah_Hash (ce_lib A) (Some dah))\<rparr>"
    using run by (auto simp: PrepareProposalHandler_def)
  have b0: "bv_View W b0 = view_of ?m SubtreeRootThreshold [] [] []" "bv_Fits W (bv_View W b0)"
    using laws(1) new unfolding builder_laws_def new_laws_def by blast+
  have L: "append_laws (ce_lib A) W" using laws(1) by (simp add: builder_laws_def)
  have cf: "clean_fill A H b0 ctx reqTxs maxTxBytes" using clean new by (simp add: clean_prepare_def)
  obtain ns raws fs bs fts cnt c where kept: "kept = ns @ raws @ fs"
    and ns: "\<forall>raw\<in>set ns. well_formed_tx A raw \<and> normal_tx A raw"
    and parsed: "parsed_as A raws bs" and synth: "synthesized_as A fs fts"
    and step: "in_step A H W cache ctx (view_of ?m SubtreeRootThreshold ns bs fts) kept cnt c b"
    by (rule fill_in_step [OF laws(3) L wf valid_passes_cache b0 fill cf])
  obtain st where st: "process_txs A H cache kept (process_init ctx) = Some st"
    and view: "bv_View W b = view_of ?m SubtreeRootThreshold ns bs fts" "bv_Fits W (bv_View W b)"
    using step unfolding in_step_def by auto
  have "same_blob H (ps_Ctx st) ctx" using process_txs_blob [OF laws(3) st] by simp
  then have "MaxEffectiveSquareSize (ae_Blob H (ac_Store (ps_Ctx st))) (ac_ChainID (ps_Ctx st)) = ?m"
    by (simp add: same_blob_def)
  then show ?thesis
    using square_accepted [OF laws(1,2) new bspec [OF ns] parsed synth view sq eds dah size] st kept
    by (simp add: ProcessProposalHandler_def req)
qed

text \<open>C4: A proposer accepts the blocks it builds: if every transaction it is given passed \<open>CheckTx\<close>, the proposal of
  \<open>PrepareProposal\<close> is accepted by \<open>ProcessProposal\<close> on the same state, whatever the cache of validated blob transactions
  holds, unless a plain or blob transaction that this run dropped left writes in the state. Whatever else makes
  \<open>PrepareProposal\<close> drop a transaction (size, undecodable bytes, message limits, a full square, a refused or failed payment
  for fibre), and whatever the ante handler keeps and refuses, the two handlers agree.\<close>

theorem prepared_proposal_is_accepted:
  assumes laws: "builder_laws (ce_lib A) W" "decode_laws A" "ante_laws H"
    and clean: "clean_prepare A H ctx reqTxs maxTxBytes"
    and checked: "\<forall>raw\<in>set reqTxs. \<exists>st. check_accepted (CheckTx A CheckTxType_New raw st)"
    and run: "PrepareProposalHandler A H ctx reqTxs maxTxBytes = Inr req"
  shows "ProcessProposalHandler A H cache ctx req = ACCEPT"
  by (rule prepared_accepted [OF laws clean _ run]) (use check_tx_well_formed checked in blast)

section \<open>An accepted proposal is well formed\<close>

definition tx_weight :: "('b, 'eds, 'k) check_env \<Rightarrow> bytes \<Rightarrow> nat \<times> nat \<times> nat" where
  "tx_weight A raw =
     (case UnmarshalBlobTx (ce_lib A) raw of
        ParsedBlobTx btx \<Rightarrow> (case ce_TxDecoder A (btx_Tx btx) of Inl _ \<Rightarrow> (0, 0, 0) | Inr tx \<Rightarrow> (0, length (tx_Msgs tx), 0))
      | _ \<Rightarrow> (case ce_TxDecoder A raw of
               Inl _ \<Rightarrow> (0, 0, 0)
             | Inr tx \<Rightarrow> if payForFibreMsg tx \<noteq> None then (0, 0, 1) else (length (tx_Msgs tx), 0, 0)))"

definition within_limits :: "('m, 's) process_state \<Rightarrow> bool" where
  "within_limits st \<longleftrightarrow> ps_Sdk st \<le> MaxSDKMessages \<and> ps_Pfb st \<le> MaxPFBMessages \<and> ps_Pff st \<le> MaxPayForFibreMessages"

lemma process_tx_facts:
  assumes valid: "\<forall>btx f. UnmarshalBlobTx (ce_lib A) raw = ParsedBlobTx btx \<longrightarrow>
      ValidateBlobTxWithCache A cache btx = Inr f \<longrightarrow> blob_tx_valid A btx"
    and run: "process_tx A H cache raw st = Some st'" and lim: "within_limits st"
  shows "well_formed_tx A raw \<and> within_limits st' \<and>
    (ps_Sdk st', ps_Pfb st', ps_Pff st') =
      (ps_Sdk st + fst (tx_weight A raw), ps_Pfb st + fst (snd (tx_weight A raw)), ps_Pff st + snd (snd (tx_weight A raw)))"
proof (cases "UnmarshalBlobTx (ce_lib A) raw")
  case NotBlobTx
  then have len: "length raw \<le> MaxTxSize" and plain: "process_plain_tx A H raw st = Some st'"
    using run by (auto simp: process_tx_def split: if_splits)
  obtain tx where tx: "ce_TxDecoder A raw = Inr tx"
    using plain by (auto simp: process_plain_tx_def split: sum.splits)
  have pos: "0 < MaxPayForFibreMessages" by (simp add: MaxPayForFibreMessages_def)
  show ?thesis
  proof (cases "payForFibreMsg tx")
    case None
    then show ?thesis
      using plain NotBlobTx len tx lim
      by (auto simp: process_plain_tx_def well_formed_tx_def within_limits_def tx_weight_def Let_def
          split: if_splits sum.splits ante_result.splits)
  next
    case (Some p)
    then show ?thesis
      using plain NotBlobTx len tx lim pos
      by (auto simp: process_plain_tx_def well_formed_tx_def within_limits_def tx_weight_def Let_def
          split: if_splits sum.splits ante_result.splits option.splits)
  qed
next
  case (MalformedBlobTx n)
  then show ?thesis using run by (simp add: process_tx_def split: if_splits)
next
  case (ParsedBlobTx btx)
  then have "length raw \<le> MaxTxSize" "blobTxIsCanonical (ce_lib A) raw btx" "process_blob_tx A H cache btx st = Some st'"
    using run by (auto simp: process_tx_def split: if_splits)
  then show ?thesis
    using ParsedBlobTx lim valid
    by (auto simp: process_blob_tx_def well_formed_tx_def within_limits_def tx_weight_def Let_def
        split: if_splits sum.splits ante_result.splits)
qed

lemma process_txs_facts:
  shows "process_txs A H cache raws st = Some st' \<Longrightarrow>
    (\<forall>raw\<in>set raws. \<forall>btx f. UnmarshalBlobTx (ce_lib A) raw = ParsedBlobTx btx \<longrightarrow>
      ValidateBlobTxWithCache A cache btx = Inr f \<longrightarrow> blob_tx_valid A btx) \<Longrightarrow> within_limits st \<Longrightarrow>
    (\<forall>raw\<in>set raws. well_formed_tx A raw) \<and> within_limits st' \<and>
    ps_Sdk st' = ps_Sdk st + (\<Sum>raw\<leftarrow>raws. fst (tx_weight A raw)) \<and>
    ps_Pfb st' = ps_Pfb st + (\<Sum>raw\<leftarrow>raws. fst (snd (tx_weight A raw))) \<and>
    ps_Pff st' = ps_Pff st + (\<Sum>raw\<leftarrow>raws. snd (snd (tx_weight A raw)))"
proof (induction raws arbitrary: st)
  case Nil
  then show ?case by simp
next
  case (Cons raw raws)
  from Cons.prems(1) obtain st1 where st1: "process_tx A H cache raw st = Some st1" "process_txs A H cache raws st1 = Some st'"
    by (auto split: option.splits)
  note one = process_tx_facts [OF _ st1(1) Cons.prems(3)]
  with Cons.IH [OF st1(2)] Cons.prems(2) show ?case by auto
qed

text \<open>C5: What a validator votes for is well formed: in an accepted proposal every transaction has an allowed size and, if it
  carries blobs, is canonically encoded and passes the full blob validation with its commitments (cache or not),
  otherwise it pays for no blobs and a payment for fibre is alone in it with a valid promise; the numbers of messages
  are within the limits of a block; the ante handler accepts every one of them in this order; and the square size and
  data root are those of the square of exactly these transactions, built for the effective maximum square size.\<close>

theorem accepted_proposal_is_well_formed:
  assumes hash: "collision_free (ce_sdk A)" "blob_hash_laws (ce_lib A) S"
    and cache: "reach check_init (check_step A S) cache"
    and seen: "\<forall>raw\<in>set (pr_Txs req). blobs_of A raw \<subseteq> S"
    and accept: "ProcessProposalHandler A H cache ctx req = ACCEPT"
  shows "(\<forall>raw\<in>set (pr_Txs req). well_formed_tx A raw) \<and>
    (\<Sum>raw\<leftarrow>pr_Txs req. fst (tx_weight A raw)) \<le> MaxSDKMessages \<and>
    (\<Sum>raw\<leftarrow>pr_Txs req. fst (snd (tx_weight A raw))) \<le> MaxPFBMessages \<and>
    (\<Sum>raw\<leftarrow>pr_Txs req. snd (snd (tx_weight A raw))) \<le> MaxPayForFibreMessages \<and>
    (\<exists>st cs sq eds dah. process_txs A H cache (pr_Txs req) (process_init ctx) = Some st \<and>
      ClassifyTxs (ce_sdk A) (ce_lib A) (pr_Txs req) = Inr cs \<and>
      Construct (ce_lib A) cs (MaxEffectiveSquareSize (ae_Blob H (ac_Store (ps_Ctx st))) (ac_ChainID (ps_Ctx st)))
        SubtreeRootThreshold = Some sq \<and>
      ExtendSharesWithTreePool (ce_square A) (ce_lib A) sq = Inr eds \<and>
      NewDataAvailabilityHeader (ce_lib A) eds = Inr dah \<and> pr_SquareSize req = eds_Width (ce_lib A) eds div 2 \<and>
      pr_DataRootHash req = HashFromByteSlices (ce_lib A) (dah_slices dah))"
proof -
  obtain st where st: "process_txs A H cache (pr_Txs req) (process_init ctx) = Some st"
    and sq: "process_square A (MaxEffectiveSquareSize (ae_Blob H (ac_Store (ps_Ctx st))) (ac_ChainID (ps_Ctx st))) req"
    using accept by (auto simp: ProcessProposalHandler_def split: option.splits if_splits)
  have valid: "\<forall>raw\<in>set (pr_Txs req). \<forall>btx f. UnmarshalBlobTx (ce_lib A) raw = ParsedBlobTx btx \<longrightarrow>
      ValidateBlobTxWithCache A cache btx = Inr f \<longrightarrow> blob_tx_valid A btx"
    using cache_verdict [OF tx_cache.reach_inv [OF cache] hash] seen by (fastforce simp: blobs_of_def)
  have "within_limits (process_init ctx)" by (simp add: within_limits_def)
  note facts = process_txs_facts [OF st valid this]
  obtain cs s eds dah where "ClassifyTxs (ce_sdk A) (ce_lib A) (pr_Txs req) = Inr cs"
    "Construct (ce_lib A) cs (MaxEffectiveSquareSize (ae_Blob H (ac_Store (ps_Ctx st))) (ac_ChainID (ps_Ctx st)))
       SubtreeRootThreshold = Some s"
    "ExtendSharesWithTreePool (ce_square A) (ce_lib A) s = Inr eds" "NewDataAvailabilityHeader (ce_lib A) eds = Inr dah"
    "pr_SquareSize req = eds_Width (ce_lib A) eds div 2" "fst (dah_Hash (ce_lib A) (Some dah)) = pr_DataRootHash req"
    using sq unfolding process_square_iff by metis
  moreover from this(4,6) have "pr_DataRootHash req = HashFromByteSlices (ce_lib A) (dah_slices dah)"
    using new_header_hash by metis
  ultimately show ?thesis using facts st by (fastforce simp: within_limits_def)
qed

section \<open>A proposal stays within the size of a block\<close>

lemma filter_max_sum:
  assumes "\<And>tx. tx \<in> set txs \<Longrightarrow> 0 \<le> sint (f tx) \<and> sint (f tx) < 2 ^ 62" and "sint m < 2 ^ 62"
  shows "0 \<le> sint c \<Longrightarrow> sint c \<le> sint m \<Longrightarrow> sint c + (\<Sum>tx\<leftarrow>filter_max_bytes f m c txs. sint (f tx)) \<le> sint m"
  using assms(1)
proof (induction txs arbitrary: c)
  case Nil
  then show ?case by simp
next
  case (Cons tx txs)
  have "i64_range (sint c + sint (f tx))"
    using Cons.prems(1,2) Cons.prems(3) [of tx] assms(2) by (simp add: i64_range_def)
  then have add: "sint (c + f tx) = sint c + sint (f tx)" by (rule sint_add_exact)
  show ?case
  proof (cases "sint m < sint (c + f tx)")
    case True
    then show ?thesis using Cons.IH [OF Cons.prems(1,2)] Cons.prems(3) by (simp add: Let_def)
  next
    case False
    then show ?thesis
      using Cons.IH [of "c + f tx"] Cons.prems add by (simp add: Let_def)
  qed
qed

lemma normal_compact:
  "fill_normal_tx A H i st = Inr st' \<Longrightarrow> fs_Array st' = fs_Array st \<and> fs_Next st' = fs_Next st \<or>
     fs_Array st' = (fs_Array st)[fs_Next st := fs_Array st ! i] \<and> fs_Next st' = fs_Next st + 1"
  by (auto simp: fill_normal_tx_def Let_def split: sum.splits if_splits prod.splits bool.splits ante_result.splits)

lemma blob_compact:
  "fill_blob_tx A H i btx st = Inr st' \<Longrightarrow> fs_Array st' = fs_Array st \<and> fs_Next st' = fs_Next st \<or>
     fs_Array st' = (fs_Array st)[fs_Next st := fs_Array st ! i] \<and> fs_Next st' = fs_Next st + 1"
  by (auto simp: fill_blob_tx_def Let_def
      split: sum.splits if_splits prod.splits option.splits bool.splits ante_result.splits)

lemma fibre_compact:
  "fill_fibre_tx A H ctx raw (s, b, n, fs) = Inr (s', b', n', fs') \<Longrightarrow> fs' = fs \<or> fs' = fs @ [raw]"
  by (auto simp: fill_fibre_tx_def Let_def
      split: sum.splits if_splits prod.splits option.splits bool.splits ante_result.splits)

lemma compact_step:
  assumes "compacted orig i (fs_Array st) (fs_Next st)" and "i < length orig"
    and "fs_Array st' = fs_Array st \<and> fs_Next st' = fs_Next st \<or>
     fs_Array st' = (fs_Array st)[fs_Next st := fs_Array st ! i] \<and> fs_Next st' = fs_Next st + 1"
  shows "compacted orig (Suc i) (fs_Array st') (fs_Next st')"
  using assms(3) compacted_skip [OF assms(1,2)] compacted_keep(1) [OF assms(1,2)] compacted_nth [OF assms(1,2)] by auto

lemma normal_loop_compact:
  "fill_normal A H [i..<length orig] st = Inr st' \<Longrightarrow> i \<le> length orig \<Longrightarrow>
     compacted orig i (fs_Array st) (fs_Next st) \<Longrightarrow> compacted orig (length orig) (fs_Array st') (fs_Next st')"
proof (induction "length orig - i" arbitrary: i st)
  case 0
  then show ?case by simp
next
  case (Suc k)
  then have i: "i < length orig" by simp
  then obtain st1 where st1: "fill_normal_tx A H i st = Inr st1" "fill_normal A H [Suc i..<length orig] st1 = Inr st'"
    using Suc.prems(1) by (auto simp: upt_conv_Cons)
  from compact_step [OF Suc.prems(3) i normal_compact [OF st1(1)]]
  show ?case using Suc.hyps(1) [of "Suc i" st1] Suc.hyps(2) st1(2) i by simp
qed

lemma blob_loop_compact:
  "fill_blobs A H i bs st = Inr st' \<Longrightarrow> i + length bs = length orig \<Longrightarrow>
     compacted orig i (fs_Array st) (fs_Next st) \<Longrightarrow> compacted orig (length orig) (fs_Array st') (fs_Next st')"
proof (induction bs arbitrary: i st)
  case Nil
  then show ?case by simp
next
  case (Cons b bs)
  then obtain st1 where st1: "fill_blob_tx A H i b st = Inr st1" "fill_blobs A H (Suc i) bs st1 = Inr st'" by auto
  have "i < length orig" using Cons.prems(2) by simp
  from compact_step [OF Cons.prems(3) this blob_compact [OF st1(1)]]
  show ?case using Cons.IH [OF st1(2)] Cons.prems(2) by simp
qed

lemma fibre_loop_compact:
  "fill_fibre A H ctx raws (s, b, n, fs) = Inr (s', b', n', fs') \<Longrightarrow> mset fs' \<subseteq># mset fs + mset raws"
proof (induction raws arbitrary: s b n fs)
  case Nil
  then show ?case by simp
next
  case (Cons raw raws)
  then obtain s1 b1 n1 fs1 where st1: "fill_fibre_tx A H ctx raw (s, b, n, fs) = Inr (s1, b1, n1, fs1)"
    "fill_fibre A H ctx raws (s1, b1, n1, fs1) = Inr (s', b', n', fs')" by auto
  have "mset fs1 \<subseteq># mset fs + {#raw#}" using fibre_compact [OF st1(1)] by auto
  then have "mset fs1 + mset raws \<subseteq># mset fs + mset (raw # raws)" by simp
  then show ?case using Cons.IH [OF st1(2)] by (meson subset_mset.order_trans)
qed

lemma sum_mset_le:
  fixes f :: "'a \<Rightarrow> int"
  assumes "mset xs \<subseteq># mset ys" and "\<And>y. y \<in> set ys \<Longrightarrow> 0 \<le> f y"
  shows "(\<Sum>x\<leftarrow>xs. f x) \<le> (\<Sum>y\<leftarrow>ys. f y)"
proof -
  obtain zs where zs: "mset ys = mset (xs @ zs)"
    using assms(1) by (metis ex_mset mset_append subset_mset.add_diff_inverse)
  then have "(\<Sum>y\<leftarrow>ys. f y) = (\<Sum>y\<leftarrow>xs @ zs. f y)" by (metis mset_map sum_mset_sum_list)
  moreover have "0 \<le> (\<Sum>y\<leftarrow>zs. f y)"
    using assms(2) mset_eq_setD [OF zs] by (intro sum_list_nonneg) auto
  ultimately show ?thesis by simp
qed

lemma fill_kept:
  assumes "Fill A H b0 c0 txs maxTxBytes = Inr (b, kept)"
  shows "mset kept \<subseteq># mset (if 0 < sint maxTxBytes
    then filter_max_bytes (ComputeProtoSizeForTxs (ce_lib A)) maxTxBytes 0 txs else txs)"
proof -
  obtain txs1 ns0 bs0 raws0 fs0 st bt s cnt fs where
    txs1: "txs1 = (if 0 < sint maxTxBytes then filter_max_bytes (ComputeProtoSizeForTxs (ce_lib A)) maxTxBytes 0 txs else txs)"
    and sep: "separateTxs A txs1 = (ns0, bs0, raws0, fs0)"
    and st: "fill_normal A H [0..<length ns0]
      \<lparr>fs_Ctx = c0, fs_Builder = b0, fs_Count = 0, fs_Array = ns0, fs_Next = 0\<rparr> = Inr st"
    and bt: "fill_blobs A H 0 bs0
      \<lparr>fs_Ctx = fs_Ctx st, fs_Builder = fs_Builder st, fs_Count = 0, fs_Array = raws0, fs_Next = 0\<rparr> = Inr bt"
    and fib: "fill_fibre A H (fs_Ctx bt) fs0 (ac_Store (fs_Ctx bt), fs_Builder bt, 0, []) = Inr (s, b, cnt, fs)"
    and kept: "kept = kept_txs st @ kept_txs bt @ fs"
    using assms by (rule FillE)
  note groups = separate_groups [OF sep]
  have "length raws0 = length bs0" using groups list_all2_lengthD by blast
  then have "mset (kept_txs st) \<subseteq># mset ns0" "mset (kept_txs bt) \<subseteq># mset raws0"
    using normal_loop_compact [OF st] blob_loop_compact [OF bt, of raws0] by (simp_all add: compacted_def)
  moreover have "mset fs \<subseteq># mset fs0" using fibre_loop_compact [OF fib] by simp
  ultimately have "mset kept \<subseteq># mset (ns0 @ raws0 @ fs0)"
    unfolding kept by (simp add: subset_mset.add_mono)
  then show ?thesis using groups txs1 by (meson subset_mset.order_trans)
qed

text \<open>C35: \<open>Fill\<close> invents nothing and never exceeds the block: the transactions of a proposal are among those it was given, each
  at most as often, and their sizes on the wire add up to at most the limit (when no single size is absurd, so that the
  64-bit sum cannot wrap).\<close>

theorem filled_block_within_max_bytes:
  assumes "Fill A H b0 c0 txs maxTxBytes = Inr (b, kept)" and "0 < sint maxTxBytes" and "sint maxTxBytes < 2 ^ 62"
    and "\<forall>tx\<in>set txs. 0 \<le> sint (ComputeProtoSizeForTxs (ce_lib A) tx) \<and> sint (ComputeProtoSizeForTxs (ce_lib A) tx) < 2 ^ 62"
  shows "mset kept \<subseteq># mset txs \<and> (\<Sum>tx\<leftarrow>kept. sint (ComputeProtoSizeForTxs (ce_lib A) tx)) \<le> sint maxTxBytes"
proof
  let ?f = "ComputeProtoSizeForTxs (ce_lib A)"
  let ?txs = "filter_max_bytes ?f maxTxBytes 0 txs"
  have sub: "mset kept \<subseteq># mset ?txs" using fill_kept [OF assms(1)] assms(2) by simp
  then show "mset kept \<subseteq># mset txs" using filter_max_mset by (meson subset_mset.order_trans)
  have "set ?txs \<subseteq> set txs" using filter_max_mset by (metis set_mset_mono set_mset_mset)
  then have "(\<Sum>tx\<leftarrow>kept. sint (?f tx)) \<le> (\<Sum>tx\<leftarrow>?txs. sint (?f tx))"
    using assms(4) by (intro sum_mset_le [OF sub]) (meson subsetD)
  also have "\<dots> \<le> sint maxTxBytes"
    using filter_max_sum [of txs ?f maxTxBytes 0] assms(2-4) by simp
  finally show "(\<Sum>tx\<leftarrow>kept. sint (?f tx)) \<le> sint maxTxBytes" .
qed

end
