(* ===== verification/ProposalRef.thy ===== *)
theory ProposalRef
  imports ProposalAccept
begin

text \<open>
  Reference instances of the contracts of the proposal handlers, and runs of the handlers on them.
\<close>

section \<open>The reference square library has the laws\<close>

definition ref_spec :: "sq_view builder_spec" where
  "ref_spec = \<lparr>bv_View = (\<lambda>v. v), bv_Fits = ref_fits, bv_Square = ref_export\<rparr>"

lemma ref_pick_ns:
  assumes "\<forall>raw\<in>set ns. ref_unmarshal raw = NotBlobTx"
  shows "concat (map (pick_txs \<circ> ClassifiedTx) ns) = ns" "concat (map (pick_blobs \<circ> ClassifiedTx) ns) = []"
  using assms by (induction ns) auto

lemma ref_pick_blobs:
  assumes "map ref_unmarshal raws = map ParsedBlobTx bs"
  shows "concat (map (pick_txs \<circ> ClassifiedTx) raws) = []" "concat (map (pick_blobs \<circ> ClassifiedTx) raws) = bs"
  using assms by (induction raws arbitrary: bs) auto

lemma ref_pick_fibre:
  "concat (map (pick_fibre \<circ> ClassifiedFibreTx) fts) = fts" "concat (map (pick_fibre \<circ> ClassifiedTx) raws) = []"
  "concat (map (pick_txs \<circ> ClassifiedFibreTx) fts) = []" "concat (map (pick_blobs \<circ> ClassifiedFibreTx) fts) = []"
  by (induction fts; induction raws; simp)+

lemma ref_construct_view:
  assumes "\<forall>raw\<in>set ns. ref_unmarshal raw = NotBlobTx" and "map ref_unmarshal raws = map ParsedBlobTx bs"
    and "ref_fits (view_of m t ns bs fts)"
  shows "ref_construct (map ClassifiedTx (ns @ raws) @ map ClassifiedFibreTx fts) m t = ref_export (view_of m t ns bs fts)"
  using assms(3)
  by (simp add: ref_construct_def Let_def ref_pick_ns [OF assms(1)] ref_pick_blobs [OF assms(2)] ref_pick_fibre
      del: concat_eq_Nil_conv Nil_eq_concat_conv)

lemma ref_builder_laws: "builder_laws ref_lib ref_spec"
  unfolding builder_laws_def
proof (intro conjI)
  show "new_laws ref_lib ref_spec"
    by (simp add: new_laws_def ref_lib_def ref_spec_def ref_fits_def)
  show "append_laws ref_lib ref_spec"
    by (simp add: append_laws_def append_law_def ref_lib_def ref_spec_def ref_append_def)
  show "construct_laws ref_lib ref_spec"
    unfolding construct_laws_def
  proof (intro conjI allI impI)
    fix m t b ns raws bs fts
    assume "\<forall>raw\<in>set ns. UnmarshalBlobTx ref_lib raw = NotBlobTx"
      "map (UnmarshalBlobTx ref_lib) raws = map ParsedBlobTx bs" "bv_Fits ref_spec (view_of m t ns bs fts)"
    then show "Construct ref_lib (map ClassifiedTx (ns @ raws) @ map ClassifiedFibreTx fts) m t =
        bv_Square ref_spec (view_of m t ns bs fts)"
      using ref_construct_view [of ns raws bs m t fts] by (simp add: ref_lib_def ref_spec_def)
  qed (auto simp: ref_lib_def split: if_splits)
qed

lemma ref_decode_laws: "decode_laws ref_env"
  by (auto simp: decode_laws_def ref_lib_def ref_decoder_def ref_app_tx_def split: if_splits)

section \<open>A reference ante handler\<close>

text \<open>One account: the fee is deducted first, and the writes stay if the sequence number is wrong.\<close>

record ref_store =
  rs_Balance :: nat
  rs_Seq :: nat
  rs_Blob :: blob_state

definition tx_seq :: "app_tx \<Rightarrow> nat" where
  "tx_seq tx = (case tx_Signatures tx of Some (s # _) \<Rightarrow> unat (sg_Sequence s) | _ \<Rightarrow> 0)"

definition ref_ante :: "(unit, ref_store) app_ctx \<Rightarrow> app_tx \<Rightarrow> (unit, ref_store) app_ctx ante_result" where
  "ref_ante c tx =
     (let s = ac_Store c; fee = nat (AmountOf (tx_Fee tx) ''utia''); paid = s\<lparr>rs_Balance := rs_Balance s - fee\<rparr> in
      if rs_Balance s < fee then AnteRefused c
      else if tx_seq tx \<noteq> rs_Seq s then AnteRefused (c\<lparr>ac_Store := paid\<rparr>)
      else AnteOk (c\<lparr>ac_Store := paid\<lparr>rs_Seq := rs_Seq s + 1\<rparr>\<rparr>))"

definition ref_app :: "(unit, ref_store) app_env" where
  "ref_app = \<lparr>ae_Ante = ref_ante, ae_Router = Some (\<lambda>_. Some (\<lambda>c _. Some c)), ae_Blob = rs_Blob\<rparr>"

definition ref_ctx :: "(unit, ref_store) app_ctx" where
  "ref_ctx = \<lparr>ac_ChainID = ''test'', ac_TxBytes = [], ac_Meter = (),
     ac_Store = \<lparr>rs_Balance = 1000, rs_Seq = 0, rs_Blob = \<lparr>bs_Params = None, bs_Legacy = blob_DefaultParams\<rparr>\<rparr>\<rparr>"

lemma ref_ante_laws: "ante_laws ref_app"
  by (auto simp: ante_laws_def ref_app_def ref_ante_def same_blob_def Let_def split: if_splits)

section \<open>Runs on the reference instance\<close>

lemma ref_app_sel: "ae_Ante ref_app = ref_ante" "ae_Blob ref_app = rs_Blob"
  "ae_Router ref_app = Some (\<lambda>_. Some (\<lambda>c _. Some c))"
  by (simp_all add: ref_app_def)

lemma ref_promise_basic: "PaymentPromise_ValidateBasic ref_hash_sdk (pf_PaymentPromise ref_pff) = Inr ()"
  by (simp add: PaymentPromise_ValidateBasic_def ref_pff_def ref_promise_def ref_hash_sdk_def ref_sdk_def validateBlobVersion_def BlobVersionZero_def
      NamespaceSize_def PubKeySize_def ref_pad_def)

lemma ref_shape: "validatePayForFibreTxShape ref_hash_sdk (ref_app_tx [PayForFibreMsg ref_pff] fee gas n) = Inr ()"
  "validatePayForFibreTxShape ref_hash_sdk (ref_app_tx [OtherMsg x] fee gas n) = Inr ()"
  by (simp_all add: validatePayForFibreTxShape_def ref_app_tx_def ref_promise_basic)

lemma ref_msgs: "tx_Msgs (ref_app_tx msgs fee gas n) = msgs"
  by (simp add: ref_app_tx_def)

lemma ref_canonical: "blobTxIsCanonical ref_lib [9, 7] ref_btx"
  by (simp add: blobTxIsCanonical_def ref_lib_def)

lemma ref_checked:
  "raw \<in> {[1], [3], [8], [9, 7]} \<Longrightarrow> \<exists>st. check_accepted (CheckTx ref_env CheckTxType_New raw st)"
proof -
  assume "raw \<in> {[1], [3], [8], [9, 7]}"
  then consider "raw \<in> {[1], [3], [8]}" | "raw = [9, 7]" by auto
  then show ?thesis
  proof cases
    case 1
    then have "check_accepted (CheckTx ref_env CheckTxType_New raw (NewTxCache, ()))"
      by (auto simp: CheckTx_def MaxTxSize_def MaxSDKMessages_def ref_unmarshal_def ref_decoder_def ref_msgs ref_shape ref_forward)
    then show ?thesis by blast
  next
    case 2
    then show ?thesis using ref_check_blob by (metis check_accepted_iff check_response.select_convs(1))
  qed
qed

lemma ref_ante_run:
  "ref_ante c (ref_app_tx msgs fee gas n) =
     (let s = ac_Store c; paid = s\<lparr>rs_Balance := rs_Balance s - nat fee\<rparr> in
      if rs_Balance s < nat fee then AnteRefused c
      else if unat n \<noteq> rs_Seq s then AnteRefused (c\<lparr>ac_Store := paid\<rparr>)
      else AnteOk (c\<lparr>ac_Store := paid\<lparr>rs_Seq := rs_Seq s + 1\<rparr>\<rparr>))"
proof -
  have "tx_seq (ref_app_tx msgs fee gas n) = unat n"
    "AmountOf (tx_Fee (ref_app_tx msgs fee gas n)) ''utia'' = fee"
    by (simp_all add: tx_seq_def ref_app_tx_def ref_sig_def AmountOf_def)
  then show ?thesis by (simp add: ref_ante_def Let_def)
qed

lemma ref_separate:
  "separateTxs ref_env [[1], [3], [9, 7], [8]] = ([[1], [3]], [ref_btx], [[9, 7]], [[8]])"
  by (simp add: MaxTxSize_def ref_unmarshal_def ref_canonical ref_decoder_def ref_shape ref_msgs countMsgPayForFibre_def)

lemma ref_lib_append:
  "AppendTx ref_lib v tx = ref_append v (v\<lparr>sv_Txs := sv_Txs v @ [tx]\<rparr>)"
  "AppendBlobTx ref_lib v btx = (case ref_append v (v\<lparr>sv_Blobs := sv_Blobs v @ [btx]\<rparr>) of (w, ok) \<Rightarrow> (w, Some ok))"
  "AppendFibreTx ref_lib v ft = (case ref_append v (v\<lparr>sv_Fibre := sv_Fibre v @ [ft]\<rparr>) of (w, ok) \<Rightarrow> (w, Some ok))"
  "RevertLastTx ref_lib v = v\<lparr>sv_Txs := butlast (sv_Txs v)\<rparr>"
  by (simp_all add: ref_lib_def)

lemma ref_fill_normal:
  "fill_normal ref_env ref_app [0, Suc 0]
     \<lparr>fs_Ctx = ref_ctx, fs_Builder = view_of m t [] [] [], fs_Count = 0, fs_Array = [[1], [3]], fs_Next = 0\<rparr> =
   Inr \<lparr>fs_Ctx = ref_ctx\<lparr>ac_TxBytes := [3], ac_Store := (ac_Store ref_ctx)\<lparr>rs_Balance := 999, rs_Seq := 1\<rparr>\<rparr>,
     fs_Builder = view_of m t [[3]] [] [], fs_Count = 1, fs_Array = [[3], [3]], fs_Next = 1\<rparr>"
  by (simp add: fill_normal_tx_def ref_decoder_def ref_msgs MaxSDKMessages_def
      ref_lib_append ref_append_def ref_fits_def ref_app_sel ref_ante_run ref_ctx_def Let_def)

lemma ref_lib_parse:
  "UnmarshalTxBody ref_lib raw = (if raw = [8] then Some [(MsgPayForFibreTypeURL, [])] else Some [])"
  "UnmarshalPayForFibre ref_lib v = Some ref_pff" "DecodeToBase256 ref_lib s = Some (chars_bytes s)"
  "NewV2Blob ref_lib ns ver c sg = Some \<lparr>bl_Namespace = ns, bl_Data = c, bl_ShareVersion = 2, bl_Signer = sg\<rparr>"
  by (simp_all add: ref_lib_def)

lemma ref_parse_fibre:
  "TryParseFibreTx ref_hash_sdk ref_lib [8] = Inr (Some \<lparr>ft_Tx = [8], ft_SystemBlob = \<lparr>bl_Namespace = replicate 29 0,
     bl_Data = replicate 32 7, bl_ShareVersion = 2, bl_Signer = chars_bytes ''xyz''\<rparr>\<rparr>)"
  by (simp add: TryParseFibreTx_def SystemBlob_def ref_unmarshal_def ref_lib_parse ref_pff_def ref_promise_def
      ref_hash_sdk_def ref_sdk_def)

lemma ref_fill:
  "\<exists>b. Fill ref_env ref_app (view_of m t [] [] []) ref_ctx [[1], [3], [9, 7], [8]] 100 =
     Inr (b, [[3], [9, 7], [8]])"
proof -
  have filt: "filter_max_bytes (ComputeProtoSizeForTxs ref_lib) 100 0 [[1], [3], [9, 7], [8]] = [[1], [3], [9, 7], [8]]"
    by (simp add: ref_lib_def Let_def)
  obtain bt where bt: "fill_blobs ref_env ref_app 0 [ref_btx]
     \<lparr>fs_Ctx = ref_ctx\<lparr>ac_TxBytes := [3], ac_Store := (ac_Store ref_ctx)\<lparr>rs_Balance := 999, rs_Seq := 1\<rparr>\<rparr>,
       fs_Builder = view_of m t [[3]] [] [], fs_Count = 0, fs_Array = [[9, 7]], fs_Next = 0\<rparr> = Inr bt"
     "fs_Ctx bt = ref_ctx\<lparr>ac_TxBytes := [7], ac_Store := (ac_Store ref_ctx)\<lparr>rs_Balance := 998, rs_Seq := 2\<rparr>\<rparr>"
     "fs_Builder bt = view_of m t [[3]] [ref_btx] []" "fs_Array bt = [[9, 7]]" "fs_Next bt = 1"
    by (simp add: fill_blob_tx_def ref_decoder_def ref_msgs MaxPFBMessages_def
      ref_lib_append ref_append_def ref_fits_def ref_app_sel ref_ante_run ref_ctx_def Let_def)
  obtain b s where fib: "fill_fibre ref_env ref_app
      (ref_ctx\<lparr>ac_TxBytes := [7], ac_Store := (ac_Store ref_ctx)\<lparr>rs_Balance := 998, rs_Seq := 2\<rparr>\<rparr>) [[8]]
      ((ac_Store ref_ctx)\<lparr>rs_Balance := 998, rs_Seq := 2\<rparr>, view_of m t [[3]] [ref_btx] [], 0, []) = Inr (s, b, 1, [[8]])"
    by (simp add: fill_fibre_tx_def ref_parse_fibre ref_decoder_def ref_msgs MaxPayForFibreMessages_def
      ref_lib_append ref_append_def ref_fits_def ref_app_sel ref_ante_run ref_ctx_def Let_def executeTxMsgs_def)
  have "ac_Store (fs_Ctx bt) = (ac_Store ref_ctx)\<lparr>rs_Balance := 998, rs_Seq := 2\<rparr>" using bt(2) by simp
  then have "Fill ref_env ref_app (view_of m t [] [] []) ref_ctx [[1], [3], [9, 7], [8]] 100 = Inr (b, [[3], [9, 7], [8]])"
    using bt fib
    by (simp add: Fill_def Let_def filt ref_separate ref_fill_normal processFibreTxsForSquare_def
        del: separateTxs.simps filter_max_bytes.simps fill_normal.simps fill_blobs.simps fill_fibre.simps)
  then show ?thesis by blast
qed

lemma ref_clean: "clean_prepare ref_env ref_app ref_ctx [[1], [3], [9, 7], [8]] 100"
proof -
  have filt: "filter_max_bytes (ComputeProtoSizeForTxs ref_lib) 100 0 [[1], [3], [9, 7], [8]] = [[1], [3], [9, 7], [8]]"
    by (simp add: ref_lib_def Let_def)
  have "normal_clean ref_env ref_app [0, Suc 0]
     \<lparr>fs_Ctx = ref_ctx, fs_Builder = view_of m t [] [] [], fs_Count = 0, fs_Array = [[1], [3]], fs_Next = 0\<rparr>" for m t
    by (simp add: fill_normal_tx_def ref_decoder_def ref_msgs MaxSDKMessages_def drops_clean_def same_ctx_def
      ref_lib_append ref_append_def ref_fits_def ref_app_sel ref_ante_run ref_ctx_def Let_def)
  moreover have "blobs_clean ref_env ref_app 0 [ref_btx]
     \<lparr>fs_Ctx = ref_ctx\<lparr>ac_TxBytes := [3], ac_Store := (ac_Store ref_ctx)\<lparr>rs_Balance := 999, rs_Seq := 1\<rparr>\<rparr>,
       fs_Builder = view_of m t [[3]] [] [], fs_Count = 0, fs_Array = [[9, 7]], fs_Next = 0\<rparr>" for m t
    by (simp add: fill_blob_tx_def ref_decoder_def ref_msgs MaxPFBMessages_def drops_clean_def
      ref_lib_append ref_append_def ref_fits_def ref_app_sel ref_ante_run ref_ctx_def Let_def)
  moreover have "NewBuilder ref_lib m t = Some (view_of m t [] [] [])" for m t by (simp add: ref_lib_def)
  ultimately show ?thesis
    by (simp add: clean_prepare_def clean_fill_def Let_def filt ref_separate ref_fill_normal
        del: separateTxs.simps filter_max_bytes.simps fill_normal.simps normal_clean.simps blobs_clean.simps)
qed

lemma ref_prepare:
  "\<exists>req. PrepareProposalHandler ref_env ref_app ref_ctx [[1], [3], [9, 7], [8]] 100 = Inr req \<and>
     pr_Txs req = [[3], [9, 7], [8]]"
proof -
  let ?m = "MaxEffectiveSquareSize (ae_Blob ref_app (ac_Store ref_ctx)) (ac_ChainID ref_ctx)"
  obtain b where b: "Fill ref_env ref_app (view_of ?m SubtreeRootThreshold [] [] []) ref_ctx [[1], [3], [9, 7], [8]] 100 =
     Inr (b, [[3], [9, 7], [8]])" using ref_fill by blast
  have new: "NewBuilder ref_lib ?m SubtreeRootThreshold = Some (view_of ?m SubtreeRootThreshold [] [] [])"
    by (simp add: ref_lib_def)
  obtain sq where sq: "builder_Export ref_lib b = Some sq" "length sq = 1" by (simp add: ref_lib_def ref_export_def)
  then have "ExtendSharesWithTreePool ref_square ref_lib sq = Inr sq" "square_Size ref_lib (length sq) = Some 1"
    by (simp_all add: ExtendSharesWithTreePool_def ref_lib_def ref_square_def)
  moreover obtain dah where "NewDataAvailabilityHeader ref_lib sq = Inr dah"
    by (simp add: NewDataAvailabilityHeader_def ref_lib_def Let_def)
  ultimately show ?thesis
    using b new sq(1) by (simp add: PrepareProposalHandler_def)
qed

theorem prepared_proposal_is_accepted_witness:
  "\<exists>req. PrepareProposalHandler ref_env ref_app ref_ctx [[1], [3], [9, 7], [8]] 100 = Inr req \<and>
     pr_Txs req = [[3], [9, 7], [8]] \<and> ProcessProposalHandler ref_env ref_app NewTxCache ref_ctx req = ACCEPT"
proof -
  obtain req where req: "PrepareProposalHandler ref_env ref_app ref_ctx [[1], [3], [9, 7], [8]] 100 = Inr req"
    "pr_Txs req = [[3], [9, 7], [8]]" using ref_prepare by blast
  have "\<forall>raw\<in>set [[1], [3], [9, 7], [8]]. \<exists>st. check_accepted (CheckTx ref_env CheckTxType_New raw st)"
    using ref_checked by simp
  from prepared_proposal_is_accepted [OF _ ref_decode_laws ref_ante_laws ref_clean this req(1), of ref_spec NewTxCache]
  have "ProcessProposalHandler ref_env ref_app NewTxCache ref_ctx req = ACCEPT"
    using ref_builder_laws by simp
  then show ?thesis using req by blast
qed

theorem filled_block_within_max_bytes_witness:
  "\<exists>b kept. Fill ref_env ref_app (view_of 4 64 [] [] []) ref_ctx [[1], [3], [9, 7], [8]] 100 = Inr (b, kept) \<and>
     length kept = 3 \<and> (\<Sum>tx\<leftarrow>kept. sint (ComputeProtoSizeForTxs ref_lib tx)) \<le> 100"
proof -
  obtain b where b: "Fill ref_env ref_app (view_of 4 64 [] [] []) ref_ctx [[1], [3], [9, 7], [8]] 100 =
     Inr (b, [[3], [9, 7], [8]])" using ref_fill by blast
  have "\<forall>tx\<in>set [[1], [3], [9, 7], [8]]. 0 \<le> sint (ComputeProtoSizeForTxs (ce_lib ref_env) tx) \<and>
      sint (ComputeProtoSizeForTxs (ce_lib ref_env) tx) < 2 ^ 62"
    by (simp add: ref_lib_def)
  from filled_block_within_max_bytes [OF b _ _ this]
  have "(\<Sum>tx\<leftarrow>[[3], [9, 7], [8]]. sint (ComputeProtoSizeForTxs ref_lib tx)) \<le> 100" by simp
  then show ?thesis using b by (metis length_Cons list.size(3) numeral_3_eq_3)
qed

theorem accepted_proposal_is_well_formed_witness:
  "\<exists>req. ProcessProposalHandler ref_env ref_app (cache_Set ref_hash_sdk ref_lib [7] [ref_blob] NewTxCache) ref_ctx req = ACCEPT \<and>
     pr_Txs req = [[3], [9, 7], [8]] \<and> well_formed_tx ref_env [9, 7]"
proof -
  let ?cache = "cache_Set ref_hash_sdk ref_lib [7] [ref_blob] NewTxCache"
  obtain req where req: "PrepareProposalHandler ref_env ref_app ref_ctx [[1], [3], [9, 7], [8]] 100 = Inr req"
    "pr_Txs req = [[3], [9, 7], [8]]" using ref_prepare by blast
  have wf: "well_formed_tx ref_env raw" if "raw \<in> set [[1], [3], [9, 7], [8]]" for raw
    using that ref_checked check_tx_well_formed by fastforce
  have accept: "ProcessProposalHandler ref_env ref_app ?cache ref_ctx req = ACCEPT"
    by (rule prepared_accepted [OF _ ref_decode_laws ref_ante_laws ref_clean wf req(1), where W = ref_spec])
      (simp_all add: ref_builder_laws)
  have "\<forall>raw\<in>set (pr_Txs req). blobs_of ref_env raw \<subseteq> {ref_blob}"
    by (simp add: req(2) blobs_of_def ref_unmarshal_def)
  from accepted_proposal_is_well_formed [OF _ _ ref_cache_reach this accept]
  have "well_formed_tx ref_env [9, 7]" using ref_hash_laws req(2) by simp
  then show ?thesis using accept req(2) by blast
qed

end
