(* ===== verification/Mint.thy ===== *)
theory Mint
  imports MinFee
begin

text \<open>
  x/mint: the minter and its inflation rate, the keeper with its store, the block hook, genesis and queries. The bank and the
  staking keeper are parameters, and so are the decimals.
\<close>

section \<open>The minter\<close>

text \<open>\<open>time.Time.Sub\<close> saturates at the range of a 64-bit duration in nanoseconds.\<close>

definition time_Sub :: "time \<Rightarrow> time \<Rightarrow> int64" where
  "time_Sub t u = i64 (max (- (2 ^ 63)) (min (2 ^ 63 - 1) (t - u)))"

definition SecondsPerYear :: int64 where
  "SecondsPerYear = 31556952"

definition NanosecondsPerYear :: int64 where
  "NanosecondsPerYear = 1000000000 * SecondsPerYear"

definition InitialInflationRateAsDec :: "dec_ops \<Rightarrow> dec" where
  "InitialInflationRateAsDec D = LegacyNewDecWithPrec D 267 4"

definition DisinflationRateAsDec :: "dec_ops \<Rightarrow> dec" where
  "DisinflationRateAsDec D = LegacyNewDecWithPrec D 67 3"

definition TargetInflationRateAsDec :: "dec_ops \<Rightarrow> dec" where
  "TargetInflationRateAsDec D = LegacyNewDecWithPrec D 15 3"

record minter =
  mi_InflationRate :: dec
  mi_AnnualProvisions :: dec
  mi_PreviousBlockTime :: "time option"
  mi_BondDenom :: string

datatype mint_err =
  MintPanic | ErrNegativeInflation | ErrNegativeProvisions | ErrEmptyBondDenom | ErrTimeBeforePrevious | ErrMintCoins |
  ErrSendCoins

definition NewMinter :: "dec \<Rightarrow> dec \<Rightarrow> string \<Rightarrow> minter" where
  "NewMinter inflationRate annualProvisions bondDenom =
     \<lparr>mi_InflationRate = inflationRate, mi_AnnualProvisions = annualProvisions, mi_PreviousBlockTime = None,
      mi_BondDenom = bondDenom\<rparr>"

definition DefaultMinter :: "dec_ops \<Rightarrow> minter" where
  "DefaultMinter D = NewMinter (InitialInflationRateAsDec D) (LegacyNewDec D 0) ''utia''"

definition Minter_Validate :: "minter \<Rightarrow> mint_err + unit" where
  "Minter_Validate m =
     rbind (require (\<not> mi_InflationRate m < 0) ErrNegativeInflation) (\<lambda>_.
     rbind (require (\<not> mi_AnnualProvisions m < 0) ErrNegativeProvisions) (\<lambda>_.
     require (mi_BondDenom m \<noteq> []) ErrEmptyBondDenom))"

text \<open>The divisor is a constant other than zero, so the division cannot panic.\<close>

definition yearsSinceGenesis :: "time \<Rightarrow> time \<Rightarrow> int64" where
  "yearsSinceGenesis genesis current =
     (if current < genesis then 0
      else case i64_div (time_Sub current genesis) NanosecondsPerYear of None \<Rightarrow> 0 | Some years \<Rightarrow> years)"

definition CalculateInflationRate :: "dec_ops \<Rightarrow> ctx \<Rightarrow> time \<Rightarrow> mint_err + dec" where
  "CalculateInflationRate D c genesisTime =
     (let years = yearsSinceGenesis genesisTime (BlockTime c) in
      rbind (of_opt MintPanic (dec_Sub D dec_one (DisinflationRateAsDec D))) (\<lambda>base.
      rbind (of_opt MintPanic (dec_Power D base (unat years))) (\<lambda>factor.
      rbind (of_opt MintPanic (dec_Mul D (InitialInflationRateAsDec D) factor)) (\<lambda>inflationRate.
      Inr (if inflationRate < TargetInflationRateAsDec D then TargetInflationRateAsDec D else inflationRate)))))"

definition CalculateBlockProvision :: "sdk \<Rightarrow> dec_ops \<Rightarrow> minter \<Rightarrow> time \<Rightarrow> time \<Rightarrow> mint_err + coin" where
  "CalculateBlockProvision E D m current previous =
     (if current < previous then Inl ErrTimeBeforePrevious
      else
        let timeElapsed = time_Sub current previous in
        rbind (of_opt MintPanic (dec_Quo D (LegacyNewDec D (sint timeElapsed)) (LegacyNewDec D (sint NanosecondsPerYear))))
          (\<lambda>portionOfYear.
        rbind (of_opt MintPanic (dec_Mul D (mi_AnnualProvisions m) portionOfYear)) (\<lambda>blockProvision.
        of_opt MintPanic (new_coin E (mi_BondDenom m) (dec_TruncateInt D blockProvision)))))"

section \<open>The keeper\<close>

text \<open>
  The store holds the minter and the genesis time, a pointer that may be nil. The keeper calls the bank and the staking
  keeper: \<open>mk_StakingTokenSupply\<close> gives a number (\<open>None\<close> is the nil number the SDK returns beside an error) and the
  error, which the code ignores.
\<close>

record mint_state =
  ms_Minter :: "minter option"
  ms_GenesisTime :: "time option option"

record mint_keeper =
  mk_MintCoins :: "bank \<Rightarrow> string \<Rightarrow> coin list \<Rightarrow> bank option"
  mk_StakingTokenSupply :: "bank \<Rightarrow> int option \<times> bool"
  mk_feeCollectorName :: string

datatype mint_event = EventTypeMint dec dec int

definition mint_ModuleName :: string where
  "mint_ModuleName = ''mint''"

definition GetMinter :: "mint_state \<Rightarrow> mint_err + minter" where
  "GetMinter s = of_opt MintPanic (ms_Minter s)"

definition SetMinter :: "minter \<Rightarrow> mint_state \<Rightarrow> mint_state" where
  "SetMinter m s = s\<lparr>ms_Minter := Some m\<rparr>"

definition GetGenesisTime :: "mint_state \<Rightarrow> mint_err + time option" where
  "GetGenesisTime s = of_opt MintPanic (ms_GenesisTime s)"

definition SetGenesisTime :: "time option \<Rightarrow> mint_state \<Rightarrow> mint_state" where
  "SetGenesisTime gt s = s\<lparr>ms_GenesisTime := Some gt\<rparr>"

definition StakingTokenSupply :: "mint_keeper \<Rightarrow> bank \<Rightarrow> int option" where
  "StakingTokenSupply K b = fst (mk_StakingTokenSupply K b)"

definition MintCoins :: "mint_keeper \<Rightarrow> bank \<Rightarrow> coin list \<Rightarrow> mint_err + bank" where
  "MintCoins K b newCoins =
     (if newCoins = [] then Inr b else of_opt ErrMintCoins (mk_MintCoins K b mint_ModuleName newCoins))"

definition SendCoinsToFeeCollector :: "sdk \<Rightarrow> mint_keeper \<Rightarrow> bank \<Rightarrow> coin list \<Rightarrow> mint_err + bank" where
  "SendCoinsToFeeCollector E K b coins =
     of_opt ErrSendCoins (SendCoinsFromModuleToModule E b mint_ModuleName (mk_feeCollectorName K) coins)"

section \<open>The block hook\<close>

definition maybeUpdateMinter :: "dec_ops \<Rightarrow> mint_keeper \<Rightarrow> ctx \<Rightarrow> bank \<Rightarrow> mint_state \<Rightarrow> mint_err + mint_state" where
  "maybeUpdateMinter D K c b s =
     rbind (GetMinter s) (\<lambda>m.
     rbind (GetGenesisTime s) (\<lambda>gt.
     rbind (of_opt MintPanic gt) (\<lambda>genesisTime.
     rbind (CalculateInflationRate D c genesisTime) (\<lambda>newInflationRate.
     if newInflationRate = mi_InflationRate m \<and> mi_AnnualProvisions m \<noteq> 0 then Inr s
     else
       rbind (of_opt MintPanic (StakingTokenSupply K b)) (\<lambda>totalSupply.
       rbind (of_opt MintPanic (dec_MulInt D newInflationRate totalSupply)) (\<lambda>annualProvisions.
       Inr (SetMinter (m\<lparr>mi_InflationRate := newInflationRate, mi_AnnualProvisions := annualProvisions\<rparr>) s)))))))"

definition mintBlockProvision ::
  "sdk \<Rightarrow> dec_ops \<Rightarrow> mint_keeper \<Rightarrow> ctx \<Rightarrow> mint_state \<Rightarrow> bank \<Rightarrow> mint_err + bank \<times> mint_event list" where
  "mintBlockProvision E D K c s b =
     rbind (GetMinter s) (\<lambda>m.
     case mi_PreviousBlockTime m of
       None \<Rightarrow> Inr (b, [])
     | Some previous \<Rightarrow>
         rbind (CalculateBlockProvision E D m (BlockTime c) previous) (\<lambda>toMintCoin.
         rbind (of_opt MintPanic (new_coins E toMintCoin)) (\<lambda>toMintCoins.
         rbind (MintCoins K b toMintCoins) (\<lambda>b.
         rbind (SendCoinsToFeeCollector E K b toMintCoins) (\<lambda>b.
         Inr (b, [EventTypeMint (mi_InflationRate m) (mi_AnnualProvisions m) (amount toMintCoin)]))))))"

definition setPreviousBlockTime :: "ctx \<Rightarrow> mint_state \<Rightarrow> mint_err + mint_state" where
  "setPreviousBlockTime c s =
     rbind (GetMinter s) (\<lambda>m. Inr (SetMinter (m\<lparr>mi_PreviousBlockTime := Some (BlockTime c)\<rparr>) s))"

definition mint_BeginBlocker ::
  "sdk \<Rightarrow> dec_ops \<Rightarrow> mint_keeper \<Rightarrow> ctx \<Rightarrow> mint_state \<Rightarrow> bank \<Rightarrow> mint_err + mint_state \<times> bank \<times> mint_event list" where
  "mint_BeginBlocker E D K c s b =
     rbind (maybeUpdateMinter D K c b s) (\<lambda>s.
     rbind (mintBlockProvision E D K c s b) (\<lambda>(b, evs).
     rbind (setPreviousBlockTime c s) (\<lambda>s.
     Inr (s, b, evs))))"

section \<open>Genesis and queries\<close>

record mint_genesis =
  mgs_BondDenom :: string

definition mint_NewGenesisState :: "string \<Rightarrow> mint_genesis" where
  "mint_NewGenesisState bondDenom = \<lparr>mgs_BondDenom = bondDenom\<rparr>"

definition mint_DefaultGenesisState :: mint_genesis where
  "mint_DefaultGenesisState = \<lparr>mgs_BondDenom = ''utia''\<rparr>"

definition mint_ValidateGenesis :: "mint_genesis \<Rightarrow> mint_err + unit" where
  "mint_ValidateGenesis g = require (mgs_BondDenom g \<noteq> []) ErrEmptyBondDenom"

definition mint_InitGenesis :: "dec_ops \<Rightarrow> ctx \<Rightarrow> mint_genesis \<Rightarrow> mint_state \<Rightarrow> mint_state" where
  "mint_InitGenesis D c g s =
     (let m = (DefaultMinter D)\<lparr>mi_BondDenom := mgs_BondDenom g\<rparr> in
      SetGenesisTime (Some (BlockTime c)) (SetMinter m s))"

definition mint_ExportGenesis :: "mint_state \<Rightarrow> mint_err + mint_genesis" where
  "mint_ExportGenesis s = rbind (GetMinter s) (\<lambda>m. Inr (mint_NewGenesisState (mi_BondDenom m)))"

definition query_InflationRate :: "mint_state \<Rightarrow> mint_err + dec" where
  "query_InflationRate s = rbind (GetMinter s) (\<lambda>m. Inr (mi_InflationRate m))"

definition query_AnnualProvisions :: "mint_state \<Rightarrow> mint_err + dec" where
  "query_AnnualProvisions s = rbind (GetMinter s) (\<lambda>m. Inr (mi_AnnualProvisions m))"

definition query_GenesisTime :: "mint_state \<Rightarrow> mint_err + time option" where
  "query_GenesisTime s = GetGenesisTime s"

end
