(* ===== verification/MintSchedule.thy ===== *)
theory MintSchedule
  imports Mint
begin

text \<open>
  What x/mint guarantees: the inflation schedule at every block time, and the amount a sequence of blocks mints.
\<close>

section \<open>The inflation schedule\<close>

abbreviation (input) year :: int where
  "year \<equiv> 31556952000000000"

text \<open>The number of whole years between two times, without the limits of a duration.\<close>

definition years_between :: "time \<Rightarrow> time \<Rightarrow> nat" where
  "years_between g t = nat ((t - g) div year)"

lemma year_value [simp]: "sint NanosecondsPerYear = year"
  by (simp add: NanosecondsPerYear_def SecondsPerYear_def)

lemma time_Sub_value:
  assumes "u \<le> t"
  shows "sint (time_Sub t u) = min (2 ^ 63 - 1) (t - u)"
  unfolding time_Sub_def using assms by (subst sint_i64) (auto simp: i64_range_def)

lemma min_div_year:
  fixes d :: int
  assumes "0 \<le> d"
  shows "min (2 ^ 63 - 1) d div year = min 292 (d div year)"
proof (cases "d \<le> 2 ^ 63 - 1")
  case True
  then have "d div year \<le> (2 ^ 63 - 1) div year" by (intro zdiv_mono1) auto
  then show ?thesis using True by simp
next
  case False
  then have "(2 ^ 63 - 1) div year \<le> d div year" by (intro zdiv_mono1) auto
  then show ?thesis using False by simp
qed

lemma years_since_genesis: "unat (yearsSinceGenesis g t) = min 292 (years_between g t)"
proof (cases "t < g")
  case True
  then have "(t - g) div year < 0" by simp
  then show ?thesis using True by (simp add: yearsSinceGenesis_def years_between_def)
next
  case False
  then have sub: "sint (time_Sub t g) = min (2 ^ 63 - 1) (t - g)" by (intro time_Sub_value) simp
  let ?q = "min 292 ((t - g) div year)"
  have q: "sint (time_Sub t g) div sint NanosecondsPerYear = ?q"
    unfolding sub year_value using False by (intro min_div_year) simp
  have "0 \<le> ?q" using False by simp
  have "yearsSinceGenesis g t = i64 ?q"
    using i64_div_nonneg(1) [of "time_Sub t g" NanosecondsPerYear] False
    by (simp add: yearsSinceGenesis_def sub q [unfolded sub year_value, simplified])
  moreover have "unat (i64 ?q) = nat ?q"
    using \<open>0 \<le> ?q\<close> by (simp add: unat_eq_nat_uint uint_word_of_int_eq take_bit_int_eq_self)
  moreover have "nat ?q = min 292 (years_between g t)" unfolding years_between_def by (simp add: min_def) arith
  ultimately show ?thesis by simp
qed

text \<open>An error bound on a power at one scale is one at another scale.\<close>

lemma rescale_power:
  fixes p b u m w e :: int
  assumes near: "\<bar>p * u ^ k - b ^ Suc k\<bar> \<le> e * u ^ k" and scale: "b * m = w * u" and pos: "0 < m" "0 < u"
  shows "\<bar>p * m ^ Suc k - w ^ Suc k * u\<bar> \<le> e * m ^ Suc k"
proof -
  have "b ^ Suc k * m ^ Suc k = w ^ Suc k * u ^ Suc k" by (simp only: scale flip: power_mult_distrib)
  then have "(p * m ^ Suc k - w ^ Suc k * u) * u ^ k = (p * u ^ k - b ^ Suc k) * m ^ Suc k"
    by (simp add: algebra_simps)
  then have "\<bar>p * m ^ Suc k - w ^ Suc k * u\<bar> * u ^ k = \<bar>p * u ^ k - b ^ Suc k\<bar> * m ^ Suc k"
    using pos by (metis abs_mult abs_of_pos zero_less_power)
  also have "\<dots> \<le> e * u ^ k * m ^ Suc k" using near pos by (intro mult_right_mono) simp_all
  also have "\<dots> = e * m ^ Suc k * u ^ k" by (simp only: ac_simps)
  finally show ?thesis using pos by (simp only: mult_le_cancel_right zero_less_power)
qed

lemma power_of_base:
  assumes D: "dec_laws D"
  obtains p where "dec_Power D 933000000000000000 n = Some p" and "0 \<le> p" and "p \<le> dec_one"
    and "\<bar>p * 1000 ^ n - 933 ^ n * dec_one\<bar> \<le> int n * 1000 ^ n"
proof (cases n)
  case 0
  then show ?thesis using that [of dec_one] D by simp
next
  case (Suc k)
  obtain p where p: "dec_Power D 933000000000000000 (Suc k) = Some p" "0 \<le> p" "p \<le> dec_one"
    and near: "\<bar>p * dec_one ^ k - 933000000000000000 ^ Suc k\<bar> \<le> int k * dec_one ^ k"
    by (rule dec_PowerD [OF D, of "933000000000000000" k]) simp_all
  have "\<bar>p * 1000 ^ Suc k - 933 ^ Suc k * dec_one\<bar> \<le> int k * 1000 ^ Suc k"
    by (rule rescale_power [OF near]) simp_all
  also have "\<dots> \<le> int (Suc k) * 1000 ^ Suc k" by (intro mult_right_mono) simp_all
  finally show ?thesis unfolding Suc using that [unfolded Suc, OF p] by blast
qed

definition scheduled :: "nat \<Rightarrow> dec \<Rightarrow> bool" where
  "scheduled y r \<longleftrightarrow>
     (if y \<le> 8 then \<bar>r * 1000 ^ y - 26700000000000000 * 933 ^ y\<bar> \<le> 1000 ^ y else r = 15000000000000000)"

lemma early_rate:
  fixes p r :: int
  assumes n: "n \<le> 8" and p: "\<bar>p * 1000 ^ n - 933 ^ n * dec_one\<bar> \<le> int n * 1000 ^ n"
    and r: "2 * \<bar>r * dec_one - 26700000000000000 * p\<bar> \<le> dec_one"
  shows "\<bar>r * 1000 ^ n - 26700000000000000 * 933 ^ n\<bar> \<le> 1000 ^ n"
proof -
  let ?m = "1000 ^ n :: int" and ?e = "26700000000000000 * (p * 1000 ^ n - 933 ^ n * dec_one) :: int"
  have "\<bar>?e\<bar> \<le> 26700000000000000 * (int n * ?m)" using p by (simp add: abs_mult)
  also have "\<dots> \<le> 26700000000000000 * (8 * ?m)" using n by simp
  finally have e: "\<bar>?e\<bar> \<le> 213600000000000000 * ?m" by simp
  have "2 * \<bar>(r * dec_one - 26700000000000000 * p) * ?m\<bar> \<le> dec_one * ?m"
    using mult_right_mono [OF r, of ?m] by (simp add: abs_mult)
  moreover have "(r * ?m - 26700000000000000 * 933 ^ n) * dec_one = (r * dec_one - 26700000000000000 * p) * ?m + ?e"
    by (simp add: algebra_simps)
  ultimately have "\<bar>(r * ?m - 26700000000000000 * 933 ^ n) * dec_one\<bar> \<le> dec_one * ?m"
    using e by linarith
  then show ?thesis by (simp add: abs_mult)
qed

lemma early_rate_above_target:
  fixes r :: int
  assumes "n \<le> 8" and "\<bar>r * 1000 ^ n - 26700000000000000 * 933 ^ n\<bar> \<le> 1000 ^ n"
  shows "15000000000000000 \<le> r"
proof -
  have "n \<in> {0, 1, 2, 3, 4, 5, 6, 7, 8}" using assms(1) by auto
  then show ?thesis using assms(2) by auto
qed

lemma power_ratio:
  fixes a b :: int
  assumes "0 \<le> a" and "a \<le> b" and "k \<le> n"
  shows "a ^ n * b ^ k \<le> a ^ k * b ^ n"
proof -
  have "a ^ n * b ^ k = a ^ k * b ^ k * a ^ (n - k)" using assms(3) by (simp flip: power_add)
  also have "\<dots> \<le> a ^ k * b ^ k * b ^ (n - k)" using assms by (intro mult_left_mono power_mono) simp_all
  also have "\<dots> = a ^ k * b ^ n" using assms(3) by (simp add: mult.assoc flip: power_add)
  finally show ?thesis .
qed

lemma late_rate:
  fixes p r :: int
  assumes n: "9 \<le> n" "n \<le> 292" and p: "\<bar>p * 1000 ^ n - 933 ^ n * dec_one\<bar> \<le> int n * 1000 ^ n"
    and r: "2 * \<bar>r * dec_one - 26700000000000000 * p\<bar> \<le> dec_one"
  shows "r < 15000000000000000"
proof -
  define m P where "m = (1000 :: int) ^ n" and "P = (933 :: int) ^ n"
  have m: "0 < m" by (simp add: m_def)
  have "P * 1000000000000000000000000000 \<le> 535716217428404967985474053 * m"
    using power_ratio [of 933 1000 9 n] n(1) by (simp add: m_def P_def)
  moreover have "int n * m \<le> 292 * m" using n(2) m by (intro mult_right_mono) simp_all
  then have "p * m \<le> P * dec_one + 292 * m" using p unfolding m_def [symmetric] P_def [symmetric] by linarith
  ultimately have "p * m < 536000000000000000 * m" using m by linarith
  then have "p < 536000000000000000" using m by simp
  then have "26700000000000000 * p < 26700000000000000 * 536000000000000000" by simp
  moreover have "2 * (r * dec_one - 26700000000000000 * p) \<le> dec_one" using r by (simp add: abs_if split: if_splits)
  ultimately have "r * dec_one < 15000000000000000 * dec_one" by simp
  then show ?thesis by (simp only: mult_less_cancel_right_pos zero_less_numeral)
qed

lemma inflation_rate:
  assumes D: "dec_laws D"
  obtains r where "CalculateInflationRate D c g = Inr r" and "scheduled (years_between g (BlockTime c)) r"
proof -
  let ?y = "years_between g (BlockTime c)"
  let ?n = "min 292 ?y"
  obtain p where p: "dec_Power D 933000000000000000 ?n = Some p" "0 \<le> p" "p \<le> dec_one"
    and near: "\<bar>p * 1000 ^ ?n - 933 ^ ?n * dec_one\<bar> \<le> int ?n * 1000 ^ ?n"
    by (rule power_of_base [OF D])
  have "dec_fits (26700000000000000 * p)" using p by (simp add: dec_fits_def)
  then obtain r where r: "dec_Mul D 26700000000000000 p = Some r"
    and rn: "2 * \<bar>r * dec_one - 26700000000000000 * p\<bar> \<le> dec_one"
    by (rule dec_MulD [OF D])
  have run: "CalculateInflationRate D c g = Inr (if r < 15000000000000000 then 15000000000000000 else r)"
    using D p(1) r
    by (simp add: CalculateInflationRate_def years_since_genesis DisinflationRateAsDec_def InitialInflationRateAsDec_def
        TargetInflationRateAsDec_def dec_fits_def Let_def)
  show ?thesis
  proof (cases "?y \<le> 8")
    case True
    then have "\<bar>r * 1000 ^ ?y - 26700000000000000 * 933 ^ ?y\<bar> \<le> 1000 ^ ?y"
      using early_rate [OF _ _ rn, of ?y] near by simp
    with True early_rate_above_target [of ?y r] show ?thesis
      using that [of r] run by (simp add: scheduled_def)
  next
    case False
    then have "r < 15000000000000000" using late_rate [OF _ _ near rn] by simp
    with False show ?thesis using that [of "15000000000000000"] run by (simp add: scheduled_def)
  qed
qed

lemma scheduled_bounds: "scheduled y r \<Longrightarrow> 15000000000000000 \<le> r"
  using early_rate_above_target [of y r] by (simp add: scheduled_def split: if_splits)

lemma scheduled_antimono:
  assumes "scheduled y r" and "scheduled y' r'" and "y < y'"
  shows "r' \<le> r"
proof (cases "y' \<le> 8")
  case False
  then show ?thesis using scheduled_bounds [OF assms(1)] assms(2) by (simp add: scheduled_def)
next
  case True
  then have "y' \<in> {1, 2, 3, 4, 5, 6, 7, 8}" using assms(3) by auto
  moreover have "y \<in> {0, 1, 2, 3, 4, 5, 6, 7}" using assms(3) True by auto
  ultimately show ?thesis using assms unfolding scheduled_def by (elim insertE emptyE) simp_all
qed

lemma rate_of_years:
  "min 292 (years_between g (BlockTime c)) = min 292 (years_between g (BlockTime c')) \<Longrightarrow>
    CalculateInflationRate D c g = CalculateInflationRate D c' g"
  by (simp add: CalculateInflationRate_def years_since_genesis Let_def)

text \<open>C37: The inflation rate follows its schedule for every block time: it never fails to compute, is the initial 2.67% reduced
  by 6.7% for every whole year since genesis, exact to one unit of ten to the minus eighteen, until the ninth year,
  is exactly the target of 1.5% from then on, and never rises from one block to a later one.\<close>

theorem inflation_follows_schedule:
  assumes "dec_laws D"
  shows "\<exists>r. CalculateInflationRate D c g = Inr r \<and>
    (if years_between g (BlockTime c) \<le> 8
     then \<bar>r * 1000 ^ years_between g (BlockTime c) - 26700000000000000 * 933 ^ years_between g (BlockTime c)\<bar>
       \<le> 1000 ^ years_between g (BlockTime c)
     else r = 15000000000000000) \<and>
    (\<forall>c' r'. BlockTime c \<le> BlockTime c' \<longrightarrow> CalculateInflationRate D c' g = Inr r' \<longrightarrow> r' \<le> r)"
proof -
  obtain r where r: "CalculateInflationRate D c g = Inr r" "scheduled (years_between g (BlockTime c)) r"
    by (rule inflation_rate [OF assms])
  have "r' \<le> r" if later: "BlockTime c \<le> BlockTime c'" and r': "CalculateInflationRate D c' g = Inr r'" for c' :: ctx and r'
  proof -
    have "scheduled (years_between g (BlockTime c')) r'" using r' inflation_rate [OF assms, of c' g] by force
    moreover have "years_between g (BlockTime c) \<le> years_between g (BlockTime c')"
      unfolding years_between_def using later by (intro nat_mono zdiv_mono1) simp_all
    ultimately show ?thesis using scheduled_antimono [OF r(2)] rate_of_years [of g c c' D] r(1) r'
      by (cases "years_between g (BlockTime c) = years_between g (BlockTime c')") auto
  qed
  then show ?thesis using r by (auto simp: scheduled_def)
qed

definition ref_time :: "time \<Rightarrow> ctx" where
  "ref_time t = \<lparr>ChainID = ''celestia'', BlockTime = t, BlockHeight = 7\<rparr>"

text \<open>In the second year the rate is 2.324%, and a century later 1.5%.\<close>

theorem inflation_follows_schedule_witness:
  "(\<exists>r. CalculateInflationRate ref_dec (ref_time (2 * year + 5)) 3 = Inr r \<and> \<bar>r - 23242056300000000\<bar> \<le> 1) \<and>
   CalculateInflationRate ref_dec (ref_time (102 * year)) 3 = Inr 15000000000000000"
proof
  have y: "years_between 3 (BlockTime (ref_time (2 * year + 5))) = 2" "years_between 3 (BlockTime (ref_time (102 * year))) = 101"
    by (simp_all add: ref_time_def years_between_def)
  obtain r where r: "CalculateInflationRate ref_dec (ref_time (2 * year + 5)) 3 = Inr r"
    and near: "\<bar>r * 1000 ^ 2 - 26700000000000000 * 933 ^ 2\<bar> \<le> (1000 :: int) ^ 2"
    using inflation_follows_schedule [OF ref_dec_laws, of "ref_time (2 * year + 5)" 3] unfolding y by auto
  have "\<bar>r - 23242056300000000\<bar> \<le> 1" using near by (simp add: abs_if split: if_splits)
  with r show "\<exists>r. CalculateInflationRate ref_dec (ref_time (2 * year + 5)) 3 = Inr r \<and> \<bar>r - 23242056300000000\<bar> \<le> 1" by blast
  show "CalculateInflationRate ref_dec (ref_time (102 * year)) 3 = Inr 15000000000000000"
    using inflation_follows_schedule [OF ref_dec_laws, of "ref_time (102 * year)" 3] unfolding y by auto
qed

section \<open>What a year of blocks mints\<close>

text \<open>
  The bank keeper mints for the module account of x/mint, which has the permission to, exactly the coins it is asked
  for.
\<close>

definition mint_laws :: "mint_keeper \<Rightarrow> bool" where
  "mint_laws K \<longleftrightarrow> mk_feeCollectorName K \<noteq> mint_ModuleName \<and>
     (\<forall>b cs. mk_MintCoins K b mint_ModuleName cs =
        Some (\<lambda>a d. b a d + (if a = ModAcct mint_ModuleName then coins_of cs d else 0)))"

text \<open>Blocks, each with its time and the balances it finds, and how much they add to the fee collector.\<close>

fun mint_blocks ::
  "sdk \<Rightarrow> dec_ops \<Rightarrow> mint_keeper \<Rightarrow> string \<Rightarrow> (ctx \<times> bank) list \<Rightarrow> mint_state \<Rightarrow> mint_err + mint_state \<times> int" where
  "mint_blocks E D K d [] s = Inr (s, 0)"
| "mint_blocks E D K d ((c, b) # bs) s =
     rbind (mint_BeginBlocker E D K c s b) (\<lambda>(s, b', _).
     rbind (mint_blocks E D K d bs s) (\<lambda>(s, n).
     Inr (s, (b' (ModAcct (mk_feeCollectorName K)) d - b (ModAcct (mk_feeCollectorName K)) d) + n)))"

definition near_provision :: "dec \<Rightarrow> int \<Rightarrow> nat \<Rightarrow> int \<Rightarrow> bool" where
  "near_provision a t k n \<longleftrightarrow>
     1000 * (a * t) - 1001 * int k * (year * dec_one) \<le> 1000 * (n * (year * dec_one)) \<and>
     1000 * (n * (year * dec_one)) \<le> 1000 * (a * t) + int k * (year * dec_one)"

lemma near_provision_Nil [simp]: "near_provision a 0 0 0"
  by (simp add: near_provision_def)

lemma near_provision_add:
  assumes "near_provision a t k n" and "near_provision a t' k' n'"
  shows "near_provision a (t + t') (k + k') (n + n')"
  using assms unfolding near_provision_def by (simp add: algebra_simps)

lemma provision_arith:
  fixes a p q n t Y u :: int
  assumes p: "2 * \<bar>p * Y - t * u\<bar> \<le> Y" and q: "2 * \<bar>q * u - a * p\<bar> \<le> u"
    and n: "n * u \<le> q" "q < n * u + u" and a: "0 \<le> a" "a \<le> e * u" and Y: "0 < Y" and u: "0 < u"
  shows "2 * (n * (Y * u)) \<le> 2 * (a * t) + (e + 1) * Y" and "2 * (a * t) \<le> 2 * ((n + 1) * (Y * u)) + (e + 1) * Y"
proof -
  have p1: "2 * (a * (p * Y)) \<le> 2 * (a * (t * u)) + a * Y" and p2: "2 * (a * (t * u)) \<le> 2 * (a * (p * Y)) + a * Y"
    using mult_left_mono [of "2 * (p * Y - t * u)" Y a] mult_left_mono [of "2 * (t * u - p * Y)" Y a] p a(1)
    by (simp_all add: abs_if algebra_simps split: if_splits)
  have q1: "2 * (q * u * Y) \<le> 2 * (a * p * Y) + u * Y" and q2: "2 * (a * p * Y) \<le> 2 * (q * u * Y) + u * Y"
    using mult_right_mono [of "2 * (q * u - a * p)" u Y] mult_right_mono [of "2 * (a * p - q * u)" u Y] q Y
    by (simp_all add: abs_if algebra_simps split: if_splits)
  have n1: "n * u * (u * Y) \<le> q * (u * Y)" and n2: "q * (u * Y) \<le> (n * u + u) * (u * Y)"
    using n Y u by (intro mult_right_mono; simp)+
  have aY: "a * Y \<le> e * u * Y" using a Y by (intro mult_right_mono) simp_all
  have "(2 * (n * (Y * u))) * u \<le> (2 * (a * t) + (e + 1) * Y) * u"
    using p1 q1 n1 aY by (simp add: algebra_simps)
  then show "2 * (n * (Y * u)) \<le> 2 * (a * t) + (e + 1) * Y" using u by (simp only: mult_le_cancel_right)
  have "(2 * (a * t)) * u \<le> (2 * ((n + 1) * (Y * u)) + (e + 1) * Y) * u"
    using p2 q2 n2 aY by (simp add: algebra_simps)
  then show "2 * (a * t) \<le> 2 * ((n + 1) * (Y * u)) + (e + 1) * Y" using u by (simp only: mult_le_cancel_right)
qed

lemma block_provision:
  assumes D: "dec_laws D" and E: "coin_laws E" and d: "valid_denom E (mi_BondDenom m)"
    and a: "0 \<le> mi_AnnualProvisions m" "mi_AnnualProvisions m \<le> 10 ^ 33" and t: "u \<le> t" "t - u < 2 ^ 63"
  obtains n where "CalculateBlockProvision E D m t u = Inr \<lparr>denom = mi_BondDenom m, amount = n\<rparr>" and "0 \<le> n"
    and "near_provision (mi_AnnualProvisions m) (t - u) 1 n"
proof -
  let ?a = "mi_AnnualProvisions m"
  have sub: "sint (time_Sub t u) = t - u" using time_Sub_value [OF t(1)] t by simp
  have nz: "year * dec_one \<noteq> 0" by simp
  have "dec_fits ((t - u) * dec_one * dec_one)" using t by (simp add: dec_fits_def)
  then obtain p where p: "dec_Quo D ((t - u) * dec_one) (year * dec_one) = Some p"
    and p': "2 * \<bar>p * (year * dec_one) - (t - u) * dec_one * dec_one\<bar> \<le> \<bar>year * dec_one\<bar>"
    by (rule dec_QuoD [OF D nz])
  have pn: "2 * \<bar>p * year - (t - u) * dec_one\<bar> \<le> year"
    using p' by (simp add: abs_if split: if_splits)
  have p0: "0 \<le> p" and pu: "p \<le> 293000000000000000000" using pn t by (simp_all add: abs_if split: if_splits)
  have "?a * p \<le> 10 ^ 33 * 293000000000000000000" using a p0 pu by (intro mult_mono) simp_all
  then have "dec_fits (?a * p)" using a p0 by (simp add: dec_fits_def)
  then obtain q where q: "dec_Mul D ?a p = Some q" and qn: "2 * \<bar>q * dec_one - ?a * p\<bar> \<le> dec_one"
    by (rule dec_MulD [OF D])
  have "0 \<le> ?a * p" using a p0 by simp
  then have q0: "0 \<le> q" using qn by (simp add: abs_if split: if_splits)
  let ?n = "q div dec_one"
  have n: "?n * dec_one \<le> q" "q < ?n * dec_one + dec_one" by simp_all
  have "?a \<le> 1000000000000000 * dec_one" using a by simp
  from provision_arith [OF pn qn n a(1) this]
  have "near_provision ?a (t - u) 1 ?n" by (simp add: near_provision_def algebra_simps)
  moreover have "CalculateBlockProvision E D m t u = Inr \<lparr>denom = mi_BondDenom m, amount = ?n\<rparr>"
    using D E d t p q q0
    by (simp add: CalculateBlockProvision_def sub Let_def quot_nonneg)
  ultimately show ?thesis using that q0 by simp
qed

lemma mint_and_send:
  assumes E: "coin_laws E" "bank_laws E" and K: "mint_laws K" and d: "valid_denom E d" and n: "0 \<le> n"
    and b: "0 \<le> b (ModAcct mint_ModuleName) d"
  shows "rbind (of_opt MintPanic (new_coins E \<lparr>denom = d, amount = n\<rparr>)) (\<lambda>cs.
      rbind (MintCoins K b cs) (\<lambda>b. rbind (SendCoinsToFeeCollector E K b cs) (\<lambda>b. Inr (b, ev)))) =
    Inr (\<lambda>a e. b a e + (if a = ModAcct (mk_feeCollectorName K) \<and> e = d then n else 0), ev)"
proof (cases "n = 0")
  case True
  then show ?thesis using E d
    by (simp add: MintCoins_def SendCoinsToFeeCollector_def covers_def move_coins_def coins_of_def fun_eq_iff)
next
  case False
  then show ?thesis using E d n K b
    by (auto simp: MintCoins_def SendCoinsToFeeCollector_def covers_def move_coins_def coins_of_def mint_laws_def fun_eq_iff)
qed

text \<open>A minter whose rate is the one of the current year.\<close>

definition minting :: "sdk \<Rightarrow> mint_state \<Rightarrow> time \<Rightarrow> dec \<Rightarrow> dec \<Rightarrow> time \<Rightarrow> string \<Rightarrow> bool" where
  "minting E s g r a t d \<longleftrightarrow>
     ms_Minter s = Some \<lparr>mi_InflationRate = r, mi_AnnualProvisions = a, mi_PreviousBlockTime = Some t, mi_BondDenom = d\<rparr> \<and>
     ms_GenesisTime s = Some (Some g) \<and> valid_denom E d"

lemma begin_block_same_year:
  assumes laws: "dec_laws D" "coin_laws E" "bank_laws E" "mint_laws K" and s: "minting E s g r a t d"
    and rate: "CalculateInflationRate D c g = Inr r" and a: "0 < a" "a \<le> 10 ^ 33"
    and t: "t \<le> BlockTime c" "BlockTime c - t < 2 ^ 63" and b: "0 \<le> b (ModAcct mint_ModuleName) d"
  obtains s' n ev where
    "mint_BeginBlocker E D K c s b =
       Inr (s', (\<lambda>x e. b x e + (if x = ModAcct (mk_feeCollectorName K) \<and> e = d then n else 0)), ev)"
    and "minting E s' g r a (BlockTime c) d" and "near_provision a (BlockTime c - t) 1 n"
proof -
  let ?m = "\<lparr>mi_InflationRate = r, mi_AnnualProvisions = a, mi_PreviousBlockTime = Some t, mi_BondDenom = d\<rparr>"
  have d: "valid_denom E d" using s by (simp add: minting_def)
  obtain n where n: "CalculateBlockProvision E D ?m (BlockTime c) t = Inr \<lparr>denom = d, amount = n\<rparr>" "0 \<le> n"
    and near: "near_provision a (BlockTime c - t) 1 n"
    using block_provision [OF laws(1,2), of ?m t "BlockTime c"] d a t by auto
  have "maybeUpdateMinter D K c b s = Inr s"
    using s rate a by (simp add: maybeUpdateMinter_def GetMinter_def GetGenesisTime_def minting_def)
  moreover have "mintBlockProvision E D K c s b =
      Inr (\<lambda>x e. b x e + (if x = ModAcct (mk_feeCollectorName K) \<and> e = d then n else 0), [EventTypeMint r a n])"
    using s n mint_and_send [OF laws(2-4) d n(2), of b] b by (simp add: mintBlockProvision_def GetMinter_def minting_def)
  ultimately have "mint_BeginBlocker E D K c s b =
      Inr (s\<lparr>ms_Minter := Some (?m\<lparr>mi_PreviousBlockTime := Some (BlockTime c)\<rparr>)\<rparr>,
        (\<lambda>x e. b x e + (if x = ModAcct (mk_feeCollectorName K) \<and> e = d then n else 0)), [EventTypeMint r a n])"
    using s by (simp add: mint_BeginBlocker_def setPreviousBlockTime_def GetMinter_def SetMinter_def minting_def)
  from that [OF this _ near] show ?thesis using s by (simp add: minting_def)
qed

definition block_times :: "(ctx \<times> bank) list \<Rightarrow> time list" where
  "block_times bs = map (\<lambda>(c, b). BlockTime c) bs"

lemma block_times_simps [simp]: "block_times [] = []" "block_times ((c, b) # bs) = BlockTime c # block_times bs"
  by (simp_all add: block_times_def)

lemma year_of_blocks:
  assumes laws: "dec_laws D" "coin_laws E" "bank_laws E" "mint_laws K" and a: "0 < a" "a \<le> 10 ^ 33"
  shows "minting E s g r a t d \<Longrightarrow> \<forall>(c, b)\<in>set bs. CalculateInflationRate D c g = Inr r \<and> 0 \<le> b (ModAcct mint_ModuleName) d \<Longrightarrow>
    sorted (t # block_times bs) \<Longrightarrow> last (t # block_times bs) - t < 2 ^ 63 \<Longrightarrow>
    \<exists>s' n. mint_blocks E D K d bs s = Inr (s', n) \<and> minting E s' g r a (last (t # block_times bs)) d \<and>
      near_provision a (last (t # block_times bs) - t) (length bs) n"
proof (induction bs arbitrary: s t)
  case Nil
  then show ?case by simp
next
  case (Cons cb bs)
  obtain c b where cb: "cb = (c, b)" by (cases cb)
  let ?u = "BlockTime c" and ?last = "last (BlockTime c # block_times bs)"
  have rate: "CalculateInflationRate D c g = Inr r" and b: "0 \<le> b (ModAcct mint_ModuleName) d"
    using Cons.prems(2) by (auto simp: cb)
  have le: "t \<le> ?u" and srt: "sorted (?u # block_times bs)" using Cons.prems(3) by (simp_all add: cb)
  have ul: "?u \<le> ?last" using srt by (simp add: last_in_set)
  have total: "?last - t < 2 ^ 63" using Cons.prems(4) by (simp add: cb)
  have short: "?u - t < 2 ^ 63" "?last - ?u < 2 ^ 63" using le ul total by linarith+
  obtain s' n ev where step: "mint_BeginBlocker E D K c s b =
       Inr (s', (\<lambda>x e. b x e + (if x = ModAcct (mk_feeCollectorName K) \<and> e = d then n else 0)), ev)"
    and s': "minting E s' g r a ?u d" and near: "near_provision a (?u - t) 1 n"
    by (rule begin_block_same_year [where b = b, OF laws Cons.prems(1) rate a le short(1) b])
  obtain s'' n' where rest: "mint_blocks E D K d bs s' = Inr (s'', n')" "minting E s'' g r a ?last d"
    and near': "near_provision a (?last - ?u) (length bs) n'"
    using Cons.IH [OF s' _ srt short(2)] Cons.prems(2) by auto
  have "near_provision a (?last - t) (length (cb # bs)) (n + n')"
    using near_provision_add [OF near near'] by simp
  then show ?case using step rest by (simp add: cb)
qed

text \<open>C38: Within a year the block hook mints what the annual provisions promise: any sequence of blocks with the rate of one
  year and times that never decrease is processed without an error, whatever the balances in between, and the fee
  collector receives the annual provisions times the elapsed part of the year, up to 1.001 units less and 0.001 units
  more per block.\<close>

theorem year_of_blocks_mints_provisions:
  assumes "dec_laws D" "coin_laws E" "bank_laws E" "mint_laws K" and "0 < a" and "a \<le> 10 ^ 33"
    and "minting E s g r a t d"
    and "\<forall>(c, b)\<in>set bs. CalculateInflationRate D c g = Inr r \<and> 0 \<le> b (ModAcct mint_ModuleName) d"
    and "sorted (t # block_times bs)" and "last (t # block_times bs) - t < 2 ^ 63"
  shows "\<exists>s' n. mint_blocks E D K d bs s = Inr (s', n) \<and>
    1000 * (a * (last (t # block_times bs) - t)) - 1001 * int (length bs) * (year * dec_one) \<le> 1000 * (n * (year * dec_one)) \<and>
    1000 * (n * (year * dec_one)) \<le> 1000 * (a * (last (t # block_times bs) - t)) + int (length bs) * (year * dec_one)"
  using year_of_blocks [OF assms(1-7) assms(8-10)] unfolding near_provision_def by blast

definition ref_keeper :: mint_keeper where
  "ref_keeper = \<lparr>
     mk_MintCoins = (\<lambda>b m cs. Some (\<lambda>a d. b a d + (if a = ModAcct m then coins_of cs d else 0))),
     mk_StakingTokenSupply = (\<lambda>b. (Some 1000000000000, False)),
     mk_feeCollectorName = ''fee_collector''\<rparr>"

definition ref_minting :: mint_state where
  "ref_minting = \<lparr>ms_Minter = Some \<lparr>mi_InflationRate = 26700000000000000, mi_AnnualProvisions = 26700000000000000000000000000,
       mi_PreviousBlockTime = Some 0, mi_BondDenom = ''utia''\<rparr>, ms_GenesisTime = Some (Some 0)\<rparr>"

lemma ref_mint_laws: "mint_laws ref_keeper"
  by (simp add: mint_laws_def ref_keeper_def mint_ModuleName_def)

lemma ref_rate:
  assumes "years_between 0 t = 0"
  shows "CalculateInflationRate ref_dec (ref_time t) 0 = Inr 26700000000000000"
  using assms
  by (simp add: CalculateInflationRate_def years_since_genesis DisinflationRateAsDec_def InitialInflationRateAsDec_def
      TargetInflationRateAsDec_def ref_time_def ref_dec_def ref_round_def Let_def)

text \<open>Two blocks in the first year, half a year apart.\<close>

definition ref_blocks :: "(ctx \<times> bank) list" where
  "ref_blocks = [(ref_time 6000000000, \<lambda>_ _. 0), (ref_time 15778476000000000, \<lambda>_ _. 500)]"

theorem year_of_blocks_mints_provisions_witness:
  "\<exists>s' n. mint_blocks ref_sdk ref_dec ref_keeper ''utia'' ref_blocks ref_minting = Inr (s', n) \<and>
     13349999997 \<le> n \<and> n \<le> 13350000000"
proof -
  have start: "minting ref_sdk ref_minting 0 26700000000000000 26700000000000000000000000000 0 ''utia''"
    using ref_sdk_coin by (simp add: minting_def ref_minting_def)
  have blocks: "\<forall>(c, b)\<in>set ref_blocks. CalculateInflationRate ref_dec c 0 = Inr 26700000000000000 \<and>
      0 \<le> b (ModAcct mint_ModuleName) ''utia''"
    by (simp add: ref_blocks_def ref_rate years_between_def)
  have times: "block_times ref_blocks = [6000000000, 15778476000000000]" "length ref_blocks = 2"
    by (simp_all add: ref_blocks_def ref_time_def)
  obtain s' n where run: "mint_blocks ref_sdk ref_dec ref_keeper ''utia'' ref_blocks ref_minting = Inr (s', n)"
    and "1000 * (26700000000000000000000000000 * (15778476000000000 - 0)) - 1001 * int 2 * (year * dec_one)
        \<le> 1000 * (n * (year * dec_one))"
    and "1000 * (n * (year * dec_one)) \<le> 1000 * (26700000000000000000000000000 * (15778476000000000 - 0)) + int 2 * (year * dec_one)"
    using year_of_blocks_mints_provisions [OF ref_dec_laws ref_sdk_coin ref_sdk_bank ref_mint_laws _ _ start blocks]
    by (auto simp: times)
  then have "13349999997 \<le> n" "n \<le> 13350000000" by simp_all
  with run show ?thesis by blast
qed

end
