(* ===== verification/Merkle.thy ===== *)
theory Merkle
  imports Prelude
begin

text \<open>
  The Merkle trees of the fibre row commitments (pkg/rsema1d/merkle): trees in a flat buffer built by parallel loops, roots
  computed in place, proofs, and the check of batches of proofs. SHA-256 is a parameter. Buffer sizes are natural numbers;
  Go's int holds every size that fits in memory.
\<close>

unbundle bit_operations_syntax

section \<open>Hashes and buffers\<close>

text \<open>A panic is \<open>None\<close>, or the error \<open>MerklePanic\<close> where the function also returns errors.\<close>

datatype merkle_err = MerklePanic | ErrIndexOutOfRange | ErrSiblingSize | ErrNoProofInputs | ErrRootMismatch

type_synonym hasher = "bytes \<Rightarrow> bytes"

definition NodeSize :: nat where
  "NodeSize = 32"

definition hashLeaf :: "hasher \<Rightarrow> bytes \<Rightarrow> bytes" where
  "hashLeaf H data = H (0 # data)"

definition hashPair :: "hasher \<Rightarrow> bytes \<Rightarrow> bytes \<Rightarrow> bytes" where
  "hashPair H left right = H (1 # left @ right)"

text \<open>Node \<open>i\<close> is the window of \<open>NodeSize\<close> bytes at \<open>i * NodeSize\<close>; a hash is written over its window.\<close>

definition node :: "bytes \<Rightarrow> nat \<Rightarrow> bytes" where
  "node nodes i = take NodeSize (drop (i * NodeSize) nodes)"

definition put_node :: "nat \<Rightarrow> bytes \<Rightarrow> bytes \<Rightarrow> bytes" where
  "put_node i v nodes = take (i * NodeSize) nodes @ take NodeSize v @ drop (i * NodeSize + NodeSize) nodes"

definition nodeCount :: "bytes \<Rightarrow> nat option" where
  "nodeCount buf = (if length buf = 0 \<or> length buf mod NodeSize \<noteq> 0 then None else Some (length buf div NodeSize))"

definition requirePow2 :: "nat \<Rightarrow> bool" where
  "requirePow2 leaves \<longleftrightarrow> leaves \<noteq> 0 \<and> leaves AND (leaves - 1) = 0"

definition treeNodeCount :: "nat \<Rightarrow> nat" where
  "treeNodeCount leaves = (if leaves = 0 then 0 else 2 * leaves - 1)"

definition TreeBufferSize :: "nat \<Rightarrow> nat" where
  "TreeBufferSize leaves = treeNodeCount leaves * NodeSize"

definition leavesFromBuf :: "bytes \<Rightarrow> nat option" where
  "leavesFromBuf buf =
     (case nodeCount buf of
        None \<Rightarrow> None
      | Some nodes \<Rightarrow>
          let leaves = (nodes + 1) div 2 in
          if treeNodeCount leaves \<noteq> nodes \<or> \<not> requirePow2 leaves then None else Some leaves)"

section \<open>Parallel loops\<close>

text \<open>
  The loops run in goroutines when there is enough work. \<open>parallelChunks\<close> is the list of chunks; the order in which
  their items run is that of a schedule, a parameter that orders the indices of the chunks.
\<close>

type_synonym schedule = "(nat \<times> nat) list \<Rightarrow> nat list"

definition hashGrain :: int where
  "hashGrain = 256"

definition splitWorkers :: "nat \<Rightarrow> int \<Rightarrow> int \<Rightarrow> nat" where
  "splitWorkers count workers grain = (if workers \<le> 1 then 1 else nat (min workers (max 1 (int count div grain))))"

definition parallelChunks :: "nat \<Rightarrow> nat \<Rightarrow> (nat \<times> nat) list" where
  "parallelChunks count workers =
     (let workers = min workers count;
          chunk = (count + workers - 1) div workers;
          chunks = (count + chunk - 1) div chunk
      in map (\<lambda>w. (w * chunk, min ((w + 1) * chunk) count)) [0..<chunks])"

definition parallelize :: "schedule \<Rightarrow> nat \<Rightarrow> int \<Rightarrow> (nat \<Rightarrow> 'b \<Rightarrow> 'b) \<Rightarrow> 'b \<Rightarrow> 'b" where
  "parallelize sched count workers f s =
     (let workers = splitWorkers count workers hashGrain in
      if workers \<le> 1 then fold f [0..<count] s
      else fold f (sched (parallelChunks count workers)) s)"

section \<open>Building a tree\<close>

text \<open>One level: the nodes \<open>levelStart + i\<close> from their children.\<close>

definition hashLevel :: "hasher \<Rightarrow> nat \<Rightarrow> nat \<Rightarrow> bytes \<Rightarrow> bytes" where
  "hashLevel H levelStart i nodes =
     (let pos = levelStart + i in
      put_node pos (hashPair H (node nodes (2 * pos + 1)) (node nodes (2 * pos + 2))) nodes)"

function hash_levels :: "hasher \<Rightarrow> schedule \<Rightarrow> int \<Rightarrow> nat \<Rightarrow> bytes \<Rightarrow> bytes" where
  "hash_levels H sched workerCount levelSize nodes =
     (if 0 < levelSize
      then hash_levels H sched workerCount (levelSize div 2)
             (parallelize sched levelSize workerCount (hashLevel H (levelSize - 1)) nodes)
      else nodes)"
  by pat_completeness auto
termination
  by (relation "measure (\<lambda>(H, sched, w, n, nodes). n)") auto

declare hash_levels.simps [simp del]

definition hashNodes :: "hasher \<Rightarrow> schedule \<Rightarrow> nat \<Rightarrow> int \<Rightarrow> bytes \<Rightarrow> bytes" where
  "hashNodes H sched n workerCount nodes = hash_levels H sched workerCount (n div 2) nodes"

definition NewTreeInto :: "hasher \<Rightarrow> schedule \<Rightarrow> bytes \<Rightarrow> bytes list \<Rightarrow> int \<Rightarrow> bytes option" where
  "NewTreeInto H sched buf leaves workerCount =
     (case leavesFromBuf buf of
        None \<Rightarrow> None
      | Some n \<Rightarrow>
          if n \<noteq> length leaves then None
          else
            let nodes = parallelize sched n workerCount (\<lambda>i. put_node (n - 1 + i) (hashLeaf H (leaves ! i))) buf in
            Some (hashNodes H sched n workerCount nodes))"

definition NewTree :: "hasher \<Rightarrow> schedule \<Rightarrow> bytes list \<Rightarrow> int \<Rightarrow> bytes option" where
  "NewTree H sched leaves workerCount =
     NewTreeInto H sched (replicate (TreeBufferSize (length leaves)) 0) leaves workerCount"

text \<open>
  A callback produces leaf \<open>i\<close> from the slice it returned last, which it may overwrite; the loop threads that slice.
\<close>

type_synonym leaf_fun = "nat \<Rightarrow> bytes \<Rightarrow> bytes"

definition leaf_step :: "hasher \<Rightarrow> nat \<Rightarrow> leaf_fun \<Rightarrow> nat \<Rightarrow> bytes \<times> bytes \<Rightarrow> bytes \<times> bytes" where
  "leaf_step H start leaf i = (\<lambda>(dst, nodes). (leaf i dst, put_node (start + i) (hashLeaf H (leaf i dst)) nodes))"

text \<open>With several workers each chunk threads its own slice and writes its own nodes, so the chunks can run one by one.\<close>

definition hashLeaves :: "hasher \<Rightarrow> nat \<Rightarrow> int \<Rightarrow> leaf_fun \<Rightarrow> bytes \<Rightarrow> bytes" where
  "hashLeaves H leaves workers leaf nodes =
     (let workers = splitWorkers leaves workers hashGrain in
      if workers \<le> 1 then snd (fold (leaf_step H (leaves - 1) leaf) [0..<leaves] ([], nodes))
      else fold (\<lambda>(start, end) nodes. snd (fold (leaf_step H (leaves - 1) leaf) [start..<end] ([], nodes)))
             (parallelChunks leaves workers) nodes)"

definition NewTreeFuncInto :: "hasher \<Rightarrow> schedule \<Rightarrow> bytes \<Rightarrow> int \<Rightarrow> leaf_fun \<Rightarrow> bytes option" where
  "NewTreeFuncInto H sched buf workerCount leaf =
     (case leavesFromBuf buf of
        None \<Rightarrow> None
      | Some n \<Rightarrow> Some (hashNodes H sched n workerCount (hashLeaves H n workerCount leaf buf)))"

definition tree_Root :: "bytes \<Rightarrow> bytes" where
  "tree_Root nodes = take NodeSize nodes"

definition numLeaves :: "bytes \<Rightarrow> nat" where
  "numLeaves nodes = (length nodes div NodeSize + 1) div 2"

function bits_Len :: "nat \<Rightarrow> nat" where
  "bits_Len n = (if n = 0 then 0 else Suc (bits_Len (n div 2)))"
  by pat_completeness auto
termination
  by (relation "measure id") auto

declare bits_Len.simps [simp del]

definition depth :: "bytes \<Rightarrow> nat" where
  "depth nodes = (let n = numLeaves nodes in if n \<le> 1 then 0 else bits_Len (n - 1))"

section \<open>A root without a tree\<close>

definition fold_level :: "hasher \<Rightarrow> nat \<Rightarrow> bytes \<Rightarrow> bytes" where
  "fold_level H levelSize buf =
     fold (\<lambda>i buf. put_node i (hashPair H (node buf (2 * i)) (node buf (2 * i + 1))) buf) [0..<levelSize div 2] buf"

function fold_levels :: "hasher \<Rightarrow> nat \<Rightarrow> bytes \<Rightarrow> bytes" where
  "fold_levels H levelSize buf =
     (if 1 < levelSize then fold_levels H (levelSize div 2) (fold_level H levelSize buf) else buf)"
  by pat_completeness auto
termination
  by (relation "measure (\<lambda>(H, n, buf). n)") auto

declare fold_levels.simps [simp del]

definition RootFromFunc :: "hasher \<Rightarrow> bytes \<Rightarrow> leaf_fun \<Rightarrow> bytes option" where
  "RootFromFunc H buf leaf =
     (case nodeCount buf of
        None \<Rightarrow> None
      | Some leaves \<Rightarrow>
          if \<not> requirePow2 leaves then None
          else
            let buf = snd (fold (leaf_step H 0 leaf) [0..<leaves] ([], buf)) in
            Some (node (fold_levels H leaves buf) 0))"

section \<open>Proofs\<close>

text \<open>The sibling of every node on the way from a leaf to the root; a write past the end of the proof panics.\<close>

function fill_levels :: "bytes \<Rightarrow> bytes list \<Rightarrow> nat \<Rightarrow> nat \<Rightarrow> bytes list option" where
  "fill_levels nodes dst level pos =
     (if 0 < pos
      then
        let sibling = (if pos mod 2 = 1 then pos + 1 else pos - 1) in
        if length dst \<le> level then None
        else fill_levels nodes (dst[level := node nodes sibling]) (level + 1) ((pos - 1) div 2)
      else Some dst)"
  by pat_completeness auto
termination
  by (relation "measure (\<lambda>(nodes, dst, level, pos). pos)") auto

declare fill_levels.simps [simp del]

definition fillProof :: "bytes \<Rightarrow> bytes list \<Rightarrow> int \<Rightarrow> merkle_err + bytes list" where
  "fillProof nodes dst index =
     (let n = numLeaves nodes in
      if index < 0 \<or> int n \<le> index then Inl ErrIndexOutOfRange
      else of_opt MerklePanic (fill_levels nodes dst 0 (n - 1 + nat index)))"

definition tree_Proof :: "bytes \<Rightarrow> int \<Rightarrow> merkle_err + bytes list" where
  "tree_Proof nodes index = fillProof nodes (replicate (depth nodes) []) index"

text \<open>The calls to \<open>yield\<close> until the first position out of range, and the error.\<close>

fun tree_Proofs :: "bytes \<Rightarrow> nat \<Rightarrow> int list \<Rightarrow> (nat \<times> bytes list) list \<times> merkle_err option" where
  "tree_Proofs nodes i [] = ([], None)"
| "tree_Proofs nodes i (pos # positions) =
     (case fillProof nodes (replicate (depth nodes) []) pos of
        Inl e \<Rightarrow> ([], Some e)
      | Inr proof \<Rightarrow> (let (ys, e) = tree_Proofs nodes (i + 1) positions in ((i, proof) # ys, e)))"

text \<open>Go's division truncates and its remainder has the sign of the dividend.\<close>

fun climb :: "hasher \<Rightarrow> bytes \<Rightarrow> int \<Rightarrow> bytes list \<Rightarrow> merkle_err + bytes" where
  "climb H current pos [] = Inr current"
| "climb H current pos (sibling # proof) =
     (if length sibling \<noteq> NodeSize then Inl ErrSiblingSize
      else climb H (if pos mod 2 = 0 then hashPair H current sibling else hashPair H sibling current)
             (if 0 \<le> pos then pos div 2 else - (- pos div 2)) proof)"

definition RootFromProof :: "hasher \<Rightarrow> bytes \<Rightarrow> int \<Rightarrow> bytes list \<Rightarrow> merkle_err + bytes" where
  "RootFromProof H leaf index proof = climb H (hashLeaf H leaf) index proof"

record proof_input =
  pi_Leaf :: bytes
  pi_Index :: int
  pi_Path :: "bytes list"

definition proofGrain :: int where
  "proofGrain = 32"

definition input_root :: "hasher \<Rightarrow> proof_input \<Rightarrow> merkle_err + bytes" where
  "input_root H p = RootFromProof H (pi_Leaf p) (pi_Index p) (pi_Path p)"

fun reduce_rest :: "hasher \<Rightarrow> bytes \<Rightarrow> proof_input list \<Rightarrow> merkle_err + bytes" where
  "reduce_rest H want [] = Inr want"
| "reduce_rest H want (p # ps) =
     (case input_root H p of
        Inl e \<Rightarrow> Inl e
      | Inr root \<Rightarrow> if root \<noteq> want then Inl ErrRootMismatch else reduce_rest H want ps)"

definition reduceProofs :: "hasher \<Rightarrow> proof_input list \<Rightarrow> nat \<Rightarrow> nat \<Rightarrow> merkle_err + bytes" where
  "reduceProofs H inputs start end =
     (case take (end - start) (drop start inputs) of
        [] \<Rightarrow> Inl MerklePanic
      | p # ps \<Rightarrow>
          (case input_root H p of
             Inl e \<Rightarrow> Inl e
           | Inr want \<Rightarrow> reduce_rest H want ps))"

text \<open>The results of the chunks, compared with the first one; they do not depend on the order in which the chunks ran.\<close>

fun join_roots :: "bytes \<Rightarrow> (merkle_err + bytes) list \<Rightarrow> merkle_err + bytes" where
  "join_roots root [] = Inr root"
| "join_roots root (r # rs) =
     (case r of
        Inl e \<Rightarrow> Inl e
      | Inr root' \<Rightarrow> if root' \<noteq> root then Inl ErrRootMismatch else join_roots root rs)"

definition RootFromProofs :: "hasher \<Rightarrow> proof_input list \<Rightarrow> int \<Rightarrow> merkle_err + bytes" where
  "RootFromProofs H inputs workers =
     (if inputs = [] then Inl ErrNoProofInputs
      else
        let nw = splitWorkers (length inputs) workers proofGrain in
        if nw \<le> 1 then reduceProofs H inputs 0 (length inputs)
        else
          case map (\<lambda>(start, end). reduceProofs H inputs start end) (parallelChunks (length inputs) nw) of
            [] \<Rightarrow> Inl MerklePanic
          | r # rs \<Rightarrow> (case r of Inl e \<Rightarrow> Inl e | Inr root \<Rightarrow> join_roots root rs))"

end
