(* ===== verification/MerkleTree.thy ===== *)
theory MerkleTree
  imports Merkle "HOL-Library.Multiset"
begin

text \<open>
  Building a tree: loops that write disjoint cells give the same result in every order, so a finished buffer holds every node as
  the hash of its children.
\<close>

section \<open>Loops over disjoint cells\<close>

text \<open>
  What a loop relies on in the storage it fills: a write changes one cell. Then a loop that writes every cell at most once,
  from cells it has not written yet, fills each cell with the value it has for the initial storage, in whatever
  order it runs.
\<close>

locale cells =
  fixes get :: "'s \<Rightarrow> nat \<Rightarrow> 'v"
    and put :: "nat \<Rightarrow> 'v \<Rightarrow> 's \<Rightarrow> 's"
    and size_of :: "'s \<Rightarrow> nat"
    and ok :: "nat \<Rightarrow> nat \<Rightarrow> bool"
    and val :: "'v \<Rightarrow> bool"
  assumes get_put: "ok i (size_of s) \<Longrightarrow> val v \<Longrightarrow> get (put i v s) j = (if i = j then v else get s j)"
    and size_put: "ok i (size_of s) \<Longrightarrow> val v \<Longrightarrow> size_of (put i v s) = size_of s"
begin

lemma loop_prefix:
  assumes "distinct (map pos is)" and "\<And>i. i \<in> set is \<Longrightarrow> ok (pos i) (size_of s)"
    and "\<And>xs i ys s'. is = xs @ i # ys \<Longrightarrow> \<forall>j. j \<notin> pos ` set xs \<longrightarrow> get s' j = get s j \<Longrightarrow>
      val (f i s') \<and> f i s' = w i"
  defines "s' \<equiv> fold (\<lambda>i s. put (pos i) (f i s) s) is s"
  shows "(\<forall>i\<in>set is. get s' (pos i) = w i) \<and> (\<forall>j. j \<notin> pos ` set is \<longrightarrow> get s' j = get s j) \<and> size_of s' = size_of s"
  using assms(1-3) unfolding s'_def
proof (induction "is" rule: rev_induct)
  case Nil
  then show ?case by simp
next
  case (snoc i xs)
  let ?s = "fold (\<lambda>i s. put (pos i) (f i s) s) xs s"
  have IH: "(\<forall>i\<in>set xs. get ?s (pos i) = w i) \<and> (\<forall>j. j \<notin> pos ` set xs \<longrightarrow> get ?s j = get s j) \<and> size_of ?s = size_of s"
  proof (rule snoc.IH)
    show "val (f i' t) \<and> f i' t = w i'"
      if "xs = ys @ i' # zs" and "\<forall>j. j \<notin> pos ` set ys \<longrightarrow> get t j = get s j" for ys i' zs t
      by (rule snoc.prems(3) [of ys i' "zs @ [i]" t]) (use that in simp_all)
  qed (use snoc.prems in auto)
  have "val (f i ?s) \<and> f i ?s = w i" by (rule snoc.prems(3) [of xs i "[]" ?s]) (use IH in simp_all)
  then have v: "val (f i ?s)" "f i ?s = w i" by blast+
  have ok: "ok (pos i) (size_of ?s)" using IH snoc.prems(2) [of i] by simp
  have new: "pos i \<notin> pos ` set xs" using snoc.prems(1) by simp
  have g: "get (put (pos i) (f i ?s) ?s) j = (if pos i = j then w i else get ?s j)" for j
    using get_put [OF ok v(1)] v(2) by simp
  have k: "size_of (put (pos i) (f i ?s) ?s) = size_of s"
    using size_put [OF ok v(1)] IH by simp
  show ?case using IH new by (auto simp: g k)
qed

lemma loop_disjoint:
  assumes "distinct (map pos is)" and "\<And>i. i \<in> set is \<Longrightarrow> ok (pos i) (size_of s)"
    and "\<And>i s'. i \<in> set is \<Longrightarrow> \<forall>j. j \<notin> pos ` set is \<longrightarrow> get s' j = get s j \<Longrightarrow> val (f i s') \<and> f i s' = w i"
  defines "s' \<equiv> fold (\<lambda>i s. put (pos i) (f i s) s) is s"
  shows "(\<forall>i\<in>set is. get s' (pos i) = w i) \<and> (\<forall>j. j \<notin> pos ` set is \<longrightarrow> get s' j = get s j) \<and> size_of s' = size_of s"
  unfolding s'_def
proof (rule loop_prefix)
  show "val (f i t) \<and> f i t = w i"
    if "is = xs @ i # ys" and "\<forall>j. j \<notin> pos ` set xs \<longrightarrow> get t j = get s j" for xs i ys t
    by (rule assms(3)) (use that in auto)
qed (use assms(1,2) in auto)

end

definition node_ok :: "nat \<Rightarrow> nat \<Rightarrow> bool" where
  "node_ok i n \<longleftrightarrow> (i + 1) * NodeSize \<le> n"

definition is_node :: "bytes \<Rightarrow> bool" where
  "is_node v \<longleftrightarrow> length v = NodeSize"

lemma length_put_node:
  assumes "node_ok i (length nodes)" and "is_node v"
  shows "length (put_node i v nodes) = length nodes"
  using assms by (simp add: put_node_def node_ok_def is_node_def)

lemma node_put_same:
  assumes "node_ok i (length nodes)" and "is_node v"
  shows "node (put_node i v nodes) i = v"
  using assms by (simp add: put_node_def node_def node_ok_def is_node_def min_def)

lemma node_put_other:
  assumes "node_ok i (length nodes)" and "is_node v" and "i \<noteq> j"
  shows "node (put_node i v nodes) j = node nodes j"
proof (cases "j < i")
  case True
  then have "j * NodeSize + NodeSize \<le> i * NodeSize" by (metis Suc_leI add.commute mult_Suc mult_le_mono1)
  then show ?thesis using assms by (simp add: put_node_def node_def node_ok_def is_node_def drop_take min_def)
next
  case False
  then have le: "i * NodeSize + NodeSize \<le> j * NodeSize"
    using assms(3) by (metis Suc_leI add.commute mult_Suc mult_le_mono1 nat_neq_iff)
  let ?p = "take (i * NodeSize) nodes @ take NodeSize v"
  have "length ?p = i * NodeSize + NodeSize" using assms by (simp add: node_ok_def is_node_def)
  then have "drop (j * NodeSize) (?p @ drop (i * NodeSize + NodeSize) nodes) = drop (j * NodeSize) nodes"
    using le False by (simp del: append_assoc add: drop_append)
  then show ?thesis by (simp add: put_node_def node_def)
qed

interpretation nodes: cells node put_node length node_ok is_node
  by unfold_locales (auto simp: node_put_same node_put_other length_put_node)

section \<open>Powers of two\<close>

lemma and_pred_double: "0 < m \<Longrightarrow> (2 * m) AND (2 * m - 1) = 2 * (m AND (m - 1 :: nat))"
  by (subst and_nat_rec) (auto simp: div_mult_self1_is_m even_diff_nat intro: arg_cong2 [where f = "(AND)"])

lemma pow2_and_pred: "(2 ^ k :: nat) AND (2 ^ k - 1) = 0"
proof (induction k)
  case (Suc k)
  then show ?case using and_pred_double [of "2 ^ k"] by simp
qed simp

lemma and_pred_zero:
  fixes n :: nat
  assumes "n \<noteq> 0" and "n AND (n - 1) = 0"
  shows "\<exists>k. n = 2 ^ k"
  using assms
proof (induction n rule: less_induct)
  case (less n)
  show ?case
  proof (cases "even n")
    case True
    then obtain m where m: "n = 2 * m" by (rule evenE)
    then have "m \<noteq> 0" "m AND (m - 1) = 0" "m < n" using less.prems and_pred_double [of m] by auto
    then obtain k where "m = 2 ^ k" using less.IH by blast
    then show ?thesis using m by (metis power_Suc)
  next
    case False
    then have "n AND (n - 1) = 2 * ((n div 2) AND ((n - 1) div 2))" by (subst and_nat_rec) auto
    moreover have "(n - 1) div 2 = n div 2" using False by presburger
    ultimately have "n div 2 = 0" using less.prems by simp
    then have "n = 1" using less.prems(1) by presburger
    then show ?thesis by (metis power_0)
  qed
qed

lemma requirePow2_iff: "requirePow2 n \<longleftrightarrow> (\<exists>k. n = 2 ^ k)"
proof
  assume "\<exists>k. n = 2 ^ k"
  then obtain k where "n = 2 ^ k" by blast
  then show "requirePow2 n" using pow2_and_pred [of k] by (simp add: requirePow2_def)
qed (use and_pred_zero requirePow2_def in blast)

section \<open>Every order of a parallel loop\<close>

definition chunk_items :: "(nat \<times> nat) list \<Rightarrow> nat list" where
  "chunk_items cs = concat (map (\<lambda>(start, end). [start..<end]) cs)"

text \<open>A schedule runs every item of every chunk once.\<close>

definition fair :: "schedule \<Rightarrow> bool" where
  "fair sched \<longleftrightarrow> (\<forall>cs. mset (sched cs) = mset (chunk_items cs))"

lemma upto_chunks: "chunk_items (map (\<lambda>w. (w * c, min ((w + 1) * c) n)) [0..<m]) = [0..<min (m * c) n]"
proof (induction m)
  case (Suc m)
  have "[0..<min (m * c) n] @ [m * c..<min ((m + 1) * c) n] = [0..<min (Suc m * c) n]"
  proof (cases "m * c \<le> n")
    case True
    then show ?thesis using upt_add_eq_append [of 0 "m * c" "min (Suc m * c) n - m * c"] by (simp add: min_def)
  next
    case False
    then show ?thesis by simp
  qed
  then show ?case using Suc by (simp add: chunk_items_def)
qed (simp add: chunk_items_def)

lemma ceil_mult:
  fixes n c :: nat
  assumes "0 < c"
  shows "n \<le> (n + c - 1) div c * c"
proof -
  have "n + c - 1 = (n + c - 1) div c * c + (n + c - 1) mod c" by simp
  moreover have "(n + c - 1) mod c \<le> c - 1" using assms by (metis One_nat_def Suc_pred less_Suc_eq_le mod_less_divisor)
  ultimately show ?thesis using assms by linarith
qed

lemma chunks_cover:
  assumes "0 < cnt" and "0 < workers"
  shows "chunk_items (parallelChunks cnt workers) = [0..<cnt]"
proof -
  define w where "w = min workers cnt"
  define c where "c = (cnt + w - 1) div w"
  have w: "0 < w" using assms by (simp add: w_def)
  have c: "0 < c"
  proof (rule ccontr)
    assume "\<not> 0 < c"
    then have "cnt \<le> 0" using ceil_mult [OF w, of cnt] by (simp add: c_def)
    then show False using assms by simp
  qed
  have "chunk_items (parallelChunks cnt workers) = [0..<min ((cnt + c - 1) div c * c) cnt]"
    unfolding parallelChunks_def Let_def w_def [symmetric] c_def [symmetric] by (rule upto_chunks)
  then show ?thesis using ceil_mult [OF c, of cnt] by simp
qed

lemma splitWorkers_pos: "0 < splitWorkers cnt workers grain"
  by (simp add: splitWorkers_def max_def)

lemma splitWorkers_zero: "splitWorkers 0 workers grain = 1"
  by (simp add: splitWorkers_def)

lemma parallelize_order:
  assumes "fair sched"
  obtains "is" where "mset is = mset [0..<cnt]" and "parallelize sched cnt workers f s = fold f is s"
proof (cases "splitWorkers cnt workers hashGrain \<le> 1")
  case True
  then show ?thesis using that [of "[0..<cnt]"] by (simp add: parallelize_def)
next
  case False
  let ?cs = "parallelChunks cnt (splitWorkers cnt workers hashGrain)"
  have "0 < cnt" using False splitWorkers_zero by (metis gr0I le_refl)
  then have "mset (sched ?cs) = mset [0..<cnt]"
    using assms chunks_cover splitWorkers_pos unfolding fair_def by presburger
  then show ?thesis using that False by (simp add: parallelize_def)
qed

section \<open>The tree in the buffer\<close>

definition hash32 :: "hasher \<Rightarrow> bool" where
  "hash32 H \<longleftrightarrow> (\<forall>x. length (H x) = NodeSize)"

definition pair_at :: "hasher \<Rightarrow> bytes \<Rightarrow> nat \<Rightarrow> bytes" where
  "pair_at H nodes p = hashPair H (node nodes (2 * p + 1)) (node nodes (2 * p + 2))"

text \<open>
  What the buffer of a finished tree holds: the leaf hashes at its end, and in front of them every node as the hash of
  its two children.
\<close>

definition heap_tree :: "hasher \<Rightarrow> bytes list \<Rightarrow> bytes \<Rightarrow> bool" where
  "heap_tree H leaves nodes \<longleftrightarrow>
     (let n = length leaves in
      length nodes = TreeBufferSize n \<and> (\<forall>i<n. node nodes (n - 1 + i) = hashLeaf H (leaves ! i)) \<and>
      (\<forall>p<n - 1. node nodes p = pair_at H nodes p))"

lemma is_node_hash [simp]: "hash32 H \<Longrightarrow> is_node (hashLeaf H x)" "hash32 H \<Longrightarrow> is_node (hashPair H x y)"
  by (simp_all add: hash32_def is_node_def hashLeaf_def hashPair_def)

lemma distinct_order:
  assumes "mset is = mset [0..<n]"
  shows "set is = {0..<n}" and "distinct (map ((+) (k :: nat)) is)"
proof -
  show s: "set is = {0..<n}" using assms by (metis set_mset_mset atLeastLessThan_upt)
  have "distinct is" using assms by (metis distinct_upt mset_eq_imp_distinct_iff)
  then show "distinct (map ((+) k) is)" by (simp add: distinct_map)
qed

lemma put_loop:
  assumes "fair sched" and "(k + n) * NodeSize \<le> length s"
    and "\<And>i t. i < n \<Longrightarrow> \<forall>j. j \<notin> {k..<k + n} \<longrightarrow> node t j = node s j \<Longrightarrow> is_node (f i t) \<and> f i t = w i"
    and run: "s' = parallelize sched n workers (\<lambda>i t. put_node (k + i) (f i t) t) s"
  shows "(\<forall>i<n. node s' (k + i) = w i) \<and> (\<forall>j. j \<notin> {k..<k + n} \<longrightarrow> node s' j = node s j) \<and> length s' = length s"
proof -
  obtain "is" where "is": "mset is = mset [0..<n]"
    and s': "s' = fold (\<lambda>i t. put_node (k + i) (f i t) t) is s"
    unfolding run by (rule parallelize_order [OF assms(1)])
  note d = distinct_order [OF "is"]
  have img: "(+) k ` set is = {k..<k + n}" by (simp add: d(1) add.commute)
  have "(\<forall>i\<in>set is. node s' (k + i) = w i) \<and> (\<forall>j. j \<notin> (+) k ` set is \<longrightarrow> node s' j = node s j) \<and> length s' = length s"
    unfolding s'
  proof (rule nodes.loop_disjoint [OF d(2)])
    fix i assume i: "i \<in> set is"
    have "(k + i + 1) * NodeSize \<le> (k + n) * NodeSize" using i d(1) by (intro mult_le_mono1) simp
    then show "node_ok (k + i) (length s)" using assms(2) by (simp add: node_ok_def)
    show "is_node (f i t) \<and> f i t = w i" if "\<forall>j. j \<notin> (+) k ` set is \<longrightarrow> node t j = node s j" for t
      by (rule assms(3)) (use that i d(1) img in auto)
  qed
  then show ?thesis using d(1) img by auto
qed

lemma hash_level:
  assumes "fair sched" and "hash32 H" and "0 < m" and "(2 * m - 1) * NodeSize \<le> length s"
    and run: "s' = parallelize sched m workers (hashLevel H (m - 1)) s"
  shows "(\<forall>p\<in>{m - 1..<2 * m - 1}. node s' p = pair_at H s p) \<and>
    (\<forall>j. j \<notin> {m - 1..<2 * m - 1} \<longrightarrow> node s' j = node s j) \<and> length s' = length s"
proof -
  have f: "hashLevel H (m - 1) = (\<lambda>i t. put_node (m - 1 + i) (pair_at H t (m - 1 + i)) t)"
    by (simp add: hashLevel_def pair_at_def fun_eq_iff Let_def)
  have r: "m - 1 + m = 2 * m - 1" using assms(3) by simp
  have "(\<forall>i<m. node s' (m - 1 + i) = pair_at H s (m - 1 + i)) \<and>
      (\<forall>j. j \<notin> {m - 1..<m - 1 + m} \<longrightarrow> node s' j = node s j) \<and> length s' = length s"
  proof (rule put_loop [OF assms(1) _ _ run [unfolded f]])
    show "(m - 1 + m) * NodeSize \<le> length s" using assms(4) r by simp
    show "is_node (pair_at H t (m - 1 + i)) \<and> pair_at H t (m - 1 + i) = pair_at H s (m - 1 + i)"
      if "i < m" and same: "\<forall>j. j \<notin> {m - 1..<m - 1 + m} \<longrightarrow> node t j = node s j" for i t
    proof -
      have "2 * (m - 1 + i) + 1 \<notin> {m - 1..<m - 1 + m}" "2 * (m - 1 + i) + 2 \<notin> {m - 1..<m - 1 + m}"
        using assms(3) by auto
      then have "pair_at H t (m - 1 + i) = pair_at H s (m - 1 + i)" using same unfolding pair_at_def by metis
      moreover have "is_node (pair_at H t (m - 1 + i))" using assms(2) unfolding pair_at_def by simp
      ultimately show ?thesis by blast
    qed
  qed
  then show ?thesis unfolding r
    by (metis (no_types, lifting) atLeastLessThan_iff le_add_diff_inverse less_diff_conv2 nat_add_left_cancel_less r)
qed

lemma buffer_room:
  assumes "0 < m" and "2 * m \<le> n"
  shows "(2 * m - 1) * NodeSize \<le> TreeBufferSize n"
proof -
  have "(2 * m - 1) * NodeSize \<le> (2 * n - 1) * NodeSize" using assms by (intro mult_le_mono1) linarith
  then show ?thesis using assms by (simp add: TreeBufferSize_def treeNodeCount_def)
qed

lemma hash_levels_heap:
  assumes "fair sched" and "hash32 H"
  shows "2 * 2 ^ j \<le> n \<Longrightarrow> length s = TreeBufferSize n \<Longrightarrow>
    (\<forall>p\<in>{2 * 2 ^ j - 1..<n - 1}. node s p = pair_at H s p) \<Longrightarrow>
    s' = hash_levels H sched workers (2 ^ j) s \<Longrightarrow>
    length s' = length s \<and> (\<forall>p<n - 1. node s' p = pair_at H s' p) \<and> (\<forall>q\<ge>n - 1. node s' q = node s q)"
proof (induction j arbitrary: s s')
  case 0
  let ?t = "parallelize sched 1 workers (hashLevel H (1 - 1)) s"
  have "(2 * 1 - 1) * NodeSize \<le> length s" using buffer_room [of 1 n] 0(1,2) by simp
  note L = hash_level [OF assms, of 1 s ?t workers, OF _ this refl]
  have s': "s' = ?t" using 0(4) by (simp add: hash_levels.simps [of _ _ _ "Suc 0"] hash_levels.simps [of _ _ _ 0])
  have low: "node s' 0 = pair_at H s 0" and high: "\<forall>j>0. node s' j = node s j" and len: "length s' = length s"
    using L unfolding s' by auto
  have "pair_at H s' p = pair_at H s p" for p using high by (simp add: pair_at_def)
  moreover have "node s p = pair_at H s p" if "0 < p" "p < n - 1" for p using 0(3) that by simp
  ultimately have "node s' p = pair_at H s' p" if "p < n - 1" for p
    using low high that by (cases "p = 0") simp_all
  then show ?case using high len 0(1) by simp
next
  case (Suc j)
  let ?m = "2 ^ Suc j :: nat"
  let ?t = "parallelize sched ?m workers (hashLevel H (?m - 1)) s"
  have m: "0 < ?m" "2 * ?m \<le> n" using Suc.prems(1) by simp_all
  have len: "(2 * ?m - 1) * NodeSize \<le> length s" using buffer_room [OF m] Suc.prems(2) by simp
  note L = hash_level [OF assms m(1) len refl, of workers]
  have keep: "pair_at H ?t p = pair_at H s p" if "?m - 1 \<le> p" for p
    using L that by (simp add: pair_at_def)
  have "length s' = length ?t \<and> (\<forall>p<n - 1. node s' p = pair_at H s' p) \<and> (\<forall>q\<ge>n - 1. node s' q = node ?t q)"
  proof (rule Suc.IH)
    show "2 * 2 ^ j \<le> n" "length ?t = TreeBufferSize n" using m L Suc.prems(2) by simp_all
    show "s' = hash_levels H sched workers (2 ^ j) ?t"
      using Suc.prems(4) by (subst (asm) hash_levels.simps) simp
    show "\<forall>p\<in>{2 * 2 ^ j - 1..<n - 1}. node ?t p = pair_at H ?t p"
    proof
      fix p assume p: "p \<in> {2 * 2 ^ j - 1..<n - 1}"
      show "node ?t p = pair_at H ?t p"
      proof (cases "p < 2 * ?m - 1")
        case True
        then show ?thesis using L p keep by simp
      next
        case False
        then show ?thesis using L p keep Suc.prems(3) by simp
      qed
    qed
  qed
  moreover have "q \<notin> {?m - 1..<2 * ?m - 1}" if "n - 1 \<le> q" for q using m that by auto
  then have "\<forall>q\<ge>n - 1. node ?t q = node s q" using L by blast
  ultimately show ?case using L by simp
qed

lemma leavesFromBuf_iff: "leavesFromBuf buf = Some n \<longleftrightarrow> length buf = TreeBufferSize n \<and> (\<exists>k. n = 2 ^ k)"
proof
  assume "leavesFromBuf buf = Some n"
  then have "length buf mod NodeSize = 0" "treeNodeCount n = length buf div NodeSize" "requirePow2 n"
    by (auto simp: leavesFromBuf_def nodeCount_def Let_def split: if_splits)
  then show "length buf = TreeBufferSize n \<and> (\<exists>k. n = 2 ^ k)"
    using requirePow2_iff by (auto simp: TreeBufferSize_def)
next
  assume *: "length buf = TreeBufferSize n \<and> (\<exists>k. n = 2 ^ k)"
  then have n: "0 < n" by auto
  then have t: "treeNodeCount n = 2 * n - 1" "(2 * n - 1 + 1) div 2 = n" by (simp_all add: treeNodeCount_def)
  then have "length buf = (2 * n - 1) * 32" using * by (simp add: TreeBufferSize_def NodeSize_def)
  then have "nodeCount buf = Some (2 * n - 1)" using n by (simp add: nodeCount_def NodeSize_def)
  then show "leavesFromBuf buf = Some n" using * t requirePow2_iff by (simp add: leavesFromBuf_def)
qed

lemma finish_tree:
  assumes "fair sched" and "hash32 H" and "length leaves = 2 ^ k" and "length s = TreeBufferSize (length leaves)"
    and "\<forall>i<length leaves. node s (length leaves - 1 + i) = hashLeaf H (leaves ! i)"
  shows "heap_tree H leaves (hashNodes H sched (length leaves) workers s)"
proof (cases k)
  case 0
  then have "hashNodes H sched (length leaves) workers s = s"
    using assms(3) by (simp add: hashNodes_def hash_levels.simps [of _ _ _ 0])
  then show ?thesis using assms(3-5) 0 by (simp add: heap_tree_def)
next
  case (Suc j)
  let ?n = "length leaves" and ?s = "hashNodes H sched (length leaves) workers s"
  have "?s = hash_levels H sched workers (2 ^ j) s" using assms(3) Suc by (simp add: hashNodes_def)
  moreover have "2 * 2 ^ j \<le> ?n" "\<forall>p\<in>{2 * 2 ^ j - 1..<?n - 1}. node s p = pair_at H s p" using assms(3) Suc by simp_all
  ultimately have "length ?s = length s \<and> (\<forall>p<?n - 1. node ?s p = pair_at H ?s p) \<and> (\<forall>q\<ge>?n - 1. node ?s q = node s q)"
    using hash_levels_heap [OF assms(1,2), of j ?n s ?s workers] assms(4) by blast
  then show ?thesis using assms(4,5) by (simp add: heap_tree_def Let_def)
qed

lemma leaf_room:
  assumes "0 < n"
  shows "(n - 1 + n) * NodeSize \<le> TreeBufferSize n"
proof -
  have "n - 1 + n = treeNodeCount n" using assms by (simp add: treeNodeCount_def)
  then show ?thesis by (simp only: TreeBufferSize_def order_refl)
qed

lemma new_tree_into:
  assumes "fair sched" and "hash32 H"
  shows "if length buf = TreeBufferSize (length leaves) \<and> (\<exists>k. length leaves = 2 ^ k)
    then \<exists>nodes. NewTreeInto H sched buf leaves workers = Some nodes \<and> heap_tree H leaves nodes
    else NewTreeInto H sched buf leaves workers = None"
proof (cases "length buf = TreeBufferSize (length leaves) \<and> (\<exists>k. length leaves = 2 ^ k)")
  case False
  then show ?thesis using leavesFromBuf_iff [of buf "length leaves"] by (auto simp: NewTreeInto_def split: option.splits)
next
  case True
  then obtain k where k: "length leaves = 2 ^ k" by blast
  let ?n = "length leaves"
  let ?s = "parallelize sched ?n workers (\<lambda>i. put_node (?n - 1 + i) (hashLeaf H (leaves ! i))) buf"
  have n: "0 < ?n" using k by simp
  have "(\<forall>i<?n. node ?s (?n - 1 + i) = hashLeaf H (leaves ! i)) \<and>
      (\<forall>j. j \<notin> {?n - 1..<?n - 1 + ?n} \<longrightarrow> node ?s j = node buf j) \<and> length ?s = length buf"
  proof (rule put_loop [OF assms(1) _ _ refl])
    show "(?n - 1 + ?n) * NodeSize \<le> length buf" using True leaf_room [OF n] by simp
  qed (use assms(2) in simp)
  then have "heap_tree H leaves (hashNodes H sched ?n workers ?s)"
    using True by (intro finish_tree [OF assms k]) simp_all
  moreover have "NewTreeInto H sched buf leaves workers = Some (hashNodes H sched ?n workers ?s)"
    using True leavesFromBuf_iff [of buf ?n] by (simp add: NewTreeInto_def Let_def)
  ultimately show ?thesis using True by simp
qed

text \<open>A callback that gives the leaves, whichever slice it was offered.\<close>

definition leaf_gives :: "leaf_fun \<Rightarrow> bytes list \<Rightarrow> bool" where
  "leaf_gives leaf leaves \<longleftrightarrow> (\<forall>i<length leaves. \<forall>dst\<in>insert [] (set leaves). leaf i dst = leaves ! i)"

lemma leaf_loop:
  assumes "leaf_gives leaf leaves"
  shows "set is \<subseteq> {0..<length leaves} \<Longrightarrow> dst \<in> insert [] (set leaves) \<Longrightarrow>
    snd (fold (leaf_step H start leaf) is (dst, nodes)) =
      fold (\<lambda>i. put_node (start + i) (hashLeaf H (leaves ! i))) is nodes"
proof (induction "is" arbitrary: dst nodes)
  case (Cons i "is")
  then have "leaf i dst = leaves ! i" "leaves ! i \<in> insert [] (set leaves)" using assms by (auto simp: leaf_gives_def)
  then show ?case using Cons by (simp add: leaf_step_def)
qed simp

lemma hash_leaves_order:
  assumes "leaf_gives leaf leaves" and "n = length leaves"
  shows "hashLeaves H n workers leaf nodes = fold (\<lambda>i. put_node (n - 1 + i) (hashLeaf H (leaves ! i))) [0..<n] nodes"
proof (cases "splitWorkers n workers hashGrain \<le> 1")
  case True
  then show ?thesis using leaf_loop [OF assms(1), of "[0..<n]" "[]"] assms(2) by (simp add: hashLeaves_def)
next
  case False
  let ?put = "\<lambda>i. put_node (n - 1 + i) (hashLeaf H (leaves ! i))"
  let ?cs = "parallelChunks n (splitWorkers n workers hashGrain)"
  have "0 < n" using False splitWorkers_zero by (metis gr0I le_refl)
  then have cover: "chunk_items ?cs = [0..<n]" by (rule chunks_cover) (rule splitWorkers_pos)
  have "fold (\<lambda>(a, b) t. snd (fold (leaf_step H (n - 1) leaf) [a..<b] ([], t))) cs t = fold ?put (chunk_items cs) t"
    if "set (chunk_items cs) \<subseteq> {0..<n}" for cs t
    using that
  proof (induction cs arbitrary: t)
    case (Cons c cs)
    obtain a b where "c = (a, b)" by (cases c)
    then show ?case using Cons leaf_loop [OF assms(1), of "[a..<b]" "[]"] assms(2) by (simp add: chunk_items_def)
  qed (simp add: chunk_items_def)
  from this [of ?cs] show ?thesis using False cover by (simp add: hashLeaves_def Let_def)
qed

lemma new_tree_func_into:
  assumes "fair sched" and "hash32 H" and "leaf_gives leaf leaves" and k: "length leaves = 2 ^ k"
    and buf: "length buf = TreeBufferSize (length leaves)"
  shows "\<exists>nodes. NewTreeFuncInto H sched buf workers leaf = Some nodes \<and> heap_tree H leaves nodes"
proof -
  let ?n = "length leaves"
  let ?s = "hashLeaves H ?n workers leaf buf"
  have run: "?s = parallelize sched ?n 1 (\<lambda>i. put_node (?n - 1 + i) (hashLeaf H (leaves ! i))) buf"
    unfolding hash_leaves_order [OF assms(3) refl] by (simp add: parallelize_def splitWorkers_def)
  have n: "0 < ?n" using k by simp
  have "(\<forall>i<?n. node ?s (?n - 1 + i) = hashLeaf H (leaves ! i)) \<and>
      (\<forall>j. j \<notin> {?n - 1..<?n - 1 + ?n} \<longrightarrow> node ?s j = node buf j) \<and> length ?s = length buf"
  proof (rule put_loop [OF assms(1) _ _ run])
    show "(?n - 1 + ?n) * NodeSize \<le> length buf" using buf leaf_room [OF n] by simp
  qed (use assms(2) in simp)
  then have "heap_tree H leaves (hashNodes H sched ?n workers ?s)"
    using buf by (intro finish_tree [OF assms(1,2) k]) simp_all
  then show ?thesis using leavesFromBuf_iff [of buf ?n] buf k by (auto simp: NewTreeFuncInto_def)
qed

end
