(* ===== verification/MerkleProof.thy ===== *)
theory MerkleProof
  imports MerkleTree
begin

text \<open>
  Roots and proofs: all ways to compute a root agree with the recursive definition, and a batch of proofs leads to the root
  of a tree exactly if it consists of the tree's own rows and proofs.
\<close>

section \<open>The reference root\<close>










section \<open>The in-place root\<close>




section \<open>Every proof of a tree leads to its root\<close>

definition sibling :: "nat \<Rightarrow> nat" where
  "sibling pos = (if pos mod 2 = 1 then pos + 1 else pos - 1)"

function sib_path :: "bytes \<Rightarrow> nat \<Rightarrow> bytes list" where
  "sib_path nodes pos = (if 0 < pos then node nodes (sibling pos) # sib_path nodes ((pos - 1) div 2) else [])"
  by pat_completeness auto
termination
  by (relation "measure snd") auto

declare sib_path.simps [simp del]

lemma fill_levels_path:
  "level + length (sib_path nodes pos) \<le> length dst \<Longrightarrow>
    fill_levels nodes dst level pos =
      Some (take level dst @ sib_path nodes pos @ drop (level + length (sib_path nodes pos)) dst)"
proof (induction nodes pos arbitrary: dst level rule: sib_path.induct)
  case (1 nodes pos)
  show ?case
  proof (cases "0 < pos")
    case False
    then show ?thesis by (simp add: fill_levels.simps [of _ _ _ 0] sib_path.simps [of _ 0])
  next
    case True
    let ?dst = "dst[level := node nodes (sibling pos)]" and ?path = "sib_path nodes ((pos - 1) div 2)"
    have path: "sib_path nodes pos = node nodes (sibling pos) # ?path" using True by (simp add: sib_path.simps [of _ pos])
    then have lt: "level < length dst" and le: "Suc level + length ?path \<le> length ?dst" using 1(2) by simp_all
    have "fill_levels nodes ?dst (Suc level) ((pos - 1) div 2) =
        Some (take (Suc level) ?dst @ ?path @ drop (Suc level + length ?path) ?dst)"
      by (rule 1(1) [OF True le])
    moreover have "take (Suc level) ?dst = take level dst @ [node nodes (sibling pos)]"
      using lt by (simp add: take_Suc_conv_app_nth)
    moreover have "drop (Suc level + length ?path) ?dst = drop (level + length (sib_path nodes pos)) dst"
      using path by simp
    moreover have "fill_levels nodes dst level pos = fill_levels nodes ?dst (Suc level) ((pos - 1) div 2)"
      by (subst fill_levels.simps) (use True lt in \<open>simp add: sibling_def Let_def\<close>)
    ultimately show ?thesis using path by simp
  qed
qed

lemma parent:
  fixes m q :: nat
  assumes "0 < m"
  shows "0 < 2 * m - 1 + q" and "(2 * m - 1 + q - 1) div 2 = m - 1 + q div 2"
    and "even q \<Longrightarrow> 2 * m - 1 + q = 2 * (m - 1 + q div 2) + 1 \<and> sibling (2 * m - 1 + q) = 2 * (m - 1 + q div 2) + 2"
    and "odd q \<Longrightarrow> 2 * m - 1 + q = 2 * (m - 1 + q div 2) + 2 \<and> sibling (2 * m - 1 + q) = 2 * (m - 1 + q div 2) + 1"
proof -
  obtain r where r: "m = Suc r" using assms by (cases m) auto
  show "0 < 2 * m - 1 + q" using r by simp
  have "2 * m - 1 + q - 1 = 2 * r + q" "m - 1 = r" using r by simp_all
  then show "(2 * m - 1 + q - 1) div 2 = m - 1 + q div 2" by simp
  show "2 * m - 1 + q = 2 * (m - 1 + q div 2) + 1 \<and> sibling (2 * m - 1 + q) = 2 * (m - 1 + q div 2) + 2" if "even q"
    using that r by (elim evenE) (simp add: sibling_def)
  show "2 * m - 1 + q = 2 * (m - 1 + q div 2) + 2 \<and> sibling (2 * m - 1 + q) = 2 * (m - 1 + q div 2) + 1" if "odd q"
    using that r by (elim oddE) (simp add: sibling_def)
qed

lemma path_step:
  assumes "0 < m"
  shows "sib_path nodes (2 * m - 1 + q) = node nodes (sibling (2 * m - 1 + q)) # sib_path nodes (m - 1 + q div 2)"
  using parent(1,2) [OF assms, of q] by (subst sib_path.simps) simp

lemma length_sib_path: "q < 2 ^ j \<Longrightarrow> length (sib_path nodes (2 ^ j - 1 + q)) = j"
proof (induction j arbitrary: q)
  case (Suc j)
  have "q div 2 < 2 ^ j" using Suc.prems by simp
  then have "length (sib_path nodes (2 * 2 ^ j - 1 + q)) = Suc j"
    using path_step [of "2 ^ j" nodes q] Suc.IH [of "q div 2"] by (simp only: list.size zero_less_power zero_less_numeral)
  then show ?case by simp
qed (simp add: sib_path.simps [of _ 0])

lemma length_node: "length nodes = TreeBufferSize n \<Longrightarrow> p < 2 * n - 1 \<Longrightarrow> length (node nodes p) = NodeSize"
proof -
  assume len: "length nodes = TreeBufferSize n" and p: "p < 2 * n - 1"
  then have "(p + 1) * NodeSize \<le> (2 * n - 1) * NodeSize" by (intro mult_le_mono1) simp
  then have "(p + 1) * NodeSize \<le> length nodes" using len p by (simp add: TreeBufferSize_def treeNodeCount_def split: if_splits)
  then show ?thesis by (simp add: node_def)
qed

lemma child_bound: "s \<le> 2 * p + 2 \<Longrightarrow> p < n - 1 \<Longrightarrow> s < 2 * n - (1 :: nat)"
  by arith

lemma climb_tree:
  assumes tree: "heap_tree H leaves nodes"
  shows "2 ^ j \<le> length leaves \<Longrightarrow> q < 2 ^ j \<Longrightarrow>
    climb H (node nodes (2 ^ j - 1 + q)) (int q) (sib_path nodes (2 ^ j - 1 + q)) = Inr (node nodes 0)"
proof (induction j arbitrary: q)
  case 0
  then show ?case by (simp add: sib_path.simps [of _ 0])
next
  case (Suc j)
  let ?m = "2 ^ j :: nat" and ?n = "length leaves"
  let ?pos = "2 * ?m - 1 + q" and ?p = "?m - 1 + q div 2"
  have m: "0 < ?m" by simp
  have q: "q div 2 < ?m" using Suc.prems(2) by simp
  have n: "2 * ?m \<le> ?n" using Suc.prems(1) by simp
  have "?p < ?n - 1" using q n by linarith
  then have pair: "node nodes ?p = hashPair H (node nodes (2 * ?p + 1)) (node nodes (2 * ?p + 2))"
    using tree by (simp add: heap_tree_def Let_def pair_at_def)
  have path: "sib_path nodes ?pos = node nodes (sibling ?pos) # sib_path nodes ?p"
    by (rule path_step [OF m])
  have IH: "climb H (node nodes ?p) (int (q div 2)) (sib_path nodes ?p) = Inr (node nodes 0)"
    using Suc.IH [of "q div 2"] Suc.prems(1) q by simp
  have len: "length (node nodes (sibling ?pos)) = NodeSize"
  proof (rule length_node)
    show "length nodes = TreeBufferSize ?n" using tree by (simp add: heap_tree_def Let_def)
    have "sibling ?pos \<le> 2 * ?p + 2" using parent(3,4) [OF m, of q] by (cases "even q") linarith+
    then show "sibling ?pos < 2 * ?n - 1" using \<open>?p < ?n - 1\<close> by (rule child_bound)
  qed
  have "climb H (node nodes ?pos) (int q) (sib_path nodes ?pos) = Inr (node nodes 0)"
  proof (cases "even q")
    case True
    then have "int q mod 2 = 0" by presburger
    then have "climb H (node nodes ?pos) (int q) (sib_path nodes ?pos) =
        climb H (hashPair H (node nodes ?pos) (node nodes (sibling ?pos))) (int (q div 2)) (sib_path nodes ?p)"
      unfolding path using len by (simp add: zdiv_int)
    then show ?thesis using parent(3) [OF m True] pair IH by metis
  next
    case False
    then have "int q mod 2 = 1" by presburger
    then have "climb H (node nodes ?pos) (int q) (sib_path nodes ?pos) =
        climb H (hashPair H (node nodes (sibling ?pos)) (node nodes ?pos)) (int (q div 2)) (sib_path nodes ?p)"
      unfolding path using len by (simp add: zdiv_int)
    then show ?thesis using parent(4) [OF m False] pair IH by metis
  qed
  then show ?case by simp
qed

lemma bits_Len_pred: "bits_Len (2 ^ k - 1) = k"
proof (induction k)
  case (Suc k)
  have half: "(2 * m - 1) div 2 = m - 1 \<and> 2 * m - 1 \<noteq> 0" if "0 < m" for m :: nat using that by presburger
  have "(2 ^ Suc k - 1) div 2 = (2 ^ k - 1 :: nat) \<and> (2 ^ Suc k - 1 :: nat) \<noteq> 0" using half [of "2 ^ k"] by simp
  then show ?case using Suc by (subst bits_Len.simps) simp
qed (simp add: bits_Len.simps)

section \<open>Batches of proofs\<close>

lemma ceil_less:
  fixes w n c :: nat
  assumes "w < (n + c - 1) div c" and "0 < c"
  shows "w * c < n"
proof -
  have "(w + 1) * c \<le> (n + c - 1) div c * c" using assms(1) by (intro mult_le_mono1) simp
  also have "\<dots> \<le> n + c - 1" by simp
  finally show ?thesis using assms(2) by (simp add: algebra_simps)
qed

lemma chunk_bounds:
  assumes "0 < cnt" and "0 < workers" and "(a, b) \<in> set (parallelChunks cnt workers)"
  shows "a < b \<and> b \<le> cnt"
proof -
  define w where "w = min workers cnt"
  define c where "c = (cnt + w - 1) div w"
  obtain v where v: "v < (cnt + c - 1) div c" "a = v * c" "b = min ((v + 1) * c) cnt"
    using assms(3) unfolding parallelChunks_def Let_def w_def [symmetric] c_def [symmetric] by auto
  have "0 < c" using v(1) by (cases c) simp_all
  then show ?thesis using ceil_less [OF v(1)] v(2,3) by (simp add: min_def)
qed

lemma reduce_rest_iff: "reduce_rest H want ps = Inr r \<longleftrightarrow> r = want \<and> (\<forall>p\<in>set ps. input_root H p = Inr want)"
  by (induction ps) (auto split: sum.splits)

definition slice :: "'a list \<Rightarrow> nat \<times> nat \<Rightarrow> 'a list" where
  "slice xs = (\<lambda>(a, b). take (b - a) (drop a xs))"

lemma reduce_iff:
  assumes "a < b" and "b \<le> length inputs"
  shows "reduceProofs H inputs a b = Inr r \<longleftrightarrow> (\<forall>p\<in>set (slice inputs (a, b)). input_root H p = Inr r)"
proof -
  have "length (slice inputs (a, b)) \<noteq> 0" using assms by (simp add: slice_def)
  then obtain p ps where "slice inputs (a, b) = p # ps" by (cases "slice inputs (a, b)") auto
  then show ?thesis by (auto simp: reduceProofs_def slice_def reduce_rest_iff split: sum.splits)
qed

lemma join_roots_iff: "join_roots root rs = Inr r \<longleftrightarrow> r = root \<and> (\<forall>x\<in>set rs. x = Inr root)"
  by (induction rs) (auto split: sum.splits)

lemma slice_nth: "a \<le> b \<Longrightarrow> b \<le> length xs \<Longrightarrow> slice xs (a, b) = map ((!) xs) [a..<b]"
  by (intro nth_equalityI) (simp_all add: slice_def)

lemma slices_cover:
  assumes "\<forall>(a, b)\<in>set cs. a < b \<and> b \<le> length xs" and "chunk_items cs = [0..<length xs]"
  shows "(\<Union>c\<in>set cs. set (slice xs c)) = set xs"
proof -
  have "set (slice xs c) = (!) xs ` set ((\<lambda>(a, b). [a..<b]) c)" if "c \<in> set cs" for c
  proof -
    obtain a b where c: "c = (a, b)" by (cases c)
    then show ?thesis using slice_nth [of a b xs] assms(1) that by auto
  qed
  then have "(\<Union>c\<in>set cs. set (slice xs c)) = (!) xs ` set (chunk_items cs)" by (auto simp: chunk_items_def)
  then show ?thesis unfolding assms(2) by (auto simp: set_conv_nth image_def)
qed

lemma root_from_proofs_iff:
  "RootFromProofs H inputs workers = Inr r \<longleftrightarrow> inputs \<noteq> [] \<and> (\<forall>p\<in>set inputs. input_root H p = Inr r)"
proof (cases "inputs = []")
  case True
  then show ?thesis by (simp add: RootFromProofs_def)
next
  case False
  let ?w = "splitWorkers (length inputs) workers proofGrain"
  show ?thesis
  proof (cases "?w \<le> 1")
    case True
    then show ?thesis
      using False reduce_iff [of 0 "length inputs" inputs H r] by (simp add: RootFromProofs_def slice_def)
  next
    case many: False
    let ?cs = "parallelChunks (length inputs) ?w"
    have n: "0 < length inputs" using False by simp
    have cover: "chunk_items ?cs = [0..<length inputs]" by (rule chunks_cover [OF n splitWorkers_pos])
    have bounds: "\<forall>(a, b)\<in>set ?cs. a < b \<and> b \<le> length inputs" using chunk_bounds [OF n splitWorkers_pos] by blast
    have "?cs \<noteq> []" using arg_cong [OF cover, of length] n by (auto simp: chunk_items_def)
    then obtain c cs where cs: "?cs = c # cs" by (cases ?cs) auto
    have one: "(case d of (a, b) \<Rightarrow> reduceProofs H inputs a b) = Inr x \<longleftrightarrow> (\<forall>p\<in>set (slice inputs d). input_root H p = Inr x)"
      if "d \<in> set ?cs" for d x
      using bounds that reduce_iff [of "fst d" "snd d" inputs H x] by (cases d) auto
    have "RootFromProofs H inputs workers = Inr r \<longleftrightarrow>
        (\<forall>d\<in>set ?cs. (case d of (a, b) \<Rightarrow> reduceProofs H inputs a b) = Inr r)"
      using False many by (auto simp: RootFromProofs_def Let_def cs join_roots_iff split: sum.splits)
    also have "\<dots> \<longleftrightarrow> (\<forall>p\<in>(\<Union>d\<in>set ?cs. set (slice inputs d)). input_root H p = Inr r)" using one by simp
    also have "\<dots> \<longleftrightarrow> (\<forall>p\<in>set inputs. input_root H p = Inr r)" using slices_cover [OF bounds cover] by simp
    finally show ?thesis using False by simp
  qed
qed

section \<open>The proofs of a tree, and only they, lead to its root\<close>

text \<open>The inputs of the hash function while a tree is built and while a proof is checked.\<close>

definition tree_inputs :: "bytes list \<Rightarrow> bytes \<Rightarrow> bytes set" where
  "tree_inputs leaves nodes = (#) 0 ` set leaves \<union>
     (\<lambda>p. 1 # node nodes (2 * p + 1) @ node nodes (2 * p + 2)) ` {..<length leaves - 1}"

fun climb_inputs :: "hasher \<Rightarrow> bytes \<Rightarrow> int \<Rightarrow> bytes list \<Rightarrow> bytes set" where
  "climb_inputs H current pos [] = {}"
| "climb_inputs H current pos (sib # proof) =
     (let x = 1 # (if pos mod 2 = 0 then current @ sib else sib @ current) in
      insert x (climb_inputs H (H x) (if 0 \<le> pos then pos div 2 else - (- pos div 2)) proof))"

definition proof_inputs :: "hasher \<Rightarrow> proof_input \<Rightarrow> bytes set" where
  "proof_inputs H p = insert (0 # pi_Leaf p) (climb_inputs H (hashLeaf H (pi_Leaf p)) (pi_Index p) (pi_Path p))"

lemma climb_binds:
  assumes tree: "heap_tree H leaves nodes" and H: "hash32 H" and inj: "inj_on H S" and S: "tree_inputs leaves nodes \<subseteq> S"
  shows "2 ^ j \<le> length leaves \<Longrightarrow> q < 2 ^ j \<Longrightarrow> length proof = j \<Longrightarrow> length current = NodeSize \<Longrightarrow>
    climb_inputs H current (int q) proof \<subseteq> S \<Longrightarrow> climb H current (int q) proof = Inr (node nodes 0) \<Longrightarrow>
    current = node nodes (2 ^ j - 1 + q) \<and> proof = sib_path nodes (2 ^ j - 1 + q)"
proof (induction j arbitrary: q current "proof")
  case 0
  then show ?case by (simp add: sib_path.simps [of _ 0])
next
  case (Suc j)
  let ?m = "2 ^ j :: nat" and ?n = "length leaves"
  let ?pos = "2 * ?m - 1 + q" and ?p = "?m - 1 + q div 2"
  obtain s rest where p: "proof = s # rest" "length rest = j" using Suc.prems(3) by (cases "proof") auto
  have m: "0 < ?m" by simp
  have q: "q div 2 < ?m" "?m \<le> ?n" using Suc.prems(1,2) by simp_all
  have n: "2 * ?m \<le> ?n" using Suc.prems(1) by simp
  have pn: "?p < ?n - 1" using q n by linarith
  define x where "x = 1 # (if even q then current @ s else s @ current)"
  have ev: "int q mod 2 = 0 \<longleftrightarrow> even q" by presburger
  have s: "length s = NodeSize" using Suc.prems(6) p(1) by (auto split: if_splits)
  have ins: "x \<in> S" "climb_inputs H (H x) (int (q div 2)) rest \<subseteq> S"
    using Suc.prems(5) unfolding p(1) x_def by (simp_all add: ev Let_def zdiv_int)
  have "climb H (H x) (int (q div 2)) rest = Inr (node nodes 0)"
    using Suc.prems(6) s unfolding p(1) x_def by (simp add: ev hashPair_def zdiv_int if_distrib cong: if_cong)
  from Suc.IH [OF q(2,1) p(2) _ ins(2) this] H
  have up: "H x = node nodes ?p" "rest = sib_path nodes ?p" by (simp_all add: hash32_def)
  let ?y = "1 # node nodes (2 * ?p + 1) @ node nodes (2 * ?p + 2)"
  have "node nodes ?p = H ?y" using tree pn by (simp add: heap_tree_def Let_def pair_at_def hashPair_def)
  moreover have "?y \<in> S" using S pn unfolding tree_inputs_def by blast
  ultimately have xy: "x = ?y" using inj ins(1) up(1) by (simp add: inj_on_eq_iff)
  have nodes: "length nodes = TreeBufferSize ?n" using tree by (simp add: heap_tree_def Let_def)
  have len: "length (node nodes (2 * ?p + 1)) = NodeSize"
    using length_node [OF nodes] child_bound [OF _ pn, of "2 * ?p + 1"] by simp
  have path: "sib_path nodes ?pos = node nodes (sibling ?pos) # sib_path nodes ?p" by (rule path_step [OF m])
  have "current = node nodes ?pos \<and> s = node nodes (sibling ?pos)"
  proof (cases "even q")
    case True
    then have "current = node nodes (2 * ?p + 1) \<and> s = node nodes (2 * ?p + 2)"
      using xy len Suc.prems(4) unfolding x_def by simp
    then show ?thesis using parent(3) [OF m True] by metis
  next
    case False
    then have "s = node nodes (2 * ?p + 1) \<and> current = node nodes (2 * ?p + 2)"
      using xy len s unfolding x_def by simp
    then show ?thesis using parent(4) [OF m False] by metis
  qed
  then show ?case using path p(1) up(2) by simp
qed

lemma tree_shape:
  assumes "length nodes = TreeBufferSize n" and "n = 2 ^ k"
  shows "numLeaves nodes = n" and "depth nodes = k"
proof -
  have n: "0 < n" using assms(2) by simp
  then have "length nodes div NodeSize = 2 * n - 1"
    using assms(1) by (simp add: TreeBufferSize_def treeNodeCount_def NodeSize_def)
  then show num: "numLeaves nodes = n" using n by (simp add: numLeaves_def)
  show "depth nodes = k"
  proof (cases k)
    case 0
    then show ?thesis using num assms(2) by (simp add: depth_def)
  next
    case (Suc j)
    have "n = 2 * 2 ^ j" "(1 :: nat) \<le> 2 ^ j" using assms(2) Suc by simp_all
    then have "\<not> n \<le> 1" by linarith
    then show ?thesis using num assms(2) bits_Len_pred [of k] by (simp add: depth_def Let_def)
  qed
qed

lemma tree_proof:
  assumes "heap_tree H leaves nodes" and k: "length leaves = 2 ^ k" and i: "i < length leaves"
  shows "tree_Proof nodes (int i) = Inr (sib_path nodes (2 ^ k - 1 + i))"
proof -
  have "length nodes = TreeBufferSize (length leaves)" using assms(1) by (simp add: heap_tree_def Let_def)
  note shape = tree_shape [OF this k]
  have len: "length (sib_path nodes (2 ^ k - 1 + i)) = k" using length_sib_path i k by simp
  then have "fill_levels nodes (replicate k []) 0 (2 ^ k - 1 + i) = Some (sib_path nodes (2 ^ k - 1 + i))"
    using fill_levels_path [of 0 nodes "2 ^ k - 1 + i" "replicate k []"] by simp
  then show ?thesis using shape i k by (simp add: tree_Proof_def fillProof_def Let_def)
qed

lemma proof_exact:
  assumes tree: "heap_tree H leaves nodes" and H: "hash32 H" and k: "length leaves = 2 ^ k"
    and inj: "inj_on H S" "tree_inputs leaves nodes \<subseteq> S" "proof_inputs H p \<subseteq> S"
    and p: "pi_Index p = int i" "i < length leaves" "length (pi_Path p) = k"
  shows "input_root H p = Inr (tree_Root nodes) \<longleftrightarrow> pi_Leaf p = leaves ! i \<and> tree_Proof nodes (int i) = Inr (pi_Path p)"
proof -
  have root: "tree_Root nodes = node nodes 0" by (simp add: tree_Root_def node_def)
  have leaf: "node nodes (2 ^ k - 1 + i) = hashLeaf H (leaves ! i)"
    using tree p(2) k by (simp add: heap_tree_def Let_def)
  note tp = tree_proof [OF tree k p(2)]
  have ik: "i < 2 ^ k" "2 ^ k \<le> length leaves" using p(2) k by simp_all
  have inputs: "climb_inputs H (hashLeaf H (pi_Leaf p)) (int i) (pi_Path p) \<subseteq> S" "0 # pi_Leaf p \<in> S"
    using inj(3) p(1) by (simp_all add: proof_inputs_def)
  show ?thesis
  proof
    assume "input_root H p = Inr (tree_Root nodes)"
    then have "climb H (hashLeaf H (pi_Leaf p)) (int i) (pi_Path p) = Inr (node nodes 0)"
      using root p(1) by (simp add: input_root_def RootFromProof_def)
    from climb_binds [OF tree H inj(1,2) ik(2,1) p(3) _ inputs(1) this]
    have "hashLeaf H (pi_Leaf p) = hashLeaf H (leaves ! i)" "pi_Path p = sib_path nodes (2 ^ k - 1 + i)"
      using leaf H by (simp_all add: hashLeaf_def hash32_def)
    moreover have "0 # leaves ! i \<in> S" using inj(2) p(2) by (auto simp: tree_inputs_def)
    ultimately show "pi_Leaf p = leaves ! i \<and> tree_Proof nodes (int i) = Inr (pi_Path p)"
      using inj(1) inputs(2) tp by (auto simp: hashLeaf_def inj_on_eq_iff)
  next
    assume "pi_Leaf p = leaves ! i \<and> tree_Proof nodes (int i) = Inr (pi_Path p)"
    then show "input_root H p = Inr (tree_Root nodes)"
      using climb_tree [OF tree ik(2,1)] leaf tp root p(1) by (simp add: input_root_def RootFromProof_def)
  qed
qed

section \<open>Roots\<close>


text \<open>C39: Only the rows of a tree pass: a batch of proofs whose indices and depths fit the tree leads to its root exactly if it
  is not empty and every proof in it is the tree's own proof for the tree's own leaf at that index, however many workers
  check it (as long as the hash function has no collision on what was hashed for the tree and for these proofs).\<close>

theorem merkle_batch_exact:
  assumes "fair sched" and "hash32 H" and "NewTree H sched leaves workers = Some nodes"
    and "\<forall>p\<in>set inputs. 0 \<le> pi_Index p \<and> pi_Index p < int (length leaves) \<and> length (pi_Path p) = depth nodes"
    and "inj_on H (tree_inputs leaves nodes \<union> (\<Union>p\<in>set inputs. proof_inputs H p))"
  shows "RootFromProofs H inputs checkers = Inr (tree_Root nodes) \<longleftrightarrow> inputs \<noteq> [] \<and>
    (\<forall>p\<in>set inputs. pi_Leaf p = leaves ! nat (pi_Index p) \<and> tree_Proof nodes (pi_Index p) = Inr (pi_Path p))"
proof -
  let ?S = "tree_inputs leaves nodes \<union> (\<Union>p\<in>set inputs. proof_inputs H p)"
  obtain k where k: "length leaves = 2 ^ k" and tree: "heap_tree H leaves nodes"
    using new_tree_into [OF assms(1,2), of "replicate (TreeBufferSize (length leaves)) 0" leaves workers] assms(3)
    by (auto simp: NewTree_def split: if_splits)
  have "length nodes = TreeBufferSize (length leaves)" using tree by (simp add: heap_tree_def Let_def)
  note depth = tree_shape(2) [OF this k]
  have "input_root H p = Inr (tree_Root nodes) \<longleftrightarrow>
      pi_Leaf p = leaves ! nat (pi_Index p) \<and> tree_Proof nodes (pi_Index p) = Inr (pi_Path p)" if p: "p \<in> set inputs" for p
  proof -
    have i: "pi_Index p = int (nat (pi_Index p))" "nat (pi_Index p) < length leaves" "length (pi_Path p) = k"
      using assms(4) p depth by auto
    have "proof_inputs H p \<subseteq> ?S" using p by blast
    from proof_exact [OF tree assms(2) k assms(5) _ this i] show ?thesis using i(1) by simp
  qed
  then show ?thesis by (auto simp: root_from_proofs_iff)
qed

section \<open>A concrete tree\<close>

definition ref_hasher :: hasher where
  "ref_hasher x = (if hd x = 0 then take 32 (tl x @ replicate 32 0) else replicate 32 9)"

lemma ref_hash32: "hash32 ref_hasher"
  by (simp add: hash32_def ref_hasher_def NodeSize_def min_def)

lemma ref_fair: "fair chunk_items"
  by (simp add: fair_def)

definition ref_nodes :: bytes where
  "ref_nodes = replicate 32 9 @ (5 # replicate 31 0) @ (6 # replicate 31 0)"

lemma ref_new_tree: "NewTree ref_hasher chunk_items [[5], [6]] 8 = Some ref_nodes"
  by code_simp


theorem merkle_batch_exact_witness:
  "RootFromProofs ref_hasher [\<lparr>pi_Leaf = [6], pi_Index = 1, pi_Path = [5 # replicate 31 0]\<rparr>] 4 = Inr (tree_Root ref_nodes)"
proof -
  let ?p = "\<lparr>pi_Leaf = [6], pi_Index = 1, pi_Path = [5 # replicate 31 0]\<rparr>"
  let ?pair = "1 # (5 # replicate 31 0) @ (6 # replicate 31 0) :: bytes"
  have n: "node ref_nodes (Suc 0) = 5 # replicate 31 0" "node ref_nodes (Suc (Suc 0)) = 6 # replicate 31 0" by code_simp+
  have t: "tree_inputs [[5], [6]] ref_nodes = {[0, 5], [0, 6], ?pair}"
    using n by (simp add: tree_inputs_def lessThan_Suc insert_commute)
  have p: "proof_inputs ref_hasher ?p = {[0, 6], ?pair}"
    by (simp add: proof_inputs_def hashLeaf_def ref_hasher_def)
  have "ref_hasher [0, 5] = 5 # replicate 31 0" "ref_hasher [0, 6] = 6 # replicate 31 0" "ref_hasher ?pair = 9 # replicate 31 9"
    by code_simp+
  then have inj: "inj_on ref_hasher (tree_inputs [[5], [6]] ref_nodes \<union> (\<Union>p\<in>set [?p]. proof_inputs ref_hasher p))"
    unfolding t by (simp add: p inj_on_def)
  have "depth ref_nodes = 1" by code_simp
  moreover have "tree_Proof ref_nodes 1 = Inr [5 # replicate 31 0]" by code_simp
  ultimately show ?thesis
    using merkle_batch_exact [OF ref_fair ref_hash32 ref_new_tree _ inj, of 4] by simp
qed

end
