(* ===== verification/Spec2Isabelle.thy ===== *)
theory Spec2Isabelle
  imports FibreKeys FibreReplay FibreExport ValidatorShards SignalQuorum ProposalRef MintSchedule MerkleProof
begin

text \<open>
  A verification development of celestia-app, the state machine of the Celestia blockchain (Go, on the Cosmos SDK and
  CometBFT). Paths below are relative to \<open>src/\<close>.

  \<^bold>\<open>The program.\<close> Users pay for blobs (x/blob), which go into the data square of a block, or for fibre blobs (x/fibre), which go
  to the validators row by row and leave a payment promise that is settled from an escrow account. \<open>CheckTx\<close> and the ante
  handler admit transactions; \<open>PrepareProposal\<close> fills a square with admitted transactions and \<open>ProcessProposal\<close> checks the
  square of a proposer. x/signal schedules upgrades by a quorum of the voting power, x/minfee holds the minimum gas price,
  x/mint pays the inflation. The fibre client and server share the assignment of rows to validators, and commit to rows by
  Merkle trees.

  \<^bold>\<open>Shared theories.\<close>
  \<^item> \<^verbatim>\<open>Prelude\<close>: bytes, instants, results (\<open>rbind\<close>), the ordered key-value index of every store with its locale, reachability
    of a step relation with the locale \<open>step_invariant\<close>, big-endian integers.
  \<^item> \<^verbatim>\<open>Sdk\<close>: coins, bank, addresses, hashes and time formats as a record \<open>sdk\<close> of parameters, their documented laws
    (\<open>sdk_laws\<close>) and the concrete instance \<open>ref_sdk\<close> of the witnesses.
  \<^item> \<^verbatim>\<open>GoInt\<close>: signed 64-bit arithmetic with wrap-around and truncating division. \<^verbatim>\<open>LegacyDec\<close>: the fixed-point decimals of
    the SDK as parameters, with laws and an instance.

  \<^bold>\<open>x/fibre and payment promises.\<close>
  \<^item> \<^verbatim>\<open>FibreParams\<close> (x/fibre/types/params.go, gas.go), \<^verbatim>\<open>FibreKeys\<close> (types/keys.go), \<^verbatim>\<open>PaymentPromise\<close>
    (fibre/payment_promise.go), \<^verbatim>\<open>FibreKeeper\<close> (keeper/keeper.go), \<^verbatim>\<open>FibreMsgs\<close> (types/msgs.go, keeper/msg_server.go),
    \<^verbatim>\<open>FibreAbci\<close> (keeper/abci.go), \<^verbatim>\<open>FibreGenesis\<close> (types/genesis.go, keeper/genesis.go): the definitions. The module's state is
    the record \<open>fibre_state\<close>, one index per key prefix, with the bank.
  \<^item> \<^verbatim>\<open>FibreInv\<close>, \<^verbatim>\<open>FibreSafety\<close>, \<^verbatim>\<open>FibreBlock\<close>, \<^verbatim>\<open>FibreChain\<close>: the accounting invariant, kept by every message and block, and
    what it gives: escrow balances add up, the module is solvent, validated promises settle, due withdrawals are paid.
  \<^item> \<^verbatim>\<open>FibreQueue\<close>: settlements consume withdrawals first-in first-out. \<^verbatim>\<open>FibreReplay\<close>: no promise is settled twice along a
    run. \<^verbatim>\<open>FibreExport\<close>: genesis export and import are inverse.
  \<^item> \<^verbatim>\<open>FibreKeys\<close> also shows that the keys of different entries differ and that the time iterators select exactly the due ones.

  \<^bold>\<open>Validators and rows.\<close>
  \<^item> \<^verbatim>\<open>ValidatorSet\<close> (fibre/validator/*.go, the quorum check of x/fibre/keeper/msg_server.go), \<^verbatim>\<open>ValidatorQuorum\<close> (accepted
    signatures form a quorum, valid ones are accepted exactly with enough power), \<^verbatim>\<open>ValidatorShards\<close> (an upload is accepted
    exactly with the assigned rows; a group with the liveness share holds enough different rows).
  \<^item> \<^verbatim>\<open>Merkle\<close>, \<^verbatim>\<open>MerkleTree\<close>, \<^verbatim>\<open>MerkleProof\<close> (pkg/rsema1d/merkle/*.go): trees, in-place roots and proofs. The order in which
    the goroutines of a level run is a parameter, constrained only to run every item once (\<open>fair\<close>).

  \<^bold>\<open>Upgrades, fees, inflation.\<close>
  \<^item> \<^verbatim>\<open>Signal\<close>, \<^verbatim>\<open>SignalQuorum\<close> (x/signal, \<open>EndBlocker\<close> of app/app.go): an upgrade needs five sixths of the power, gets
    scheduled with it, and is final.
  \<^item> \<^verbatim>\<open>MinFee\<close> (x/minfee), \<^verbatim>\<open>Mint\<close> and \<^verbatim>\<open>MintSchedule\<close> (x/mint): the inflation schedule and what a sequence of blocks mints.

  \<^bold>\<open>Transactions and blocks.\<close>
  \<^item> \<^verbatim>\<open>Blob\<close> and \<^verbatim>\<open>BlobTx\<close> (x/blob): the message, its checks and gas, blob transactions, parameters.
  \<^item> \<^verbatim>\<open>Ante\<close> and \<^verbatim>\<open>AnteChecks\<close> (app/ante, app/param_filters.go, x/blob/ante, x/fibre/ante, app/pff_sig_cache.go): each decorator
    of the repository as a function of the next handler, and what it lets through.
  \<^item> \<^verbatim>\<open>Classify\<close> (x/fibre/types/classified_tx.go, app/encoding), \<^verbatim>\<open>Da\<close> (pkg/da), \<^verbatim>\<open>CheckTx\<close> and \<^verbatim>\<open>CheckInv\<close> (app/check_tx.go,
    app/pfb_tx_cache.go): decoding, the data availability header, admission and the cache of validated blob transactions.
  \<^item> \<^verbatim>\<open>Proposal\<close> (app/filtered_square_builder.go, prepare_proposal.go, process_proposal.go, pff_execution.go), \<^verbatim>\<open>ProposalFill\<close>,
    \<^verbatim>\<open>ProposalAccept\<close>, \<^verbatim>\<open>ProposalRef\<close>: the handlers, the simulation between building and checking a proposal, and its
    consequences. Acceptance of one's own proposal has the condition \<open>clean_prepare\<close> on the run, because the builder does not
    branch the state for plain and blob transactions.

  \<^bold>\<open>Conventions.\<close> A handler is a function from the environment, the context, the message and the state to an error or a new
  state; a Go panic is an error or \<open>None\<close>. Integers keep their width where the code computes at a width (words for lengths,
  gas, powers and durations) and are unbounded where the code uses big integers. Store keys are typed tuples in the keepers;
  \<^verbatim>\<open>FibreKeys\<close> justifies this by the byte layout. Loops are structural recursion, or functions with a measure; there is no fuel.

  \<^bold>\<open>Assumptions.\<close> Every property about third-party code names its laws as hypotheses, and its witness shows them satisfied
  by a concrete instance: the bank, coin and address laws, the decimal laws, CometBFT's validator sets, the contract of the
  square builder and of the decoder, a meter that the ante handler sets itself, and hashes without collision on the data at
  hand. Bounds in hypotheses exclude wrap-around: fewer than \<open>2 ^ 18\<close> blobs in a message, a total power below
  \<open>5 * 10 ^ 17\<close> in x/signal, annual provisions of at most \<open>10 ^ 33\<close>, products of rows and power below \<open>2 ^ 63\<close>.

  \<^bold>\<open>Not modelled.\<close> The wiring of the application, its export and upgrade handlers, gRPC services and gas estimation; x/valaddr,
  x/forwarding and x/zkism; the fibre client, server, disk store and client-side escrow ledger; Reed-Solomon coding and row
  verification of pkg/rsema1d; pkg/user, pkg/proof, pkg/wrapper and pkg/inclusion; the multiplexer, commands and tools. They
  are network or disk I/O, generated code, or calls into third-party libraries. The order of the whole ante chain, with the
  decorators of the SDK, is a parameter of the proposal handlers.
\<close>

end
